(* ===== verification/Prelude.thy ===== *)
theory Prelude
  imports Main "HOL-Library.Word" "HOL-Library.Multiset" "HOL-Library.AList"
begin

text \<open>
  Shared vocabulary of the development: Go's fixed-width integers as words, Go's
  outcomes (a value, an error value, a run-time panic), slices and buffers with their
  bounds checks, the big-endian conversions of \<^verbatim>\<open>encoding/binary\<close>, the decimal printing
  that \<^verbatim>\<open>fmt\<close> does for \<^verbatim>\<open>%d\<close>, and Go maps as association lists (a \<^verbatim>\<open>range\<close> over a
  map visits the entries in an unspecified order, so theorems quantify over every list
  with distinct keys). The collections below carry the automation of the component
  theories.
\<close>

unbundle bit_operations_syntax

section \<open>Types and collections\<close>

type_synonym byte = "8 word"
type_synonym u8 = "8 word"
type_synonym u16 = "16 word"
type_synonym u32 = "32 word"

named_theorems go_consts \<open>constants of the source\<close>
named_theorems wire_defs \<open>definitions of the byte-level constructions\<close>
named_theorems handler_defs \<open>definitions of handlers and of their helpers\<close>

section \<open>Outcomes\<close>

text \<open>
  \<open>Ok\<close> is a normal return, \<open>Fail\<close> a returned \<^verbatim>\<open>error\<close>, \<open>Panic\<close> a run-time panic (an index
  or a slice bound out of range).
\<close>

datatype ('e, 'a) res = Ok 'a | Fail 'e | Panic

fun bind_res :: "('e, 'a) res \<Rightarrow> ('a \<Rightarrow> ('e, 'b) res) \<Rightarrow> ('e, 'b) res" where
  "bind_res (Ok a) f = f a"
| "bind_res (Fail e) f = Fail e"
| "bind_res Panic f = Panic"

lemma bind_res_Ok_iff:
  "bind_res m f = Ok b \<longleftrightarrow> (\<exists>a. m = Ok a \<and> f a = Ok b)"
  by (cases m) auto

lemma bind_res_Panic_iff:
  "bind_res m f = Panic \<longleftrightarrow> m = Panic \<or> (\<exists>a. m = Ok a \<and> f a = Panic)"
  by (cases m) auto

section \<open>Slices and buffers\<close>

definition index :: "'a list \<Rightarrow> nat \<Rightarrow> ('e, 'a) res" where
  "index xs i = (if i < length xs then Ok (xs ! i) else Panic)"

definition slice :: "'a list \<Rightarrow> nat \<Rightarrow> nat \<Rightarrow> ('e, 'a list) res" where
  "slice xs i j = (if i \<le> j \<and> j \<le> length xs then Ok (take (j - i) (drop i xs)) else Panic)"

definition store :: "'a list \<Rightarrow> nat \<Rightarrow> 'a \<Rightarrow> ('e, 'a list) res" where
  "store buf i v = (if i < length buf then Ok (buf[i := v]) else Panic)"

text \<open>
  \<^verbatim>\<open>copy(buf[off:], src)\<close>: the slice panics when \<open>off\<close> is past the end, the copy moves
  as many bytes as fit.
\<close>

definition copy_at :: "'a list \<Rightarrow> nat \<Rightarrow> 'a list \<Rightarrow> ('e, 'a list) res" where
  "copy_at buf off src =
     (if off \<le> length buf
      then Ok (take off buf @ take (length buf - off) src @ drop (off + length src) buf)
      else Panic)"

lemma index_Ok [simp]: "i < length xs \<Longrightarrow> index xs i = Ok (xs ! i)"
  by (simp add: index_def)

lemma slice_Ok [simp]:
  "i \<le> j \<Longrightarrow> j \<le> length xs \<Longrightarrow> slice xs i j = Ok (take (j - i) (drop i xs))"
  by (simp add: slice_def)

lemma store_Ok [simp]: "i < length buf \<Longrightarrow> store buf i v = Ok (buf[i := v])"
  by (simp add: store_def)

lemma copy_at_Ok_ex:
  "off \<le> length buf \<Longrightarrow> \<exists>buf'. copy_at buf off src = Ok buf' \<and> length buf' = length buf"
  by (auto simp: copy_at_def)

lemma copy_at_append:
  "copy_at (pre @ ys @ zs) (length pre) src = Ok (pre @ src @ zs)" if "length src = length ys"
  using that by (simp add: copy_at_def)

lemma store_append:
  "store (pre @ y # zs) (length pre) v = Ok (pre @ v # zs)"
  by (simp add: store_def)

lemma copy_at_zeros:
  "off = length pre \<Longrightarrow> N = length src + n \<Longrightarrow>
   copy_at (pre @ replicate N x) off src = Ok ((pre @ src) @ replicate n x)"
  using copy_at_append [of src "replicate (length src) x" pre "replicate n x"]
  by (simp add: replicate_add)

lemma store_zeros:
  "off = length pre \<Longrightarrow> N = Suc n \<Longrightarrow>
   store (pre @ replicate N x) off v = Ok ((pre @ [v]) @ replicate n x)"
  by (simp add: store_append)

lemma replicate_split: "m \<le> n \<Longrightarrow> replicate n x = replicate m x @ replicate (n - m) x"
  by (simp add: replicate_add [symmetric])

section \<open>Big-endian integers\<close>

definition PutUint16 :: "u16 \<Rightarrow> byte list" where
  "PutUint16 v = [ucast (drop_bit 8 v), ucast v]"

definition PutUint32 :: "u32 \<Rightarrow> byte list" where
  "PutUint32 v = [ucast (drop_bit 24 v), ucast (drop_bit 16 v), ucast (drop_bit 8 v), ucast v]"

text \<open>
  \<open>be16\<close> and \<open>be32\<close> are the values; every use in the model stands behind the length
  check of the source, or behind \<open>Uint16\<close> and \<open>Uint32\<close>, which panic on a short slice as
  the library functions do.
\<close>

fun be16 :: "byte list \<Rightarrow> u16" where
  "be16 (a # b # _) = push_bit 8 (ucast a) OR ucast b"
| "be16 _ = 0"

fun be32 :: "byte list \<Rightarrow> u32" where
  "be32 (a # b # c # d # _) =
     push_bit 24 (ucast a) OR push_bit 16 (ucast b) OR push_bit 8 (ucast c) OR ucast d"
| "be32 _ = 0"

definition Uint16 :: "byte list \<Rightarrow> ('e, u16) res" where
  "Uint16 bs = (if length bs < 2 then Panic else Ok (be16 bs))"

definition Uint32 :: "byte list \<Rightarrow> ('e, u32) res" where
  "Uint32 bs = (if length bs < 4 then Panic else Ok (be32 bs))"

lemma u8_bound: "unat (b :: u8) < 256"
proof -
  have "unat b < 2 ^ LENGTH(8)" by (rule unsigned_less)
  then show ?thesis by simp
qed

lemma u16_bound: "unat (v :: u16) < 65536"
proof -
  have "unat v < 2 ^ LENGTH(16)" by (rule unsigned_less)
  then show ?thesis by simp
qed

lemma u16_max: "unat (v :: u16) = 65535 \<Longrightarrow> v = 65535"
  by (simp add: word_unat_eq_iff)

lemma u16_le_max: "65535 \<le> (v :: u16) \<Longrightarrow> v = 65535"
  using u16_bound [of v] by (intro u16_max) (simp add: word_le_nat_alt)

lemma length_PutUint16 [simp]: "length (PutUint16 v) = 2"
  by (simp add: PutUint16_def)

lemma length_PutUint32 [simp]: "length (PutUint32 v) = 4"
  by (simp add: PutUint32_def)

lemma be16_PutUint16 [simp]: "be16 (PutUint16 v @ rest) = v"
  by (simp add: PutUint16_def)
     (rule bit_word_eqI, auto simp: bit_simps)

lemma be16_PutUint16_Nil [simp]: "be16 (PutUint16 v) = v"
  using be16_PutUint16 [of v "[]"] by simp

lemma be16_bytes [simp]:
  "push_bit 8 (ucast (ucast (drop_bit 8 v) :: u8)) OR ucast (ucast v :: u8) = (v :: u16)"
  using be16_PutUint16_Nil [of v] by (simp add: PutUint16_def)

lemma be32_PutUint32 [simp]: "be32 (PutUint32 v @ rest) = v"
proof -
  have "bit (be32 (PutUint32 v @ rest)) n = bit v n" if n: "n < 32" for n
  proof -
    consider "n < 8" | "8 \<le> n" "n < 16" | "16 \<le> n" "n < 24" | "24 \<le> n"
      by linarith
    then show ?thesis
      using n by cases (auto simp: PutUint32_def bit_simps)
  qed
  then show ?thesis by (intro bit_word_eqI) simp
qed

lemma be32_PutUint32_Nil [simp]: "be32 (PutUint32 v) = v"
  using be32_PutUint32 [of v "[]"] by simp

lemma Uint16_Ok [simp]: "2 \<le> length bs \<Longrightarrow> Uint16 bs = Ok (be16 bs)"
  by (simp add: Uint16_def)

lemma Uint32_Ok [simp]: "4 \<le> length bs \<Longrightarrow> Uint32 bs = Ok (be32 bs)"
  by (simp add: Uint32_def)

section \<open>Decimal printing\<close>

text \<open>What \<^verbatim>\<open>fmt\<close> prints for \<^verbatim>\<open>%d\<close> on an unsigned integer.\<close>

definition digit :: "nat \<Rightarrow> char" where
  "digit n = char_of (48 + n)"

lemma digit_chars:
  "digit 0 = CHR ''0''" "digit (Suc 0) = CHR ''1''" "digit 2 = CHR ''2''" "digit 3 = CHR ''3''"
  "digit 4 = CHR ''4''" "digit 5 = CHR ''5''" "digit 6 = CHR ''6''" "digit 7 = CHR ''7''"
  "digit 8 = CHR ''8''" "digit 9 = CHR ''9''"
  by code_simp+

fun fmt_d :: "nat \<Rightarrow> string" where
  "fmt_d n = (if n < 10 then [digit n] else fmt_d (n div 10) @ [digit (n mod 10)])"

declare fmt_d.simps [simp del]

fun undigits :: "string \<Rightarrow> nat" where
  "undigits [] = 0"
| "undigits (c # cs) = (of_char c - 48) * 10 ^ length cs + undigits cs"

lemma undigits_append:
  "undigits (xs @ ys) = undigits xs * 10 ^ length ys + undigits ys"
  by (induction xs) (simp_all add: power_add algebra_simps)

lemma undigits_fmt_d: "undigits (fmt_d n) = n"
proof (induction n rule: fmt_d.induct)
  case (1 n)
  show ?case
  proof (cases "n < 10")
    case True
    then show ?thesis by (simp add: fmt_d.simps [of n] digit_def)
  next
    case False
    with 1 show ?thesis
      by (simp add: fmt_d.simps [of n] digit_def undigits_append)
  qed
qed

lemma fmt_d_inject [simp]: "fmt_d m = fmt_d n \<longleftrightarrow> m = n"
  by (metis undigits_fmt_d)

lemma fmt_d_nonempty [simp]: "fmt_d n \<noteq> []"
  by (subst fmt_d.simps) simp

section \<open>Go maps\<close>

text \<open>
  A Go map is an association list with distinct keys. The position of an entry stands for
  its place in the iteration order of a \<^verbatim>\<open>range\<close>, which Go does not specify: nothing may be
  assumed about it, and the invariants below never constrain it.
\<close>

type_synonym ('k, 'v) gomap = "('k \<times> 'v) list"

abbreviation lookup :: "('k, 'v) gomap \<Rightarrow> 'k \<Rightarrow> 'v option" where
  "lookup \<equiv> map_of"

abbreviation put :: "'k \<Rightarrow> 'v \<Rightarrow> ('k, 'v) gomap \<Rightarrow> ('k, 'v) gomap" where
  "put \<equiv> AList.update"

abbreviation del :: "'k \<Rightarrow> ('k, 'v) gomap \<Rightarrow> ('k, 'v) gomap" where
  "del \<equiv> AList.delete"

definition keys_distinct :: "('k, 'v) gomap \<Rightarrow> bool" where
  "keys_distinct m \<longleftrightarrow> distinct (map fst m)"

lemma keys_distinct_Nil [simp]: "keys_distinct []"
  by (simp add: keys_distinct_def)

lemma keys_distinct_put [simp]: "keys_distinct m \<Longrightarrow> keys_distinct (put k v m)"
  by (simp add: keys_distinct_def distinct_update)

lemma keys_distinct_del [simp]: "keys_distinct m \<Longrightarrow> keys_distinct (del k m)"
  by (simp add: keys_distinct_def distinct_delete)

lemma lookup_put [simp]: "lookup (put k v m) = (lookup m)(k \<mapsto> v)"
  by (rule update_conv')

lemma lookup_del [simp]: "lookup (del k m) = (lookup m)(k := None)"
  by (rule delete_conv')

lemma put_new: "lookup m k = None \<Longrightarrow> put k v m = m @ [(k, v)]"
  by (induction m) (auto split: if_splits)

lemma lookup_in_set: "lookup m k = Some v \<Longrightarrow> (k, v) \<in> set m"
  by (rule map_of_SomeD)

lemma set_put: "set (put k v m) \<subseteq> insert (k, v) (set m)"
  by (induction m) auto

lemma set_del: "set (del k m) \<subseteq> set m"
  by (auto simp: AList.delete_eq)

lemma in_set_lookup: "keys_distinct m \<Longrightarrow> (k, v) \<in> set m \<longleftrightarrow> lookup m k = Some v"
  by (simp add: keys_distinct_def)

end
