(* ===== verification/Types.thy ===== *)
theory Types
  imports Prelude
begin

text \<open>
  The enumerations of \<^verbatim>\<open>types.go\<close>. Go's \<^verbatim>\<open>type Primitive uint8\<close> with constants is an open
  enumeration (a decoded message can carry any of the 256 values), so each is a word with
  named constants, and each \<^verbatim>\<open>String\<close> method is total. The lemmas show that the printed
  names identify the value.
\<close>

section \<open>Protocol constants\<close>

type_synonym Primitive = u8
type_synonym AttributeType = u8
type_synonym RequestStatus = u8
type_synonym ErrorCode = u8
type_synonym Priority = u16
type_synonym SessionState = u8

definition ProtocolVersionRFC4582 :: u8 where
  [go_consts, simp]: "ProtocolVersionRFC4582 = 1"

definition ProtocolVersionRFC8855 :: u8 where
  [go_consts, simp]: "ProtocolVersionRFC8855 = 2"

definition ProtocolVersion :: u8 where
  [go_consts, simp]: "ProtocolVersion = ProtocolVersionRFC4582"

definition CommonHeaderLength :: nat where
  [go_consts, simp]: "CommonHeaderLength = 12"

section \<open>Primitives\<close>

definition PrimitiveFloorRequest :: Primitive where
  [go_consts, simp]: "PrimitiveFloorRequest = 1"

definition PrimitiveFloorRelease :: Primitive where
  [go_consts, simp]: "PrimitiveFloorRelease = 2"

definition PrimitiveFloorRequestQuery :: Primitive where
  [go_consts, simp]: "PrimitiveFloorRequestQuery = 3"

definition PrimitiveFloorRequestStatus :: Primitive where
  [go_consts, simp]: "PrimitiveFloorRequestStatus = 4"

definition PrimitiveUserQuery :: Primitive where
  [go_consts, simp]: "PrimitiveUserQuery = 5"

definition PrimitiveUserStatus :: Primitive where
  [go_consts, simp]: "PrimitiveUserStatus = 6"

definition PrimitiveFloorQuery :: Primitive where
  [go_consts, simp]: "PrimitiveFloorQuery = 7"

definition PrimitiveFloorStatus :: Primitive where
  [go_consts, simp]: "PrimitiveFloorStatus = 8"

definition PrimitiveChairAction :: Primitive where
  [go_consts, simp]: "PrimitiveChairAction = 9"

definition PrimitiveChairActionAck :: Primitive where
  [go_consts, simp]: "PrimitiveChairActionAck = 10"

definition PrimitiveHello :: Primitive where
  [go_consts, simp]: "PrimitiveHello = 11"

definition PrimitiveHelloAck :: Primitive where
  [go_consts, simp]: "PrimitiveHelloAck = 12"

definition PrimitiveError :: Primitive where
  [go_consts, simp]: "PrimitiveError = 13"

definition PrimitiveFloorRequestStatusAck :: Primitive where
  [go_consts, simp]: "PrimitiveFloorRequestStatusAck = 14"

definition PrimitiveFloorStatusAck :: Primitive where
  [go_consts, simp]: "PrimitiveFloorStatusAck = 15"

definition PrimitiveGoodbye :: Primitive where
  [go_consts, simp]: "PrimitiveGoodbye = 16"

definition PrimitiveGoodbyeAck :: Primitive where
  [go_consts, simp]: "PrimitiveGoodbyeAck = 17"

definition PrimitiveTandbergFloorRequestStatusAck :: Primitive where
  [go_consts, simp]: "PrimitiveTandbergFloorRequestStatusAck = 91"

definition PrimitiveTandbergFloorStatusAck :: Primitive where
  [go_consts, simp]: "PrimitiveTandbergFloorStatusAck = 93"

definition Primitive_String :: "Primitive \<Rightarrow> string" where
  "Primitive_String p =
     (if p = PrimitiveFloorRequest then ''FloorRequest''
      else if p = PrimitiveFloorRelease then ''FloorRelease''
      else if p = PrimitiveFloorRequestQuery then ''FloorRequestQuery''
      else if p = PrimitiveFloorRequestStatus then ''FloorRequestStatus''
      else if p = PrimitiveUserQuery then ''UserQuery''
      else if p = PrimitiveUserStatus then ''UserStatus''
      else if p = PrimitiveFloorQuery then ''FloorQuery''
      else if p = PrimitiveFloorStatus then ''FloorStatus''
      else if p = PrimitiveChairAction then ''ChairAction''
      else if p = PrimitiveChairActionAck then ''ChairActionAck''
      else if p = PrimitiveHello then ''Hello''
      else if p = PrimitiveHelloAck then ''HelloAck''
      else if p = PrimitiveError then ''Error''
      else if p = PrimitiveFloorRequestStatusAck then ''FloorRequestStatusAck''
      else if p = PrimitiveFloorStatusAck then ''FloorStatusAck''
      else if p = PrimitiveGoodbye then ''Goodbye''
      else if p = PrimitiveGoodbyeAck then ''GoodbyeAck''
      else if p = PrimitiveTandbergFloorRequestStatusAck then ''TandbergFloorRequestStatusAck''
      else if p = PrimitiveTandbergFloorStatusAck then ''TandbergFloorStatusAck''
      else ''Unknown('' @ fmt_d (unat p) @ '')'')"

section \<open>Attribute types\<close>

definition AttrBeneficiaryID :: AttributeType where
  [go_consts, simp]: "AttrBeneficiaryID = 1"

definition AttrFloorID :: AttributeType where
  [go_consts, simp]: "AttrFloorID = 2"

definition AttrFloorRequestID :: AttributeType where
  [go_consts, simp]: "AttrFloorRequestID = 3"

definition AttrPriority :: AttributeType where
  [go_consts, simp]: "AttrPriority = 4"

definition AttrRequestStatus :: AttributeType where
  [go_consts, simp]: "AttrRequestStatus = 5"

definition AttrErrorCode :: AttributeType where
  [go_consts, simp]: "AttrErrorCode = 6"

definition AttrErrorInfo :: AttributeType where
  [go_consts, simp]: "AttrErrorInfo = 7"

definition AttrParticipantProvidedInfo :: AttributeType where
  [go_consts, simp]: "AttrParticipantProvidedInfo = 8"

definition AttrStatusInfo :: AttributeType where
  [go_consts, simp]: "AttrStatusInfo = 9"

definition AttrSupportedAttributes :: AttributeType where
  [go_consts, simp]: "AttrSupportedAttributes = 10"

definition AttrSupportedPrimitives :: AttributeType where
  [go_consts, simp]: "AttrSupportedPrimitives = 11"

definition AttrUserDisplayName :: AttributeType where
  [go_consts, simp]: "AttrUserDisplayName = 12"

definition AttrUserURI :: AttributeType where
  [go_consts, simp]: "AttrUserURI = 13"

definition AttrBeneficiaryInfo :: AttributeType where
  [go_consts, simp]: "AttrBeneficiaryInfo = 14"

definition AttrFloorRequestInfo :: AttributeType where
  [go_consts, simp]: "AttrFloorRequestInfo = 15"

definition AttrRequestedByInfo :: AttributeType where
  [go_consts, simp]: "AttrRequestedByInfo = 16"

definition AttrFloorRequestStatus :: AttributeType where
  [go_consts, simp]: "AttrFloorRequestStatus = 17"

definition AttrOverallRequestStatus :: AttributeType where
  [go_consts, simp]: "AttrOverallRequestStatus = 18"

definition AttributeType_String :: "AttributeType \<Rightarrow> string" where
  "AttributeType_String a =
     (if a = AttrBeneficiaryID then ''BeneficiaryID''
      else if a = AttrFloorID then ''FloorID''
      else if a = AttrFloorRequestID then ''FloorRequestID''
      else if a = AttrPriority then ''Priority''
      else if a = AttrRequestStatus then ''RequestStatus''
      else if a = AttrErrorCode then ''ErrorCode''
      else if a = AttrErrorInfo then ''ErrorInfo''
      else if a = AttrParticipantProvidedInfo then ''ParticipantProvidedInfo''
      else if a = AttrStatusInfo then ''StatusInfo''
      else if a = AttrSupportedAttributes then ''SupportedAttributes''
      else if a = AttrSupportedPrimitives then ''SupportedPrimitives''
      else if a = AttrUserDisplayName then ''UserDisplayName''
      else if a = AttrUserURI then ''UserURI''
      else if a = AttrBeneficiaryInfo then ''BeneficiaryInfo''
      else if a = AttrFloorRequestInfo then ''FloorRequestInfo''
      else if a = AttrRequestedByInfo then ''RequestedByInfo''
      else if a = AttrFloorRequestStatus then ''FloorRequestStatus''
      else if a = AttrOverallRequestStatus then ''OverallRequestStatus''
      else ''Unknown('' @ fmt_d (unat a) @ '')'')"

section \<open>Request statuses\<close>

definition RequestStatusPending :: RequestStatus where
  [go_consts, simp]: "RequestStatusPending = 1"

definition RequestStatusAccepted :: RequestStatus where
  [go_consts, simp]: "RequestStatusAccepted = 2"

definition RequestStatusGranted :: RequestStatus where
  [go_consts, simp]: "RequestStatusGranted = 3"

definition RequestStatusDenied :: RequestStatus where
  [go_consts, simp]: "RequestStatusDenied = 4"

definition RequestStatusCancelled :: RequestStatus where
  [go_consts, simp]: "RequestStatusCancelled = 5"

definition RequestStatusReleased :: RequestStatus where
  [go_consts, simp]: "RequestStatusReleased = 6"

definition RequestStatusRevoked :: RequestStatus where
  [go_consts, simp]: "RequestStatusRevoked = 7"

definition RequestStatus_String :: "RequestStatus \<Rightarrow> string" where
  "RequestStatus_String r =
     (if r = RequestStatusPending then ''Pending''
      else if r = RequestStatusAccepted then ''Accepted''
      else if r = RequestStatusGranted then ''Granted''
      else if r = RequestStatusDenied then ''Denied''
      else if r = RequestStatusCancelled then ''Cancelled''
      else if r = RequestStatusReleased then ''Released''
      else if r = RequestStatusRevoked then ''Revoked''
      else ''Unknown('' @ fmt_d (unat r) @ '')'')"

section \<open>Error codes\<close>

definition ErrorConferenceDoesNotExist :: ErrorCode where
  [go_consts, simp]: "ErrorConferenceDoesNotExist = 1"

definition ErrorUserDoesNotExist :: ErrorCode where
  [go_consts, simp]: "ErrorUserDoesNotExist = 2"

definition ErrorUnknownPrimitive :: ErrorCode where
  [go_consts, simp]: "ErrorUnknownPrimitive = 3"

definition ErrorUnknownMandatoryAttribute :: ErrorCode where
  [go_consts, simp]: "ErrorUnknownMandatoryAttribute = 4"

definition ErrorUnauthorizedOperation :: ErrorCode where
  [go_consts, simp]: "ErrorUnauthorizedOperation = 5"

definition ErrorInvalidFloorID :: ErrorCode where
  [go_consts, simp]: "ErrorInvalidFloorID = 6"

definition ErrorFloorRequestIDDoesNotExist :: ErrorCode where
  [go_consts, simp]: "ErrorFloorRequestIDDoesNotExist = 7"

definition ErrorMaximumFloorsReached :: ErrorCode where
  [go_consts, simp]: "ErrorMaximumFloorsReached = 8"

definition ErrorUseBFCP :: ErrorCode where
  [go_consts, simp]: "ErrorUseBFCP = 9"

definition ErrorFloorReleaseDenied :: ErrorCode where
  [go_consts, simp]: "ErrorFloorReleaseDenied = 10"

definition ErrorInsufficientUserPrivileges :: ErrorCode where
  [go_consts, simp]: "ErrorInsufficientUserPrivileges = 11"

definition ErrorCode_String :: "ErrorCode \<Rightarrow> string" where
  "ErrorCode_String e =
     (if e = ErrorConferenceDoesNotExist then ''ConferenceDoesNotExist''
      else if e = ErrorUserDoesNotExist then ''UserDoesNotExist''
      else if e = ErrorUnknownPrimitive then ''UnknownPrimitive''
      else if e = ErrorUnknownMandatoryAttribute then ''UnknownMandatoryAttribute''
      else if e = ErrorUnauthorizedOperation then ''UnauthorizedOperation''
      else if e = ErrorInvalidFloorID then ''InvalidFloorID''
      else if e = ErrorFloorRequestIDDoesNotExist then ''FloorRequestIDDoesNotExist''
      else if e = ErrorMaximumFloorsReached then ''MaximumFloorsReached''
      else if e = ErrorUseBFCP then ''UseBFCP''
      else if e = ErrorFloorReleaseDenied then ''FloorReleaseDenied''
      else if e = ErrorInsufficientUserPrivileges then ''InsufficientUserPrivileges''
      else ''Unknown('' @ fmt_d (unat e) @ '')'')"

section \<open>Priorities\<close>

definition PriorityLowest :: Priority where
  [go_consts, simp]: "PriorityLowest = 0"

definition PriorityLow :: Priority where
  [go_consts, simp]: "PriorityLow = 256"

definition PriorityNormal :: Priority where
  [go_consts, simp]: "PriorityNormal = 512"

definition PriorityHigh :: Priority where
  [go_consts, simp]: "PriorityHigh = 768"

definition PriorityHighest :: Priority where
  [go_consts, simp]: "PriorityHighest = 1023"

section \<open>Session states\<close>

definition StateDisconnected :: SessionState where
  [go_consts, simp]: "StateDisconnected = 0"

definition StateConnected :: SessionState where
  [go_consts, simp]: "StateConnected = 1"

definition StateWaitHelloAck :: SessionState where
  [go_consts, simp]: "StateWaitHelloAck = 2"

definition StateWaitFloorRequest :: SessionState where
  [go_consts, simp]: "StateWaitFloorRequest = 3"

definition StateFloorRequested :: SessionState where
  [go_consts, simp]: "StateFloorRequested = 4"

definition StateFloorGranted :: SessionState where
  [go_consts, simp]: "StateFloorGranted = 5"

definition StateFloorDenied :: SessionState where
  [go_consts, simp]: "StateFloorDenied = 6"

definition StateFloorReleased :: SessionState where
  [go_consts, simp]: "StateFloorReleased = 7"

definition SessionState_String :: "SessionState \<Rightarrow> string" where
  "SessionState_String s =
     (if s = StateDisconnected then ''Disconnected''
      else if s = StateConnected then ''Connected''
      else if s = StateWaitHelloAck then ''WaitHelloAck''
      else if s = StateWaitFloorRequest then ''WaitFloorRequest''
      else if s = StateFloorRequested then ''FloorRequested''
      else if s = StateFloorGranted then ''FloorGranted''
      else if s = StateFloorDenied then ''FloorDenied''
      else if s = StateFloorReleased then ''FloorReleased''
      else ''Unknown('' @ fmt_d (unat s) @ '')'')"

end
