(* ===== verification/Message.thy ===== *)
theory Message
  imports Types
begin

text \<open>
  The wire format of \<^verbatim>\<open>message.go\<close>: the message and its attributes, the attribute builders,
  \<^verbatim>\<open>Encode\<close> as the buffer program it is, and \<^verbatim>\<open>Decode\<close> with every index and slice checked.
\<close>

section \<open>Messages and attributes\<close>

record attribute =
  Type :: AttributeType
  Length :: u8
  Value :: "byte list"
  RawTLV :: bool

record message =
  Version :: u8
  Reserved :: u8
  Primitive :: Primitive
  PayloadLength :: u16
  ConferenceID :: u32
  TransactionID :: u16
  UserID :: u16
  Attributes :: "attribute list"

definition NewMessage :: "Primitive \<Rightarrow> u32 \<Rightarrow> u16 \<Rightarrow> u16 \<Rightarrow> message" where
  "NewMessage primitive conferenceID transactionID userID =
     \<lparr>Version = ProtocolVersion, Reserved = 0, Primitive = primitive, PayloadLength = 0,
      ConferenceID = conferenceID, TransactionID = transactionID, UserID = userID,
      Attributes = []\<rparr>"

text \<open>\<^verbatim>\<open>uint8(len(value))\<close> keeps the low eight bits of the length.\<close>

definition AddAttribute :: "AttributeType \<Rightarrow> byte list \<Rightarrow> message \<Rightarrow> message" where
  "AddAttribute attrType value m =
     m\<lparr>Attributes := Attributes m @
        [\<lparr>Type = attrType, Length = of_nat (length value), Value = value, RawTLV = False\<rparr>]\<rparr>"

definition AddFloorID :: "u16 \<Rightarrow> message \<Rightarrow> message" where
  "AddFloorID floorID = AddAttribute AttrFloorID (PutUint16 floorID)"

definition AddFloorRequestID :: "u16 \<Rightarrow> message \<Rightarrow> message" where
  "AddFloorRequestID requestID = AddAttribute AttrFloorRequestID (PutUint16 requestID)"

definition AddBeneficiaryID :: "u16 \<Rightarrow> message \<Rightarrow> message" where
  "AddBeneficiaryID beneficiaryID = AddAttribute AttrBeneficiaryID (PutUint16 beneficiaryID)"

definition AddRequestStatus :: "RequestStatus \<Rightarrow> u8 \<Rightarrow> message \<Rightarrow> message" where
  "AddRequestStatus status queuePosition = AddAttribute AttrRequestStatus [status, queuePosition]"

definition AddErrorCode :: "ErrorCode \<Rightarrow> message \<Rightarrow> message" where
  "AddErrorCode errorCode = AddAttribute AttrErrorCode [errorCode]"

text \<open>\<^verbatim>\<open>[]byte(info)\<close>: a Go string is its bytes.\<close>

definition bytes_of :: "string \<Rightarrow> byte list" where
  "bytes_of = map of_char"

definition string_of :: "byte list \<Rightarrow> string" where
  "string_of = map (\<lambda>b. char_of (unat b))"

definition AddErrorInfo :: "string \<Rightarrow> message \<Rightarrow> message" where
  "AddErrorInfo info = AddAttribute AttrErrorInfo (bytes_of info)"

definition AddSupportedPrimitives :: "Primitive list \<Rightarrow> message \<Rightarrow> message" where
  "AddSupportedPrimitives primitives = AddAttribute AttrSupportedPrimitives primitives"

definition AddSupportedAttributes :: "AttributeType list \<Rightarrow> message \<Rightarrow> message" where
  "AddSupportedAttributes attributes = AddAttribute AttrSupportedAttributes attributes"

definition AddPriority :: "Priority \<Rightarrow> message \<Rightarrow> message" where
  "AddPriority priority = AddAttribute AttrPriority (PutUint16 priority)"

section \<open>Pre-encoded attributes\<close>

definition tlv_header :: "u8 \<Rightarrow> bool \<Rightarrow> byte" where
  "tlv_header attrType mandatory =
     (let header = push_bit 1 attrType in if mandatory then header OR 1 else header)"

definition pad4 :: "nat \<Rightarrow> nat" where
  "pad4 l = (4 - l mod 4) mod 4"

definition buildSimpleAttr :: "u8 \<Rightarrow> bool \<Rightarrow> byte list \<Rightarrow> byte list" where
  "buildSimpleAttr attrType mandatory value =
     (let l = 2 + length value; pad = pad4 l
      in [tlv_header attrType mandatory, of_nat l] @ value @ replicate pad 0)"

definition buildGroupedAttr :: "u8 \<Rightarrow> bool \<Rightarrow> byte list list \<Rightarrow> byte list" where
  "buildGroupedAttr attrType mandatory children =
     (let size = 2 + sum_list (map length children); pad = pad4 size
      in [tlv_header attrType mandatory, of_nat size] @ concat children @ replicate pad 0)"

definition buildGroupedAttrWithHeaderID ::
    "u8 \<Rightarrow> bool \<Rightarrow> u16 \<Rightarrow> byte list list \<Rightarrow> byte list" where
  "buildGroupedAttrWithHeaderID attrType mandatory headerID children =
     (let size = 4 + sum_list (map length children); pad = pad4 size
      in [tlv_header attrType mandatory, of_nat size,
          ucast (drop_bit 8 headerID), ucast (headerID AND 0xFF)]
         @ concat children @ replicate pad 0)"

text \<open>
  The FLOOR-REQUEST-INFORMATION attribute that both \<^verbatim>\<open>BuildFloorStatusMessage\<close> and
  \<^verbatim>\<open>AddFloorRequestInformationRFC4582\<close> build from the inside out.
\<close>

definition floorReqInfoAttr :: "u16 \<Rightarrow> RequestStatus \<Rightarrow> u16 \<Rightarrow> byte list" where
  "floorReqInfoAttr requestID status floorID =
     (let requestStatusAttr = buildSimpleAttr AttrRequestStatus False [status, 0];
          overallReqStatusAttr =
            buildGroupedAttrWithHeaderID AttrOverallRequestStatus False requestID [requestStatusAttr];
          floorReqStatusAttr =
            buildGroupedAttrWithHeaderID AttrFloorRequestStatus False floorID [requestStatusAttr]
      in buildGroupedAttrWithHeaderID AttrFloorRequestInfo True requestID
           [overallReqStatusAttr, floorReqStatusAttr])"

definition BuildFloorStatusMessage ::
    "u8 \<Rightarrow> u32 \<Rightarrow> u16 \<Rightarrow> u16 \<Rightarrow> u16 \<Rightarrow> u16 \<Rightarrow> RequestStatus \<Rightarrow> byte list" where
  "BuildFloorStatusMessage version confID txID userID floorID requestID status =
     (let floorIDAttr = buildSimpleAttr AttrFloorID True (PutUint16 floorID);
          payload = floorIDAttr @ floorReqInfoAttr requestID status floorID;
          lengthWords = (of_nat (length payload div 4) :: u16)
      in [push_bit 5 version, PrimitiveFloorStatus] @ PutUint16 lengthWords
         @ PutUint32 confID @ PutUint16 txID @ PutUint16 userID @ payload)"

definition AddFloorRequestInformationRFC4582 ::
    "u16 \<Rightarrow> RequestStatus \<Rightarrow> u16 \<Rightarrow> message \<Rightarrow> message" where
  "AddFloorRequestInformationRFC4582 requestID status floorID m =
     (let raw = floorReqInfoAttr requestID status floorID
      in m\<lparr>Attributes := Attributes m @
             [\<lparr>Type = AttrFloorRequestInfo, Length = of_nat (length raw), Value = raw,
               RawTLV = True\<rparr>]\<rparr>)"

definition AddFloorRequestInformation ::
    "u16 \<Rightarrow> RequestStatus \<Rightarrow> u8 \<Rightarrow> u16 list \<Rightarrow> message \<Rightarrow> message" where
  "AddFloorRequestInformation requestID status queuePos floorIDs m =
     (case floorIDs of [] \<Rightarrow> m
      | floorID # _ \<Rightarrow> AddFloorRequestInformationRFC4582 requestID status floorID m)"

definition groupedSubAttr :: "attribute \<Rightarrow> byte list" where
  "groupedSubAttr attr =
     (let attrBytes = [push_bit 1 (Type attr) OR 1, Length attr] @ Value attr;
          padding = length attrBytes mod 4
      in if padding \<noteq> 0 then attrBytes @ replicate (4 - padding) 0 else attrBytes)"

definition AddGroupedAttribute :: "AttributeType \<Rightarrow> attribute list \<Rightarrow> message \<Rightarrow> message" where
  "AddGroupedAttribute attrType subAttributes =
     AddAttribute attrType (concat (map groupedSubAttr subAttributes))"

section \<open>Encode\<close>

datatype encode_error = NotAligned

definition attrSize :: "attribute \<Rightarrow> nat" where
  "attrSize attr =
     (if RawTLV attr then length (Value attr)
      else let attrLen = 2 + unat (Length attr); padding = attrLen mod 4
           in if padding \<noteq> 0 then attrLen + (4 - padding) else attrLen)"

fun encodeAttrs :: "byte list \<Rightarrow> nat \<Rightarrow> attribute list \<Rightarrow> (encode_error, byte list) res" where
  "encodeAttrs buf offset [] = Ok buf"
| "encodeAttrs buf offset (attr # attrs) =
     (if RawTLV attr then
        bind_res (copy_at buf offset (Value attr)) (\<lambda>buf.
        encodeAttrs buf (offset + length (Value attr)) attrs)
      else
        bind_res (store buf offset (push_bit 1 (Type attr) OR 1)) (\<lambda>buf.
        bind_res (store buf (offset + 1) (Length attr + 2)) (\<lambda>buf.
        bind_res (copy_at buf (offset + 2) (Value attr)) (\<lambda>buf.
        let offset = offset + 2 + unat (Length attr);
            padding = (2 + unat (Length attr)) mod 4;
            offset = (if padding \<noteq> 0 then offset + (4 - padding) else offset)
        in encodeAttrs buf offset attrs))))"

text \<open>\<^verbatim>\<open>Encode\<close> also stores the computed \<^verbatim>\<open>PayloadLength\<close> in the message it was called on.\<close>

definition Encode :: "message \<Rightarrow> (encode_error, message \<times> byte list) res" where
  "Encode m =
     (let attrLength = sum_list (map attrSize (Attributes m)) in
      if attrLength mod 4 \<noteq> 0 then Fail NotAligned
      else
        let m = m\<lparr>PayloadLength := of_nat (attrLength div 4)\<rparr>;
            buf = replicate (CommonHeaderLength + attrLength) 0 in
        bind_res (store buf 0 (push_bit 5 (Version m) OR (Reserved m AND 0x1F))) (\<lambda>buf.
        bind_res (store buf 1 (Primitive m)) (\<lambda>buf.
        bind_res (copy_at buf 2 (PutUint16 (PayloadLength m))) (\<lambda>buf.
        bind_res (copy_at buf 4 (PutUint32 (ConferenceID m))) (\<lambda>buf.
        bind_res (copy_at buf 8 (PutUint16 (TransactionID m))) (\<lambda>buf.
        bind_res (copy_at buf 10 (PutUint16 (UserID m))) (\<lambda>buf.
        bind_res (encodeAttrs buf CommonHeaderLength (Attributes m)) (\<lambda>buf.
        Ok (m, buf)))))))))"

section \<open>Decode\<close>

datatype decode_error =
    MessageTooShort nat
  | UnsupportedVersion u8
  | PayloadTooShort nat nat
  | IncompleteAttributeHeader nat
  | InvalidAttributeLength u8
  | ValueExceedsBounds nat nat nat

function decodeAttrs ::
    "byte list \<Rightarrow> nat \<Rightarrow> nat \<Rightarrow> attribute list \<Rightarrow> (decode_error, attribute list) res" where
  "decodeAttrs data offset endOffset attrs =
     (if offset < endOffset then
        if offset + 2 > endOffset then Fail (IncompleteAttributeHeader offset)
        else
          bind_res (index data offset) (\<lambda>typeByte.
          bind_res (index data (offset + 1)) (\<lambda>attrLength.
          if attrLength < 2 then Fail (InvalidAttributeLength attrLength)
          else
            let valueLength = unat attrLength - 2; off = offset + 2 in
            if off + valueLength > endOffset
            then Fail (ValueExceedsBounds off valueLength (endOffset - off))
            else
              bind_res (slice data off (off + valueLength)) (\<lambda>value.
              let attr = \<lparr>Type = drop_bit 1 typeByte, Length = of_nat valueLength,
                          Value = value, RawTLV = False\<rparr>;
                  off = off + valueLength;
                  padding = unat attrLength mod 4;
                  off = (if padding \<noteq> 0 then off + (4 - padding) else off)
              in decodeAttrs data off endOffset (attrs @ [attr]))))
      else Ok attrs)"
  by pat_completeness auto
termination
  by (relation "measure (\<lambda>(data, offset, endOffset, attrs). endOffset - offset)")
     (auto simp: Let_def)

declare decodeAttrs.simps [simp del]

definition Decode :: "byte list \<Rightarrow> (decode_error, message) res" where
  "Decode data =
     (if length data < CommonHeaderLength then Fail (MessageTooShort (length data))
      else
        bind_res (index data 0) (\<lambda>b0.
        let version = drop_bit 5 b0 AND 0x07; reserved = b0 AND 0x1F in
        if version \<noteq> ProtocolVersionRFC4582 \<and> version \<noteq> ProtocolVersionRFC8855
        then Fail (UnsupportedVersion version)
        else
          bind_res (index data 1) (\<lambda>primitive.
          bind_res (bind_res (slice data 2 4) Uint16) (\<lambda>payloadLength.
          bind_res (bind_res (slice data 4 8) Uint32) (\<lambda>conferenceID.
          bind_res (bind_res (slice data 8 10) Uint16) (\<lambda>transactionID.
          bind_res (bind_res (slice data 10 12) Uint16) (\<lambda>userID.
          let expectedPayloadSize = unat payloadLength * 4 in
          if length data < CommonHeaderLength + expectedPayloadSize
          then Fail (PayloadTooShort (length data - CommonHeaderLength) expectedPayloadSize)
          else
            bind_res (decodeAttrs data CommonHeaderLength
                        (CommonHeaderLength + expectedPayloadSize) []) (\<lambda>attrs.
            Ok \<lparr>Version = version, Reserved = reserved, Primitive = primitive,
                PayloadLength = payloadLength, ConferenceID = conferenceID,
                TransactionID = transactionID, UserID = userID, Attributes = attrs\<rparr>))))))))"

end
