(* ===== verification/Codec.thy ===== *)
theory Codec
  imports Message
begin

text \<open>
  Correctness of the wire format: \<^verbatim>\<open>Encode\<close> writes the header followed by the concatenated
  attributes, neither direction can panic, decoding an encoded message gives the message
  back, and what \<^verbatim>\<open>Decode\<close> accepts re-encodes to a message it decodes to the same value.
\<close>

section \<open>Padding\<close>

lemma mod4_cases:
  fixes n :: nat
  obtains "n mod 4 = 0" | "n mod 4 = 1" | "n mod 4 = 2" | "n mod 4 = 3"
proof -
  have "n mod 4 < 4" by simp
  then show ?thesis using that by linarith
qed

lemma pad4_off:
  "(if n mod 4 \<noteq> 0 then off + (4 - n mod 4) else off) = off + pad4 n"
  by (rule mod4_cases [of n]) (simp_all add: pad4_def)

lemma pad4_aligned: "(n + pad4 n) mod 4 = 0"
  by (rule mod4_cases [of n]) (simp_all add: pad4_def, presburger+)

lemma mod4_add: "a mod 4 = 0 \<Longrightarrow> b mod 4 = 0 \<Longrightarrow> (a + b) mod 4 = (0 :: nat)"
  by presburger

lemma mod4_le:
  "a mod 4 = 0 \<Longrightarrow> e mod 4 = 0 \<Longrightarrow> a = x + p \<Longrightarrow> p \<le> 3 \<Longrightarrow> x \<le> e \<Longrightarrow> a \<le> (e :: nat)"
  by presburger

lemma pad4_le3: "pad4 n \<le> 3"
  by (rule mod4_cases [of n]) (simp_all add: pad4_def)

section \<open>The wire form of an attribute\<close>

definition consistent :: "attribute \<Rightarrow> bool" where
  "consistent a \<longleftrightarrow> RawTLV a \<or> length (Value a) = unat (Length a)"

definition wireAttr :: "attribute \<Rightarrow> byte list" where
  "wireAttr a =
     (if RawTLV a then Value a
      else [push_bit 1 (Type a) OR 1, Length a + 2] @ Value a
           @ replicate (pad4 (2 + unat (Length a))) 0)"

definition wireHeader :: "message \<Rightarrow> byte list" where
  "wireHeader m =
     [push_bit 5 (Version m) OR (Reserved m AND 0x1F), Primitive m]
     @ PutUint16 (PayloadLength m) @ PutUint32 (ConferenceID m)
     @ PutUint16 (TransactionID m) @ PutUint16 (UserID m)"

definition payloadSize :: "message \<Rightarrow> nat" where
  "payloadSize m = sum_list (map attrSize (Attributes m))"

definition withPayloadLength :: "message \<Rightarrow> message" where
  "withPayloadLength m = m\<lparr>PayloadLength := of_nat (payloadSize m div 4)\<rparr>"

lemma attrSize_raw: "RawTLV a \<Longrightarrow> attrSize a = length (Value a)"
  by (simp add: attrSize_def)

lemma attrSize_plain:
  "\<not> RawTLV a \<Longrightarrow> attrSize a = 2 + unat (Length a) + pad4 (2 + unat (Length a))"
  using pad4_off [of "2 + unat (Length a)" "2 + unat (Length a)"]
  by (simp only: attrSize_def Let_def if_False)

lemma wireAttr_raw: "RawTLV a \<Longrightarrow> wireAttr a = Value a"
  by (simp add: wireAttr_def)

lemma wireAttr_plain:
  "\<not> RawTLV a \<Longrightarrow> wireAttr a = [push_bit 1 (Type a) OR 1, Length a + 2] @ Value a
     @ replicate (pad4 (2 + unat (Length a))) 0"
  by (simp add: wireAttr_def)

lemmas attr_simps = attrSize_raw attrSize_plain wireAttr_raw wireAttr_plain

lemma length_wireAttr: "consistent a \<Longrightarrow> length (wireAttr a) = attrSize a"
  by (cases "RawTLV a") (simp_all add: attr_simps consistent_def)

lemma length_wireHeader [simp]: "length (wireHeader m) = 12"
  by (simp add: wireHeader_def)

section \<open>Encode\<close>

lemma encodeAttrs_plain:
  assumes "\<not> RawTLV a"
  shows "encodeAttrs buf offset (a # attrs) =
    bind_res (store buf offset (push_bit 1 (Type a) OR 1)) (\<lambda>buf.
    bind_res (store buf (offset + 1) (Length a + 2)) (\<lambda>buf.
    bind_res (copy_at buf (offset + 2) (Value a)) (\<lambda>buf.
    encodeAttrs buf (offset + 2 + unat (Length a) + pad4 (2 + unat (Length a))) attrs)))"
  using assms by (simp only: encodeAttrs.simps Let_def if_False pad4_off)

lemma encodeAttrs_raw:
  "RawTLV a \<Longrightarrow> encodeAttrs buf offset (a # attrs) =
    bind_res (copy_at buf offset (Value a)) (\<lambda>buf.
    encodeAttrs buf (offset + length (Value a)) attrs)"
  by simp

declare encodeAttrs.simps(2) [simp del]

text \<open>No write of the attribute loop is out of bounds, whatever the attributes hold.\<close>

lemma encodeAttrs_total:
  "offset + sum_list (map attrSize attrs) \<le> length buf \<Longrightarrow>
   \<exists>buf'. encodeAttrs buf offset attrs = Ok buf' \<and> length buf' = length buf"
proof (induction attrs arbitrary: buf offset)
  case Nil
  then show ?case by simp
next
  case (Cons a attrs)
  show ?case
  proof (cases "RawTLV a")
    case True
    with Cons.prems obtain b where "copy_at buf offset (Value a) = (Ok b :: (encode_error, byte list) res)"
      "length b = length buf"
      using copy_at_Ok_ex [of offset buf "Value a"] by (auto simp: attr_simps)
    with True Cons.prems Cons.IH [of "offset + length (Value a)" b] show ?thesis
      by (simp add: encodeAttrs_raw attr_simps)
  next
    case False
    let ?b = "buf[offset := push_bit 1 (Type a) OR 1, offset + 1 := Length a + 2]"
    from False Cons.prems obtain b where b: "copy_at ?b (offset + 2) (Value a) = (Ok b :: (encode_error, byte list) res)"
      "length b = length buf"
      using copy_at_Ok_ex [of "offset + 2" ?b "Value a"] by (auto simp: attr_simps)
    let ?off = "offset + 2 + unat (Length a) + pad4 (2 + unat (Length a))"
    have "encodeAttrs buf offset (a # attrs) = encodeAttrs b ?off attrs"
      using Cons.prems b by (simp add: encodeAttrs_plain [OF False] attr_simps False)
    with Cons.IH [of ?off b] Cons.prems False b show ?thesis by (simp add: attr_simps)
  qed
qed

lemma encodeAttrs_wire:
  "list_all consistent attrs \<Longrightarrow>
   encodeAttrs (pre @ replicate (sum_list (map attrSize attrs)) 0) (length pre) attrs
     = Ok (pre @ concat (map wireAttr attrs))"
proof (induction attrs arbitrary: pre)
  case Nil
  then show ?case by simp
next
  case (Cons a attrs)
  let ?n = "sum_list (map attrSize attrs)"
  have IH: "encodeAttrs (pre' @ replicate ?n 0) (length pre') attrs
              = Ok (pre' @ concat (map wireAttr attrs))" for pre'
    using Cons by simp
  show ?case
  proof (cases "RawTLV a")
    case True
    then show ?thesis
      using IH [of "pre @ Value a"]
      by (simp add: encodeAttrs_raw attr_simps replicate_add copy_at_append)
  next
    case False
    define l where "l = unat (Length a)"
    with False Cons.prems have l: "length (Value a) = l" by (simp add: consistent_def)
    let ?h = "[push_bit 1 (Type a) OR 1, Length a + 2]"
    let ?p = "replicate (pad4 (2 + l)) (0::byte)"
    let ?tail = "replicate l (0::byte) @ ?p @ replicate ?n 0"
    have buf: "replicate (sum_list (map attrSize (a # attrs))) (0::byte) = 0 # 0 # ?tail"
      using False by (simp add: attr_simps l_def replicate_add)
    have s1: "store (pre @ 0 # 0 # ?tail) (length pre) (push_bit 1 (Type a) OR 1)
                = (Ok (pre @ (push_bit 1 (Type a) OR 1) # 0 # ?tail) :: (encode_error, byte list) res)"
      by (rule store_append)
    have s2: "store (pre @ (push_bit 1 (Type a) OR 1) # 0 # ?tail) (length pre + 1) (Length a + 2)
                = (Ok (pre @ ?h @ ?tail) :: (encode_error, byte list) res)"
      using store_append [of "pre @ [push_bit 1 (Type a) OR 1]" 0 ?tail "Length a + 2"] by simp
    have s3: "copy_at (pre @ ?h @ ?tail) (length pre + 2) (Value a)
                = (Ok (pre @ ?h @ Value a @ ?p @ replicate ?n 0) :: (encode_error, byte list) res)"
      using copy_at_append [of "Value a" "replicate l 0" "pre @ ?h" "?p @ replicate ?n 0"] l
      by simp
    have "encodeAttrs (pre @ 0 # 0 # ?tail) (length pre) (a # attrs)
            = encodeAttrs ((pre @ ?h @ Value a @ ?p) @ replicate ?n 0)
                (length (pre @ ?h @ Value a @ ?p)) attrs"
    proof -
      have "length (pre @ ?h @ Value a @ ?p) = length pre + 2 + l + pad4 (2 + l)"
        using l by simp
      then show ?thesis
        by (simp only: encodeAttrs_plain [OF False] l_def [symmetric] s1 s2 s3
            bind_res.simps append_assoc list.sel)
    qed
    also have "\<dots> = Ok ((pre @ ?h @ Value a @ ?p) @ concat (map wireAttr attrs))"
      by (rule IH)
    finally show ?thesis
      using False by (simp only: buf) (simp add: attr_simps l_def)
  qed
qed

lemma Encode_header:
  assumes "payloadSize m mod 4 = 0"
  shows "Encode m =
    bind_res (encodeAttrs (wireHeader (withPayloadLength m) @ replicate (payloadSize m) 0)
               12 (Attributes m))
      (\<lambda>buf. Ok (withPayloadLength m, buf))"
proof -
  define m' where "m' = withPayloadLength m"
  let ?n = "payloadSize m"
  let ?h0 = "[push_bit 5 (Version m') OR (Reserved m' AND 0x1F)]"
  let ?h1 = "?h0 @ [Primitive m']"
  let ?h2 = "?h1 @ PutUint16 (PayloadLength m')"
  let ?h4 = "?h2 @ PutUint32 (ConferenceID m')"
  let ?h8 = "?h4 @ PutUint16 (TransactionID m')"
  have s1: "store (replicate (12 + ?n) 0) 0 (push_bit 5 (Version m') OR (Reserved m' AND 0x1F))
      = (Ok (?h0 @ replicate (11 + ?n) 0) :: (encode_error, byte list) res)"
    using store_zeros [of 0 "[]" "12 + ?n" "11 + ?n"] by simp
  have s2: "store (?h0 @ replicate (11 + ?n) 0) 1 (Primitive m')
      = (Ok (?h1 @ replicate (10 + ?n) 0) :: (encode_error, byte list) res)"
    by (rule store_zeros) simp_all
  have s3: "copy_at (?h1 @ replicate (10 + ?n) 0) 2 (PutUint16 (PayloadLength m'))
      = (Ok (?h2 @ replicate (8 + ?n) 0) :: (encode_error, byte list) res)"
    by (rule copy_at_zeros) simp_all
  have s4: "copy_at (?h2 @ replicate (8 + ?n) 0) 4 (PutUint32 (ConferenceID m'))
      = (Ok (?h4 @ replicate (4 + ?n) 0) :: (encode_error, byte list) res)"
    by (rule copy_at_zeros) simp_all
  have s5: "copy_at (?h4 @ replicate (4 + ?n) 0) 8 (PutUint16 (TransactionID m'))
      = (Ok (?h8 @ replicate (2 + ?n) 0) :: (encode_error, byte list) res)"
    by (rule copy_at_zeros) simp_all
  have s6: "copy_at (?h8 @ replicate (2 + ?n) 0) 10 (PutUint16 (UserID m'))
      = (Ok ((?h8 @ PutUint16 (UserID m')) @ replicate ?n 0) :: (encode_error, byte list) res)"
    by (rule copy_at_zeros) simp_all
  have h: "?h8 @ PutUint16 (UserID m') = wireHeader m'"
    by (simp add: wireHeader_def)
  have "Attributes m' = Attributes m" by (simp add: m'_def withPayloadLength_def)
  then show ?thesis
    using assms
    by (simp only: Encode_def Let_def payloadSize_def [symmetric] withPayloadLength_def [symmetric]
        m'_def [symmetric] CommonHeaderLength_def s1 s2 s3 s4 s5 s6 h bind_res.simps
        simp_thms if_False)
qed

lemma Encode_Ok_length:
  assumes "payloadSize m mod 4 = 0"
  shows "\<exists>bs. Encode m = Ok (withPayloadLength m, bs) \<and> length bs = 12 + payloadSize m"
proof -
  have "\<exists>buf'. encodeAttrs (wireHeader (withPayloadLength m) @ replicate (payloadSize m) 0) 12
      (Attributes m) = Ok buf' \<and> length buf' = 12 + payloadSize m"
    using encodeAttrs_total [of 12 "Attributes m"
        "wireHeader (withPayloadLength m) @ replicate (payloadSize m) 0"]
    by (simp add: payloadSize_def)
  then show ?thesis by (auto simp: Encode_header [OF assms])
qed

lemma Encode_NotAligned: "payloadSize m mod 4 \<noteq> 0 \<Longrightarrow> Encode m = Fail NotAligned"
  by (simp only: Encode_def Let_def payloadSize_def [symmetric] if_True simp_thms)

lemma Encode_wireForm:
  assumes "list_all consistent (Attributes m)" "payloadSize m mod 4 = 0"
  shows "Encode m = Ok (withPayloadLength m,
           wireHeader (withPayloadLength m) @ concat (map wireAttr (Attributes m)))"
  using assms encodeAttrs_wire [of "Attributes m" "wireHeader (withPayloadLength m)"]
  by (simp add: Encode_header payloadSize_def)

section \<open>Decode\<close>

definition attrAt :: "byte list \<Rightarrow> nat \<Rightarrow> attribute" where
  "attrAt data offset =
     (let n = unat (data ! (offset + 1)) - 2
      in \<lparr>Type = drop_bit 1 (data ! offset), Length = of_nat n,
          Value = take n (drop (offset + 2) data), RawTLV = False\<rparr>)"

lemma decodeAttrs_done: "endOffset \<le> offset \<Longrightarrow> decodeAttrs data offset endOffset attrs = Ok attrs"
  by (subst decodeAttrs.simps) simp

lemma decodeAttrs_step:
  assumes "offset + 2 \<le> endOffset" "endOffset \<le> length data"
  shows "decodeAttrs data offset endOffset attrs =
    (let l = data ! (offset + 1) in
     if l < 2 then Fail (InvalidAttributeLength l)
     else if offset + unat l > endOffset
     then Fail (ValueExceedsBounds (offset + 2) (unat l - 2) (endOffset - (offset + 2)))
     else decodeAttrs data (offset + unat l + pad4 (unat l)) endOffset
            (attrs @ [attrAt data offset]))"
proof (cases "data ! (offset + 1) < 2")
  case True
  with assms show ?thesis by (subst decodeAttrs.simps) simp
next
  case False
  then have "2 \<le> unat (data ! (offset + 1))"
    by (simp add: word_less_nat_alt)
  then obtain n where n: "unat (data ! (offset + 1)) = Suc (Suc n)"
    by (metis add_2_eq_Suc le_Suc_ex)
  with False assms show ?thesis
    by (subst decodeAttrs.simps)
       (rule mod4_cases [of "Suc (Suc n)"]; simp add: Let_def attrAt_def pad4_def)
qed

lemma decodeAttrs_no_panic:
  "endOffset \<le> length data \<Longrightarrow> decodeAttrs data offset endOffset attrs \<noteq> Panic"
proof (induction "endOffset - offset" arbitrary: offset attrs rule: less_induct)
  case less
  show ?case
  proof (cases "offset + 2 \<le> endOffset")
    case True
    let ?l = "data ! (offset + 1)"
    have "2 \<le> unat ?l" if "\<not> ?l < 2"
      using that by (simp add: word_less_nat_alt)
    with True less show ?thesis
      by (auto simp: decodeAttrs_step [OF True less.prems] Let_def)
  next
    case False
    then show ?thesis by (subst decodeAttrs.simps) auto
  qed
qed

lemma Decode_unfold:
  assumes "12 \<le> length data"
  shows "Decode data =
    (let version = drop_bit 5 (data ! 0) AND 7;
         payloadLength = be16 (take 2 (drop 2 data)); n = unat payloadLength * 4 in
     if version \<noteq> 1 \<and> version \<noteq> 2 then Fail (UnsupportedVersion version)
     else if length data < 12 + n then Fail (PayloadTooShort (length data - 12) n)
     else bind_res (decodeAttrs data 12 (12 + n) []) (\<lambda>attrs.
       Ok \<lparr>Version = version, Reserved = data ! 0 AND 0x1F, Primitive = data ! 1,
           PayloadLength = payloadLength, ConferenceID = be32 (take 4 (drop 4 data)),
           TransactionID = be16 (take 2 (drop 8 data)), UserID = be16 (take 2 (drop 10 data)),
           Attributes = attrs\<rparr>))"
proof -
  from assms have "0 < length data" "1 < length data" "4 \<le> length data" "8 \<le> length data"
    "10 \<le> length data"
    by linarith+
  with assms show ?thesis
    by (simp del: length_greater_0_conv add: Decode_def Let_def)
qed

lemma Decode_no_panic: "Decode data \<noteq> Panic"
proof (cases "12 \<le> length data")
  case True
  have "decodeAttrs data 12 (12 + unat pl * 4) [] \<noteq> Panic"
    if "\<not> length data < 12 + unat pl * 4" for pl :: u16
    by (rule decodeAttrs_no_panic) (use that in simp)
  then show ?thesis
    using decodeAttrs_no_panic by (auto simp: Decode_unfold [OF True] Let_def bind_res_Panic_iff)
next
  case False
  then show ?thesis by (simp add: Decode_def)
qed

section \<open>Round trip\<close>

text \<open>
  A pre-encoded attribute is well formed when its length octet covers type, length and
  value and what follows is the padding to four bytes; a plain one when its length is that
  of its value and both fit their wire fields.
\<close>

definition wfAttr :: "attribute \<Rightarrow> bool" where
  "wfAttr a =
     (if RawTLV a then
        (case Value a of
           t # l # v \<Rightarrow> 2 \<le> unat l \<and> length (Value a) = unat l + pad4 (unat l)
         | _ \<Rightarrow> False)
      else length (Value a) = unat (Length a) \<and> unat (Length a) \<le> 253 \<and> unat (Type a) < 128)"

definition decodedAttr :: "attribute \<Rightarrow> attribute" where
  "decodedAttr a =
     (if RawTLV a then
        (case Value a of
           t # l # v \<Rightarrow> \<lparr>Type = drop_bit 1 t, Length = l - 2, Value = take (unat l - 2) v,
                        RawTLV = False\<rparr>
         | _ \<Rightarrow> a)
      else a)"

definition wfMessage :: "message \<Rightarrow> bool" where
  "wfMessage m \<longleftrightarrow>
     (Version m = 1 \<or> Version m = 2) \<and> unat (Reserved m) < 32 \<and>
     list_all wfAttr (Attributes m) \<and> payloadSize m < 4 * 65536"

definition decodedMessage :: "message \<Rightarrow> message" where
  "decodedMessage m =
     (withPayloadLength m)\<lparr>Attributes := map decodedAttr (Attributes m)\<rparr>"

lemma wfAttr_consistent: "wfAttr a \<Longrightarrow> consistent a"
  by (auto simp: wfAttr_def consistent_def split: if_splits)

lemma word_type_bits:
  fixes t :: u8
  assumes "unat t < 128"
  shows "drop_bit 1 (push_bit 1 t OR 1) = t"
proof -
  have "take_bit 7 t = t"
    using assms by (intro word_unat_eq_iff [THEN iffD2])
      (simp add: unsigned_take_bit_eq take_bit_nat_eq_self)
  then have "bit t n \<Longrightarrow> n < 7" for n
    by (metis bit_take_bit_iff)
  then show ?thesis
    by (intro bit_word_eqI) (auto simp: bit_simps simp del: push_bit_Suc)
qed

lemma low_masks: "mask 5 = (31 :: u8)" "mask 3 = (7 :: u8)"
  by (simp_all add: mask_eq_exp_minus_1)

lemma version_bits:
  fixes v r :: u8
  shows "drop_bit 5 (push_bit 5 v OR (r AND 31)) AND 7 = v AND 7"
proof -
  have "drop_bit 5 (push_bit 5 v OR (r AND mask 5)) AND mask 3 = v AND mask 3"
    by (intro bit_word_eqI) (auto simp: bit_simps)
  then show ?thesis unfolding low_masks .
qed

lemma reserved_bits:
  fixes v r :: u8
  shows "(push_bit 5 v OR (r AND 31)) AND 31 = r AND 31"
proof -
  have "(push_bit 5 v OR (r AND mask 5)) AND mask 5 = r AND mask 5"
    by (intro bit_word_eqI) (auto simp: bit_simps)
  then show ?thesis unfolding low_masks .
qed

lemma reserved_small:
  fixes r :: u8
  assumes "unat r < 32"
  shows "r AND 31 = r"
proof -
  have "r AND mask 5 = r"
    unfolding take_bit_eq_mask [symmetric]
    using assms by (intro word_unat_eq_iff [THEN iffD2])
      (simp add: unsigned_take_bit_eq take_bit_nat_eq_self)
  then show ?thesis unfolding low_masks .
qed

lemma wfAttr_wire:
  assumes "wfAttr a"
  shows "\<exists>t l v pad. wireAttr a = t # l # v @ pad \<and> unat l = 2 + length v \<and>
    length pad = pad4 (unat l) \<and>
    decodedAttr a = \<lparr>Type = drop_bit 1 t, Length = of_nat (length v), Value = v, RawTLV = False\<rparr>"
proof (cases "RawTLV a")
  case True
  with assms obtain t l v where v: "Value a = t # l # v" "2 \<le> unat l"
    "length (Value a) = unat l + pad4 (unat l)"
    by (auto simp: wfAttr_def split: list.splits)
  let ?n = "unat l - 2"
  have n: "length (take ?n v) = ?n" using v by auto
  have "wireAttr a = t # l # take ?n v @ drop ?n v" using v True by (simp add: wireAttr_raw)
  moreover have "unat l = 2 + length (take ?n v)" using n v(2) by simp
  moreover have "length (drop ?n v) = pad4 (unat l)" using v by auto
  moreover have "decodedAttr a = \<lparr>Type = drop_bit 1 t, Length = of_nat (length (take ?n v)),
      Value = take ?n v, RawTLV = False\<rparr>"
    unfolding n using v True by (simp add: decodedAttr_def)
  ultimately show ?thesis by blast
next
  case False
  with assms have a: "length (Value a) = unat (Length a)" "unat (Length a) \<le> 253"
    "unat (Type a) < 128" by (auto simp: wfAttr_def)
  have l: "unat (Length a + 2) = 2 + unat (Length a)"
    using a(2) by (simp add: unat_word_ariths)
  let ?t = "push_bit 1 (Type a) OR 1" and ?p = "replicate (pad4 (unat (Length a + 2))) (0 :: byte)"
  have "wireAttr a = ?t # (Length a + 2) # Value a @ ?p"
    by (simp only: wireAttr_plain [OF False] l append_Cons append_Nil)
  moreover have "decodedAttr a = \<lparr>Type = drop_bit 1 ?t, Length = of_nat (length (Value a)),
      Value = Value a, RawTLV = False\<rparr>"
    using False a by (simp only: word_type_bits) (simp add: decodedAttr_def)
  moreover have "unat (Length a + 2) = 2 + length (Value a)" using l a by simp
  ultimately show ?thesis by (metis length_replicate)
qed

lemma wfAttr_aligned:
  assumes "wfAttr a"
  shows "attrSize a mod 4 = 0"
proof -
  obtain t l v pad where "wireAttr a = t # l # v @ pad" "unat l = 2 + length v"
    "length pad = pad4 (unat l)"
    using wfAttr_wire [OF assms] by blast
  then have "attrSize a = unat l + pad4 (unat l)"
    using length_wireAttr [OF wfAttr_consistent [OF assms]] by simp
  then show ?thesis by (simp only: pad4_aligned)
qed

lemma decodeAttrs_tlv:
  assumes l: "unat l = 2 + length v" and pad: "length pad = pad4 (unat l)"
    and e: "length pre + unat l \<le> e" "e \<le> length (pre @ t # l # v @ pad @ rest)"
  shows "decodeAttrs (pre @ t # l # v @ pad @ rest) (length pre) e acc =
    decodeAttrs (pre @ t # l # v @ pad @ rest) (length pre + length (t # l # v @ pad)) e
      (acc @ [\<lparr>Type = drop_bit 1 t, Length = of_nat (length v), Value = v, RawTLV = False\<rparr>])"
proof -
  let ?d = "pre @ t # l # v @ pad @ rest"
  have "?d ! (length pre + 1) = l" by (simp add: nth_append)
  moreover have "?d ! length pre = t" by simp
  moreover have "\<not> l < 2" using l by (simp add: word_less_nat_alt)
  ultimately show ?thesis
    using l e pad decodeAttrs_step [of "length pre" e ?d acc]
    by (simp add: Let_def attrAt_def add.assoc)
qed

lemma decodeAttrs_wire:
  "list_all wfAttr attrs \<Longrightarrow>
   decodeAttrs (pre @ concat (map wireAttr attrs)) (length pre)
     (length pre + length (concat (map wireAttr attrs))) acc = Ok (acc @ map decodedAttr attrs)"
proof (induction attrs arbitrary: pre acc)
  case Nil
  then show ?case by (simp add: decodeAttrs_done)
next
  case (Cons a attrs)
  from Cons.prems obtain t l v pad where w: "wireAttr a = t # l # v @ pad"
    "unat l = 2 + length v" "length pad = pad4 (unat l)"
    "decodedAttr a = \<lparr>Type = drop_bit 1 t, Length = of_nat (length v), Value = v, RawTLV = False\<rparr>"
    using wfAttr_wire [of a] by auto
  let ?rest = "concat (map wireAttr attrs)"
  have "decodeAttrs (pre @ t # l # v @ pad @ ?rest) (length pre)
      (length pre + length (t # l # v @ pad @ ?rest)) acc
    = decodeAttrs (pre @ t # l # v @ pad @ ?rest) (length pre + length (t # l # v @ pad))
      (length pre + length (t # l # v @ pad @ ?rest)) (acc @ [decodedAttr a])"
    unfolding w(4) using w by (intro decodeAttrs_tlv) simp_all
  also have "\<dots> = decodeAttrs ((pre @ wireAttr a) @ ?rest) (length (pre @ wireAttr a))
      (length (pre @ wireAttr a) + length ?rest) (acc @ [decodedAttr a])"
    using w by (simp add: algebra_simps)
  also have "\<dots> = Ok ((acc @ [decodedAttr a]) @ map decodedAttr attrs)"
    using Cons.prems by (intro Cons.IH) simp
  finally show ?case using w by simp
qed

lemma Decode_wireForm:
  assumes "Version m = 1 \<or> Version m = 2" "unat (Reserved m) < 32"
    and "list_all wfAttr (Attributes m)"
    and "length (concat (map wireAttr (Attributes m))) = unat (PayloadLength m) * 4"
  shows "Decode (wireHeader m @ concat (map wireAttr (Attributes m)))
    = Ok (m\<lparr>Attributes := map decodedAttr (Attributes m)\<rparr>)"
proof -
  let ?p = "concat (map wireAttr (Attributes m))"
  let ?b0 = "push_bit 5 (Version m) OR (Reserved m AND 31)"
  define data where "data = wireHeader m @ ?p"
  have len: "length data = 12 + unat (PayloadLength m) * 4"
    using assms(4) by (simp add: data_def)
  have "Version m AND 7 = Version m" using assms(1) by auto
  then have v: "drop_bit 5 ?b0 AND 7 = Version m" by (simp only: version_bits)
  have r: "?b0 AND 31 = Reserved m"
    using reserved_bits [of "Version m" "Reserved m"] reserved_small [OF assms(2)] by (rule trans)
  have d: "data ! 0 = ?b0" "data ! 1 = Primitive m"
    "take 2 (drop 2 data) = PutUint16 (PayloadLength m)"
    "take 4 (drop 4 data) = PutUint32 (ConferenceID m)"
    "take 2 (drop 8 data) = PutUint16 (TransactionID m)"
    "take 2 (drop 10 data) = PutUint16 (UserID m)"
    by (simp_all add: data_def wireHeader_def PutUint16_def PutUint32_def)
  have "decodeAttrs data 12 (12 + unat (PayloadLength m) * 4) []
      = Ok (map decodedAttr (Attributes m))"
    using decodeAttrs_wire [OF assms(3), of "wireHeader m" "[]"] assms(4)
    by (simp add: data_def)
  then have "Decode data = Ok (m\<lparr>Attributes := map decodedAttr (Attributes m)\<rparr>)"
    using assms(1) len v r d by (simp add: Decode_unfold Let_def del: push_bit_Suc)
  then show ?thesis by (simp add: data_def)
qed

lemma Decode_Encode_wf:
  assumes "wfMessage m"
  shows "\<exists>bs. Encode m = Ok (withPayloadLength m, bs) \<and> Decode bs = Ok (decodedMessage m)"
proof -
  let ?as = "Attributes m" and ?m = "withPayloadLength m"
  have c: "list_all consistent ?as"
    using assms by (auto simp: wfMessage_def list_all_iff intro: wfAttr_consistent)
  have aligned: "attrSize a mod 4 = 0" if "a \<in> set ?as" for a
    using that assms by (auto simp: wfMessage_def list_all_iff intro: wfAttr_aligned)
  have "sum_list (map attrSize xs) mod 4 = 0" if "set xs \<subseteq> set ?as" for xs
    using that by (induction xs) (auto simp: aligned mod_add_eq [symmetric])
  then have p4: "payloadSize m mod 4 = 0" by (simp add: payloadSize_def)
  have "length (concat (map wireAttr xs)) = sum_list (map attrSize xs)" if "list_all consistent xs" for xs
    using that by (induction xs) (auto simp: length_wireAttr)
  then have "length (concat (map wireAttr ?as)) = payloadSize m" using c by (simp add: payloadSize_def)
  moreover have "payloadSize m = unat (of_nat (payloadSize m div 4) :: u16) * 4"
  proof -
    have "payloadSize m div 4 < 65536"
      using assms by (simp add: wfMessage_def less_mult_imp_div_less)
    then show ?thesis using p4 by (simp add: unat_of_nat mult.commute mult_div_mod_eq minus_mod_eq_mult_div [symmetric])
  qed
  ultimately have "Decode (wireHeader ?m @ concat (map wireAttr (Attributes ?m)))
      = Ok (?m\<lparr>Attributes := map decodedAttr (Attributes ?m)\<rparr>)"
    using assms by (intro Decode_wireForm) (simp_all add: wfMessage_def withPayloadLength_def)
  then show ?thesis
    using Encode_wireForm [OF c p4] by (simp add: decodedMessage_def withPayloadLength_def)
qed

section \<open>What Decode accepts\<close>

definition plainAttr :: "attribute \<Rightarrow> bool" where
  "plainAttr a \<longleftrightarrow> \<not> RawTLV a \<and> wfAttr a"

lemma drop_bit_type_bound: "unat (drop_bit 1 (t :: u8)) < 128"
proof -
  have "unat (drop_bit 1 t) = drop_bit 1 (unat t)"
    by (rule unat_drop_bit_eq)
  also have "\<dots> = unat t div 2"
    by (simp add: drop_bit_eq_div)
  finally show ?thesis using u8_bound [of t] by linarith
qed

lemma attrAt_plain:
  assumes "offset + unat (data ! (offset + 1)) \<le> length data" "2 \<le> unat (data ! (offset + 1))"
  shows "plainAttr (attrAt data offset)"
    "attrSize (attrAt data offset) = unat (data ! (offset + 1)) + pad4 (unat (data ! (offset + 1)))"
proof -
  let ?l = "data ! (offset + 1)"
  define n where "n = unat ?l - 2"
  have n: "unat ?l = n + 2" using assms(2) by (simp add: n_def)
  have small: "n \<le> 253" "unat (of_nat n :: u8) = n"
    using n u8_bound [of ?l] by (auto simp: unat_of_nat)
  have a: "attrAt data offset = \<lparr>Type = drop_bit 1 (data ! offset), Length = of_nat n,
      Value = take n (drop (offset + 2) data), RawTLV = False\<rparr>"
    by (simp only: attrAt_def Let_def n_def)
  show "plainAttr (attrAt data offset)"
    using assms n small drop_bit_type_bound by (simp add: plainAttr_def wfAttr_def a)
  show "attrSize (attrAt data offset) = unat ?l + pad4 (unat ?l)"
    using n small by (simp add: a attrSize_plain)
qed

lemma decodeAttrs_sound:
  assumes "endOffset \<le> length data" "offset \<le> endOffset" "offset mod 4 = 0" "endOffset mod 4 = 0"
    and "decodeAttrs data offset endOffset acc = Ok attrs"
  shows "\<exists>new. attrs = acc @ new \<and> list_all plainAttr new \<and>
           offset + sum_list (map attrSize new) = endOffset"
  using assms
proof (induction "endOffset - offset" arbitrary: offset acc rule: less_induct)
  case less
  show ?case
  proof (cases "offset = endOffset")
    case True
    with less.prems show ?thesis by (simp add: decodeAttrs_done)
  next
    case False
    with less.prems have lt: "offset + 2 \<le> endOffset" by presburger
    let ?l = "data ! (offset + 1)"
    let ?off = "offset + unat ?l + pad4 (unat ?l)"
    from less.prems(5) have l: "\<not> ?l < 2" "offset + unat ?l \<le> endOffset"
      and rec: "decodeAttrs data ?off endOffset (acc @ [attrAt data offset]) = Ok attrs"
      by (auto simp: decodeAttrs_step [OF lt less.prems(1)] Let_def split: if_splits)
    from l(1) have l2: "2 \<le> unat ?l" by (simp add: word_less_nat_alt)
    have m: "?off mod 4 = 0"
      using mod4_add [OF less.prems(3) pad4_aligned [of "unat ?l"]] by (simp only: add.assoc)
    have le: "?off \<le> endOffset"
      using mod4_le [OF m less.prems(4) _ pad4_le3 l(2)] by simp
    have "endOffset - ?off < endOffset - offset" using l2 lt by linarith
    from less.hyps [OF this less.prems(1) le m less.prems(4) rec]
    obtain new where "attrs = (acc @ [attrAt data offset]) @ new" "list_all plainAttr new"
      "?off + sum_list (map attrSize new) = endOffset"
      by blast
    then show ?thesis
      using attrAt_plain [of offset data] l2 l(2) less.prems(1)
      by (intro exI [of _ "attrAt data offset # new"]) auto
  qed
qed

lemma Decode_accepts:
  assumes "Decode data = Ok m"
  shows "wfMessage m" "list_all plainAttr (Attributes m)"
    "payloadSize m = unat (PayloadLength m) * 4" "12 + payloadSize m \<le> length data"
proof -
  have len: "12 \<le> length data"
    using assms by (auto simp: Decode_def split: if_splits)
  let ?v = "drop_bit 5 (data ! 0) AND 7" and ?pl = "be16 (take 2 (drop 2 data))"
  from assms have v: "?v = 1 \<or> ?v = 2" and n: "12 + unat ?pl * 4 \<le> length data"
    and d: "decodeAttrs data 12 (12 + unat ?pl * 4) [] = Ok (Attributes m)"
    and m: "Version m = ?v" "Reserved m = data ! 0 AND 31" "PayloadLength m = ?pl"
    by (auto simp: Decode_unfold [OF len] Let_def bind_res_Ok_iff split: if_splits)
  from decodeAttrs_sound [OF n _ _ _ d] have
    a: "list_all plainAttr (Attributes m)" "12 + payloadSize m = 12 + unat ?pl * 4"
    by (auto simp: payloadSize_def)
  have "unat ?pl < 65536" by (rule u16_bound)
  moreover have "unat (data ! 0 AND 31) < 32"
    using word_and_le1 [of "data ! 0" 31] by (simp add: word_le_nat_alt)
  moreover have "list_all wfAttr (Attributes m)"
    using a(1) by (auto simp: plainAttr_def list_all_iff)
  ultimately show "wfMessage m" using a(2) v m by (simp add: wfMessage_def)
  show "list_all plainAttr (Attributes m)" by (rule a(1))
  show "payloadSize m = unat (PayloadLength m) * 4" using a(2) m by simp
  show "12 + payloadSize m \<le> length data" using a(2) n by simp
qed

lemma decodedMessage_plain:
  assumes "list_all plainAttr (Attributes m)" "payloadSize m = unat (PayloadLength m) * 4"
  shows "withPayloadLength m = m" "decodedMessage m = m"
proof -
  show w: "withPayloadLength m = m" using assms(2) by (simp add: withPayloadLength_def)
  have "map decodedAttr (Attributes m) = Attributes m"
    using assms(1) by (intro map_idI) (auto simp: list_all_iff plainAttr_def decodedAttr_def)
  then show "decodedMessage m = m" by (simp add: decodedMessage_def w)
qed

section \<open>The bytes of a FLOOR-REQUEST-INFORMATION\<close>

lemma ucast_low_byte: "(ucast (w AND 0xFF :: u16) :: u8) = ucast w"
proof -
  have "(ucast (w AND mask 8 :: u16) :: u8) = ucast w"
    by (intro bit_word_eqI) (auto simp: bit_simps)
  then show ?thesis by (simp add: mask_eq_exp_minus_1)
qed

lemma floorReqInfoAttr_bytes:
  "floorReqInfoAttr requestID status floorID =
     [31, 20] @ PutUint16 requestID @
     [36, 8] @ PutUint16 requestID @ [10, 4, status, 0] @
     [34, 8] @ PutUint16 floorID @ [10, 4, status, 0]"
  by (simp add: floorReqInfoAttr_def buildGroupedAttrWithHeaderID_def buildSimpleAttr_def
      tlv_header_def pad4_def PutUint16_def ucast_low_byte)

lemma length_floorReqInfoAttr [simp]: "length (floorReqInfoAttr requestID status floorID) = 20"
  by (simp add: floorReqInfoAttr_bytes)

lemma Decode_bad_length:
  assumes "12 \<le> length data" "drop_bit 5 (data ! 0) AND 7 = 1"
    "be16 (take 2 (drop 2 data)) = pl" "12 + unat pl * 4 \<le> length data" "0 < unat pl"
    "data ! 13 < 2"
  shows "Decode data = Fail (InvalidAttributeLength (data ! 13))"
  using assms decodeAttrs_step [of 12 "12 + unat pl * 4" data "[]"]
  by (simp add: Decode_unfold [OF assms(1)] Let_def)

text \<open>The message whose bytes \<^verbatim>\<open>BuildFloorStatusMessage\<close> writes without \<^verbatim>\<open>Encode\<close>.\<close>

definition builtStatus :: "u8 \<Rightarrow> u32 \<Rightarrow> u16 \<Rightarrow> u16 \<Rightarrow> u16 \<Rightarrow> u16 \<Rightarrow> RequestStatus \<Rightarrow> message" where
  "builtStatus version confID txID userID floorID requestID status =
     AddFloorRequestInformationRFC4582 requestID status floorID
       (AddFloorID floorID ((NewMessage PrimitiveFloorStatus confID txID userID)\<lparr>Version := version\<rparr>))"

lemmas builtStatus_defs =
  builtStatus_def AddFloorRequestInformationRFC4582_def AddFloorID_def AddAttribute_def NewMessage_def Let_def

lemma Encode_builtStatus:
  "Encode (builtStatus version confID txID userID floorID requestID status) =
     Ok (withPayloadLength (builtStatus version confID txID userID floorID requestID status),
         BuildFloorStatusMessage version confID txID userID floorID requestID status)"
proof -
  let ?m = "builtStatus version confID txID userID floorID requestID status"
  have size: "payloadSize ?m = 24" and "list_all consistent (Attributes ?m)"
    by (simp_all add: builtStatus_defs payloadSize_def attrSize_def consistent_def)
  then have "Encode ?m = Ok (withPayloadLength ?m,
      wireHeader (withPayloadLength ?m) @ concat (map wireAttr (Attributes ?m)))"
    by (intro Encode_wireForm) simp_all
  moreover have "wireHeader (withPayloadLength ?m) @ concat (map wireAttr (Attributes ?m))
      = BuildFloorStatusMessage version confID txID userID floorID requestID status"
    unfolding wireHeader_def withPayloadLength_def size
    by (simp add: builtStatus_defs BuildFloorStatusMessage_def wireAttr_def buildSimpleAttr_def tlv_header_def
        pad4_def)
  ultimately show ?thesis by simp
qed

section \<open>Properties\<close>

text \<open>C27. \<^verbatim>\<open>Decode\<close> never panics, whatever bytes arrive: every index and slice of the header
  and of the attribute loop is in bounds, and the loop terminates.\<close>
theorem Decode_never_panics: "Decode data \<noteq> Panic"
  by (rule Decode_no_panic)

text \<open>C31. \<^verbatim>\<open>Encode\<close> never panics, also for attributes whose \<^verbatim>\<open>Length\<close> field does not match
  their value: it reports a misaligned payload or returns a buffer of exactly twelve bytes
  plus the payload, and stores the payload length in words.\<close>
theorem Encode_total:
  "if payloadSize m mod 4 = 0
   then \<exists>bs. Encode m = Ok (withPayloadLength m, bs) \<and> length bs = CommonHeaderLength + payloadSize m
   else Encode m = Fail NotAligned"
  using Encode_Ok_length [of m] Encode_NotAligned [of m] by simp

text \<open>C10. Round trip: a message with a supported version, a five-bit reserved field and
  well-formed attributes that fit the 16-bit word count is decoded to itself, with its
  payload length filled in and pre-encoded attributes split into their fields.\<close>
theorem Decode_Encode:
  assumes "wfMessage m"
  shows "\<exists>bs. Encode m = Ok (withPayloadLength m, bs) \<and> Decode bs = Ok (decodedMessage m)"
  using assms by (rule Decode_Encode_wf)

theorem Decode_Encode_witness:
  "wfMessage (AddFloorID 7 (NewMessage PrimitiveFloorQuery 1 2 3)) \<and>
   (\<exists>bs. Encode (AddFloorID 7 (NewMessage PrimitiveFloorQuery 1 2 3))
       = Ok (withPayloadLength (AddFloorID 7 (NewMessage PrimitiveFloorQuery 1 2 3)), bs) \<and>
     Decode bs = Ok (decodedMessage (AddFloorID 7 (NewMessage PrimitiveFloorQuery 1 2 3))))"
proof -
  have "wfMessage (AddFloorID 7 (NewMessage PrimitiveFloorQuery 1 2 3))"
    by (simp add: wfMessage_def AddFloorID_def AddAttribute_def NewMessage_def wfAttr_def
        payloadSize_def attrSize_def)
  then show ?thesis using Decode_Encode by blast
qed

text \<open>C15. What \<^verbatim>\<open>Decode\<close> accepts is well formed and canonical: it re-encodes, to exactly the
  announced length, and the result decodes to the same message.\<close>
theorem Decode_canonical:
  assumes "Decode data = Ok m"
  shows "wfMessage m \<and>
    (\<exists>bs. Encode m = Ok (m, bs) \<and> length bs = 12 + 4 * unat (PayloadLength m) \<and>
          length bs \<le> length data \<and> Decode bs = Ok m)"
proof -
  note d = Decode_accepts [OF assms]
  note id = decodedMessage_plain [OF d(2,3)]
  obtain bs where "Encode m = Ok (m, bs)" "Decode bs = Ok m"
    using Decode_Encode_wf [OF d(1)] by (auto simp: id)
  moreover have "payloadSize m mod 4 = 0" using d(3) by simp
  ultimately show ?thesis using Encode_Ok_length [of m] d by (auto simp: id)
qed

theorem Decode_canonical_witness:
  "\<exists>m. Decode [0x20, 7, 0, 1, 0, 0, 0, 1, 0, 2, 0, 3, 5, 4, 0, 7] = Ok m \<and> wfMessage m"
proof -
  have "\<exists>m. Decode [0x20, 7, 0, 1, 0, 0, 0, 1, 0, 2, 0, 3, 5, 4, 0, 7] = Ok m"
    by (simp add: Decode_def decodeAttrs.simps index_def slice_def Let_def)
  then show ?thesis using Decode_canonical by blast
qed

text \<open>C32. \<^verbatim>\<open>BuildFloorStatusMessage\<close>, which bypasses \<^verbatim>\<open>Encode\<close>, produces the bytes that
  \<^verbatim>\<open>Encode\<close> produces for the FloorStatus message with the same header fields, a FLOOR-ID and
  a FLOOR-REQUEST-INFORMATION.\<close>
theorem BuildFloorStatusMessage_Encode:
  "\<exists>m'. Encode (AddFloorRequestInformationRFC4582 requestID status floorID
            (AddFloorID floorID ((NewMessage PrimitiveFloorStatus confID txID userID)\<lparr>Version := version\<rparr>)))
     = Ok (m', BuildFloorStatusMessage version confID txID userID floorID requestID status)"
  using Encode_builtStatus [of version confID txID userID floorID requestID status]
  unfolding builtStatus_def by blast

text \<open>A value of 254 or 255 bytes does not survive: \<^verbatim>\<open>AddAttribute\<close> accepts it, \<^verbatim>\<open>Encode\<close>
  writes a length octet that has wrapped below two, and \<^verbatim>\<open>Decode\<close> rejects the message.\<close>
lemma overlong_attribute_wraps:
  assumes "length value = 254 \<or> length value = 255"
  shows "\<exists>m' bs. Encode (AddAttribute attrType value (NewMessage primitive confID txID userID)) = Ok (m', bs)
    \<and> Decode bs = Fail (InvalidAttributeLength (of_nat (length value) + 2))"
proof -
  let ?m = "AddAttribute attrType value (NewMessage primitive confID txID userID)"
  note defs = AddAttribute_def NewMessage_def
  define n where "n = (length value + 5) div 4"
  have n: "length value + 2 + pad4 (length value + 2) = 4 * n" "n < 256" "0 < n"
    using assms by (auto simp: pad4_def n_def)
  have len: "unat (of_nat (length value) :: u8) = length value"
    using assms by (auto simp: unat_of_nat)
  have size: "payloadSize ?m = 4 * n" and c: "list_all consistent (Attributes ?m)"
    using n(1) len by (simp_all add: defs payloadSize_def attrSize_plain consistent_def)
  define bs where "bs = wireHeader (withPayloadLength ?m) @ concat (map wireAttr (Attributes ?m))"
  have enc: "Encode ?m = Ok (withPayloadLength ?m, bs)"
    unfolding bs_def using c size by (intro Encode_wireForm) simp_all
  then have length: "length bs = 12 + 4 * n" using Encode_Ok_length [of ?m] size by auto
  have bytes: "bs ! 0 = 0x20" "bs ! 13 = of_nat (length value) + 2"
    "take 2 (drop 2 bs) = PutUint16 (of_nat n)"
    using size by (simp_all add: bs_def wireHeader_def withPayloadLength_def PutUint16_def
        PutUint32_def defs wireAttr_def)
  have "unat (of_nat n :: u16) = n" using n by (simp add: unat_of_nat)
  moreover have "of_nat (length value) + 2 < (2 :: u8)" using assms by auto
  ultimately have "Decode bs = Fail (InvalidAttributeLength (bs ! 13))"
    using n length bytes by (intro Decode_bad_length [of _ "of_nat n"]) simp_all
  then show ?thesis using enc bytes by auto
qed

lemma overlong_attribute_wraps_witness:
  "\<exists>m' bs. Encode (AddErrorInfo (replicate 254 (CHR ''x'')) (NewMessage PrimitiveError 1 2 3)) = Ok (m', bs)
    \<and> Decode bs = Fail (InvalidAttributeLength 0)"
proof -
  have e: "(256 :: u8) = 0" by simp
  show ?thesis
    using overlong_attribute_wraps [of "bytes_of (replicate 254 (CHR ''x''))" AttrErrorInfo
        PrimitiveError 1 2 3]
    by (simp add: AddErrorInfo_def bytes_of_def e)
qed

end
