(* ===== verification/Grouped.thy ===== *)
theory Grouped
  imports Codec
begin

text \<open>
  The grouped attributes of \<^verbatim>\<open>grouped.go\<close> and the accessors of \<^verbatim>\<open>message.go\<close> that fall back
  on them. Every read of \<^verbatim>\<open>parseTLVs\<close> and of its callers stands behind the length check
  the source makes, which is written out as the condition of the branch that reads.
\<close>

section \<open>The R flag\<close>

definition headerFlagResponse :: u8 where
  [go_consts, simp]: "headerFlagResponse = 0x10"

definition IsResponse :: "message \<Rightarrow> bool" where
  "IsResponse m \<longleftrightarrow> Reserved m AND headerFlagResponse \<noteq> 0"

definition SetResponse :: "bool \<Rightarrow> message \<Rightarrow> message" where
  "SetResponse response m =
     (if response then m\<lparr>Reserved := Reserved m OR headerFlagResponse\<rparr>
      else m\<lparr>Reserved := Reserved m AND NOT headerFlagResponse\<rparr>)"

section \<open>Nested attributes\<close>

datatype tlv_error = InvalidTLVLength nat nat

text \<open>
  The loop of \<^verbatim>\<open>parseTLVs\<close>. On an error Go returns the attributes read so far beside it.
\<close>

function parseTLVsFrom ::
    "byte list \<Rightarrow> nat \<Rightarrow> attribute list \<Rightarrow> (attribute list \<times> tlv_error, attribute list) res" where
  "parseTLVsFrom data offset attrs =
     (if offset + 2 \<le> length data then
        let attrType = drop_bit 1 (data ! offset);
            len = unat (data ! (offset + 1)) in
        if len < 2 \<or> offset + len > length data
        then Fail (attrs, InvalidTLVLength len offset)
        else
          let value = take (len - 2) (drop (offset + 2) data);
              attr = \<lparr>Type = attrType, Length = of_nat (len - 2), Value = value, RawTLV = False\<rparr>;
              off = offset + len;
              padding = len mod 4;
              off = (if padding \<noteq> 0 then off + (4 - padding) else off)
          in parseTLVsFrom data off (attrs @ [attr])
      else Ok attrs)"
  by pat_completeness auto
termination
  by (relation "measure (\<lambda>(data, offset, attrs). length data - offset)") (auto simp: Let_def)

declare parseTLVsFrom.simps [simp del]

definition parseTLVs :: "byte list \<Rightarrow> (attribute list \<times> tlv_error, attribute list) res" where
  "parseTLVs data = parseTLVsFrom data 0 []"

fun firstRequestStatus :: "attribute list \<Rightarrow> (RequestStatus \<times> u8) option" where
  "firstRequestStatus [] = None"
| "firstRequestStatus (sub # subs) =
     (if Type sub = AttrRequestStatus \<and> 2 \<le> length (Value sub)
      then Some (Value sub ! 0, Value sub ! 1)
      else firstRequestStatus subs)"

text \<open>The triple (status, position, ok) of the source as an option.\<close>

definition findRequestStatus :: "byte list \<Rightarrow> (RequestStatus \<times> u8) option" where
  "findRequestStatus data =
     (case parseTLVs data of
        Ok subs \<Rightarrow> firstRequestStatus subs
      | _ \<Rightarrow> None)"

record FloorRequestStatusInfo =
  frs_FloorID :: u16
  frs_Status :: RequestStatus
  frs_QueuePosition :: u8
  frs_HasStatus :: bool

record FloorRequestInfo =
  fri_FloorRequestID :: u16
  fri_OverallStatus :: RequestStatus
  fri_QueuePosition :: u8
  fri_HasOverall :: bool
  fri_Floors :: "FloorRequestStatusInfo list"
  fri_BeneficiaryID :: u16
  fri_HasBeneficiary :: bool
  fri_RequestedByID :: u16
  fri_HasRequestedBy :: bool
  fri_Priority :: Priority
  fri_HasPriority :: bool

definition zeroInfo :: FloorRequestInfo where
  "zeroInfo = \<lparr>fri_FloorRequestID = 0, fri_OverallStatus = 0, fri_QueuePosition = 0,
     fri_HasOverall = False, fri_Floors = [], fri_BeneficiaryID = 0, fri_HasBeneficiary = False,
     fri_RequestedByID = 0, fri_HasRequestedBy = False, fri_Priority = 0, fri_HasPriority = False\<rparr>"

text \<open>The overall status when present, else the first floor status.\<close>

fun firstFloorStatus :: "FloorRequestStatusInfo list \<Rightarrow> RequestStatus option" where
  "firstFloorStatus [] = None"
| "firstFloorStatus (fl # fls) = (if frs_HasStatus fl then Some (frs_Status fl) else firstFloorStatus fls)"

definition Status :: "FloorRequestInfo \<Rightarrow> RequestStatus option" where
  "Status f =
     (if fri_HasOverall f then Some (fri_OverallStatus f) else firstFloorStatus (fri_Floors f))"

text \<open>One turn of the loop over the sub-attributes: the \<^verbatim>\<open>switch\<close> on their type.\<close>

definition addSubAttr :: "FloorRequestInfo \<Rightarrow> attribute \<Rightarrow> FloorRequestInfo" where
  "addSubAttr info sub =
     (if Type sub = AttrOverallRequestStatus then
        (if length (Value sub) < 2 then info
         else case findRequestStatus (drop 2 (Value sub)) of
             Some (status, pos) \<Rightarrow>
               info\<lparr>fri_OverallStatus := status, fri_QueuePosition := pos, fri_HasOverall := True\<rparr>
           | None \<Rightarrow> info)
      else if Type sub = AttrFloorRequestStatus then
        (if length (Value sub) < 2 then info
         else
           let floorID = be16 (take 2 (Value sub));
               fl = (case findRequestStatus (drop 2 (Value sub)) of
                   Some (status, pos) \<Rightarrow>
                     \<lparr>frs_FloorID = floorID, frs_Status = status, frs_QueuePosition = pos,
                      frs_HasStatus = True\<rparr>
                 | None \<Rightarrow>
                     \<lparr>frs_FloorID = floorID, frs_Status = 0, frs_QueuePosition = 0,
                      frs_HasStatus = False\<rparr>)
           in info\<lparr>fri_Floors := fri_Floors info @ [fl]\<rparr>)
      else if Type sub = AttrBeneficiaryInfo then
        (if 2 \<le> length (Value sub)
         then info\<lparr>fri_BeneficiaryID := be16 (take 2 (Value sub)), fri_HasBeneficiary := True\<rparr>
         else info)
      else if Type sub = AttrRequestedByInfo then
        (if 2 \<le> length (Value sub)
         then info\<lparr>fri_RequestedByID := be16 (take 2 (Value sub)), fri_HasRequestedBy := True\<rparr>
         else info)
      else if Type sub = AttrPriority then
        (if 2 \<le> length (Value sub)
         then info\<lparr>fri_Priority := be16 (take 2 (Value sub)), fri_HasPriority := True\<rparr>
         else info)
      else info)"

datatype info_error = ShorterThanHeader | NestedTLV tlv_error

definition parseFloorRequestInfo :: "byte list \<Rightarrow> (info_error, FloorRequestInfo) res" where
  "parseFloorRequestInfo value =
     (if length value < 2 then Fail ShorterThanHeader
      else
        let info = zeroInfo\<lparr>fri_FloorRequestID := be16 (take 2 value)\<rparr> in
        case parseTLVs (drop 2 value) of
          Ok subs \<Rightarrow> Ok (foldl addSubAttr info subs)
        | Fail (_, err) \<Rightarrow> Fail (NestedTLV err)
        | Panic \<Rightarrow> Panic)"

definition attrFloorRequestInfo :: "attribute \<Rightarrow> FloorRequestInfo option" where
  "attrFloorRequestInfo attr =
     (if Type attr \<noteq> AttrFloorRequestInfo then None
      else if RawTLV attr \<and> length (Value attr) < 2 then None
      else
        let value = (if RawTLV attr then drop 2 (Value attr) else Value attr)
        in case parseFloorRequestInfo value of Ok info \<Rightarrow> Some info | _ \<Rightarrow> None)"

definition FloorRequestInfos :: "message \<Rightarrow> FloorRequestInfo list" where
  "FloorRequestInfos m = List.map_filter attrFloorRequestInfo (Attributes m)"

section \<open>Accessors\<close>

text \<open>A pair (value, ok) of the source is an option; the first attribute of a type decides.\<close>

definition GetAttribute :: "AttributeType \<Rightarrow> message \<Rightarrow> attribute option" where
  "GetAttribute attrType m = List.find (\<lambda>a. Type a = attrType) (Attributes m)"

definition attrUint16 :: "attribute option \<Rightarrow> u16 option" where
  "attrUint16 attr =
     (case attr of
        Some a \<Rightarrow> if 2 \<le> length (Value a) then Some (be16 (Value a)) else None
      | None \<Rightarrow> None)"

fun firstFloorOf :: "FloorRequestInfo list \<Rightarrow> u16 option" where
  "firstFloorOf [] = None"
| "firstFloorOf (info # infos) =
     (case fri_Floors info of fl # _ \<Rightarrow> Some (frs_FloorID fl) | [] \<Rightarrow> firstFloorOf infos)"

definition GetFloorID :: "message \<Rightarrow> u16 option" where
  "GetFloorID m =
     (case attrUint16 (GetAttribute AttrFloorID m) of
        Some floorID \<Rightarrow> Some floorID
      | None \<Rightarrow> firstFloorOf (FloorRequestInfos m))"

definition GetFloorRequestID :: "message \<Rightarrow> u16 option" where
  "GetFloorRequestID m =
     (case attrUint16 (GetAttribute AttrFloorRequestID m) of
        Some requestID \<Rightarrow> Some requestID
      | None \<Rightarrow>
          (case FloorRequestInfos m of info # _ \<Rightarrow> Some (fri_FloorRequestID info) | [] \<Rightarrow> None))"

definition GetBeneficiaryID :: "message \<Rightarrow> u16 option" where
  "GetBeneficiaryID m = attrUint16 (GetAttribute AttrBeneficiaryID m)"

fun firstStatusOf :: "FloorRequestInfo list \<Rightarrow> (RequestStatus \<times> u8) option" where
  "firstStatusOf [] = None"
| "firstStatusOf (info # infos) =
     (case Status info of
        Some status \<Rightarrow> Some (status, fri_QueuePosition info)
      | None \<Rightarrow> firstStatusOf infos)"

definition GetRequestStatus :: "message \<Rightarrow> (RequestStatus \<times> u8) option" where
  "GetRequestStatus m =
     (case GetAttribute AttrRequestStatus m of
        Some attr \<Rightarrow>
          (if 2 \<le> length (Value attr) then Some (Value attr ! 0, Value attr ! 1)
           else firstStatusOf (FloorRequestInfos m))
      | None \<Rightarrow> firstStatusOf (FloorRequestInfos m))"

definition GetErrorCode :: "message \<Rightarrow> ErrorCode option" where
  "GetErrorCode m =
     (case GetAttribute AttrErrorCode m of
        Some attr \<Rightarrow> if length (Value attr) < 1 then None else Some (Value attr ! 0)
      | None \<Rightarrow> None)"

definition GetErrorInfo :: "message \<Rightarrow> string option" where
  "GetErrorInfo m = map_option (\<lambda>attr. string_of (Value attr)) (GetAttribute AttrErrorInfo m)"

section \<open>Parsing what the library builds\<close>

definition sentInfo :: "u16 \<Rightarrow> RequestStatus \<Rightarrow> u16 \<Rightarrow> FloorRequestInfo" where
  "sentInfo requestID status floorID = zeroInfo\<lparr>fri_FloorRequestID := requestID,
     fri_OverallStatus := status, fri_HasOverall := True,
     fri_Floors := [\<lparr>frs_FloorID = floorID, frs_Status = status, frs_QueuePosition = 0,
                     frs_HasStatus = True\<rparr>]\<rparr>"

lemma parse_requestStatus: "findRequestStatus [10, 4, status, 0] = Some (status, 0)"
  by (simp add: findRequestStatus_def parseTLVs_def parseTLVsFrom.simps)

lemma parse_floorReqInfo:
  "parseFloorRequestInfo (drop 2 (floorReqInfoAttr requestID status floorID))
     = Ok (sentInfo requestID status floorID)"
  by (simp add: floorReqInfoAttr_bytes parseFloorRequestInfo_def parseTLVs_def parseTLVsFrom.simps
      PutUint16_def parse_requestStatus addSubAttr_def sentInfo_def zeroInfo_def)

section \<open>parseTLVs and Decode\<close>

lemma parseTLVsFrom_step:
  assumes "offset + 2 \<le> length data"
  shows "parseTLVsFrom data offset attrs =
    (let l = unat (data ! (offset + 1)) in
     if l < 2 \<or> offset + l > length data then Fail (attrs, InvalidTLVLength l offset)
     else parseTLVsFrom data (offset + l + pad4 l) (attrs @ [attrAt data offset]))"
  using assms
  by (subst parseTLVsFrom.simps)
     (rule mod4_cases [of "unat (data ! (offset + 1))"]; simp add: Let_def attrAt_def pad4_def)

text \<open>The loop of \<^verbatim>\<open>Decode\<close> and that of \<^verbatim>\<open>parseTLVs\<close> read the same attributes.\<close>

lemma attrAt_slice:
  assumes "base \<le> offset" "offset + 2 \<le> e" "offset + unat (data ! (offset + 1)) \<le> e"
    "e \<le> length data"
  shows "take (e - base) (drop base data) ! (offset - base + 1) = data ! (offset + 1) \<and>
    attrAt (take (e - base) (drop base data)) (offset - base) = attrAt data offset"
proof -
  from assms(1) obtain k where k: "offset = base + k" using le_Suc_ex by blast
  let ?d = "take (e - base) (drop base data)"
  have n: "?d ! (k + 1) = data ! (offset + 1)" "?d ! k = data ! offset"
    using assms by (simp_all add: k)
  have "take n (drop (k + 2) ?d) = take n (drop (offset + 2) data)" if "offset + 2 + n \<le> e" for n
    using that by (simp add: k drop_take min_def add.commute add.left_commute)
  from this [of "unat (data ! (offset + 1)) - 2"] assms(2,3)
  have "take (unat (data ! (offset + 1)) - 2) (drop (k + 2) ?d)
      = take (unat (data ! (offset + 1)) - 2) (drop (offset + 2) data)" by linarith
  then show ?thesis using n by (simp add: attrAt_def Let_def k)
qed

lemma parseTLVsFrom_decodeAttrs:
  assumes "endOffset \<le> length data" "base \<le> offset" "offset \<le> endOffset"
    and "offset mod 4 = 0" "endOffset mod 4 = 0"
    and "decodeAttrs data offset endOffset acc = Ok attrs"
  shows "parseTLVsFrom (take (endOffset - base) (drop base data)) (offset - base) acc = Ok attrs"
  using assms
proof (induction "endOffset - offset" arbitrary: offset acc rule: less_induct)
  case less
  let ?d = "take (endOffset - base) (drop base data)"
  show ?case
  proof (cases "offset = endOffset")
    case True
    with less.prems show ?thesis by (subst parseTLVsFrom.simps) (simp add: decodeAttrs_done)
  next
    case False
    with less.prems have lt: "offset + 2 \<le> endOffset" by presburger
    let ?l = "data ! (offset + 1)"
    let ?off = "offset + unat ?l + pad4 (unat ?l)"
    from less.prems(6) have l: "\<not> ?l < 2" "offset + unat ?l \<le> endOffset"
      and rec: "decodeAttrs data ?off endOffset (acc @ [attrAt data offset]) = Ok attrs"
      by (auto simp: decodeAttrs_step [OF lt less.prems(1)] Let_def split: if_splits)
    from l(1) have l2: "2 \<le> unat ?l" by (simp add: word_less_nat_alt)
    have m: "?off mod 4 = 0"
      using mod4_add [OF less.prems(4) pad4_aligned [of "unat ?l"]] by (simp only: add.assoc)
    have le: "?off \<le> endOffset"
      using mod4_le [OF m less.prems(5) _ pad4_le3 l(2)] by simp
    have "endOffset - ?off < endOffset - offset" "base \<le> ?off" using l2 lt less.prems by linarith+
    from less.hyps [OF this(1) less.prems(1) this(2) le m less.prems(5) rec]
    have IH: "parseTLVsFrom ?d (?off - base) (acc @ [attrAt data offset]) = Ok attrs" .
    have len: "length ?d = endOffset - base" using less.prems by simp
    have off: "offset - base + 2 \<le> length ?d"
      unfolding len using lt less.prems(2) by linarith
    have nth: "?d ! (offset - base + 1) = ?l"
      and at: "attrAt ?d (offset - base) = attrAt data offset"
      using attrAt_slice [OF less.prems(2) lt l(2) less.prems(1)] by blast+
    have "\<not> (unat ?l < 2 \<or> offset - base + unat ?l > length ?d)"
      unfolding len using l2 l(2) less.prems(2) by linarith
    moreover have "?off - base = offset - base + unat ?l + pad4 (unat ?l)"
      using less.prems(2) by linarith
    ultimately show ?thesis
      using IH by (simp only: parseTLVsFrom_step [OF off] nth at Let_def if_False)
  qed
qed

lemma IsResponse_SetResponse [simp]: "IsResponse (SetResponse response m) = response"
proof -
  have "(w OR 0x10) AND 0x10 = (0x10 :: u8)" for w :: u8 by (rule bit_word_eqI) (auto simp: bit_simps)
  moreover have "(w AND NOT 0x10) AND 0x10 = (0 :: u8)" for w :: u8
    by (rule bit_word_eqI) (auto simp: bit_simps)
  ultimately show ?thesis by (simp add: IsResponse_def SetResponse_def)
qed

lemma GetAttribute_single: "Attributes m = [a] \<Longrightarrow> GetAttribute t m = (if Type a = t then Some a else None)"
  by (simp add: GetAttribute_def)

definition decodedInfoAttr :: "u16 \<Rightarrow> RequestStatus \<Rightarrow> u16 \<Rightarrow> attribute" where
  "decodedInfoAttr requestID status floorID =
     \<lparr>Type = AttrFloorRequestInfo, Length = 18,
      Value = drop 2 (floorReqInfoAttr requestID status floorID), RawTLV = False\<rparr>"

lemma accessors_decodedInfo:
  assumes "Attributes m = [decodedInfoAttr requestID status floorID]"
  shows "GetFloorID m = Some floorID" "GetFloorRequestID m = Some requestID"
    "GetRequestStatus m = Some (status, 0)"
    "FloorRequestInfos m = [sentInfo requestID status floorID]"
proof -
  show i: "FloorRequestInfos m = [sentInfo requestID status floorID]"
    by (simp add: FloorRequestInfos_def assms attrFloorRequestInfo_def decodedInfoAttr_def
        parse_floorReqInfo)
  have "GetAttribute t m = None" if "t \<noteq> AttrFloorRequestInfo" for t
    using that by (simp add: GetAttribute_single [OF assms] decodedInfoAttr_def)
  then show "GetFloorID m = Some floorID" "GetFloorRequestID m = Some requestID"
    "GetRequestStatus m = Some (status, 0)"
    by (simp_all add: GetFloorID_def GetFloorRequestID_def GetRequestStatus_def i attrUint16_def
        sentInfo_def Status_def zeroInfo_def)
qed

definition floorRequestStatusMessage ::
    "u8 \<Rightarrow> bool \<Rightarrow> u32 \<Rightarrow> u16 \<Rightarrow> u16 \<Rightarrow> u16 \<Rightarrow> RequestStatus \<Rightarrow> u16 \<Rightarrow> message" where
  "floorRequestStatusMessage version response confID txID userID requestID status floorID =
     SetResponse response ((AddFloorRequestInformationRFC4582 requestID status floorID
       (NewMessage PrimitiveFloorRequestStatus confID txID userID))\<lparr>Version := version\<rparr>)"

section \<open>Properties\<close>

text \<open>C26. End to end: a FloorRequestStatus built with \<^verbatim>\<open>AddFloorRequestInformationRFC4582\<close>
  in either protocol version is encoded, and the receiver's \<^verbatim>\<open>Decode\<close> and accessors give
  back the floor, the floor request, the status and the R flag that were put in, with the
  header identifiers unchanged.\<close>
theorem floor_request_status_end_to_end:
  assumes "version = ProtocolVersionRFC4582 \<or> version = ProtocolVersionRFC8855"
  shows "\<exists>m bs m'.
    Encode (floorRequestStatusMessage version response confID txID userID requestID status floorID)
      = Ok (m, bs) \<and>
    Decode bs = Ok m' \<and> Primitive m' = PrimitiveFloorRequestStatus \<and> Version m' = version \<and>
    ConferenceID m' = confID \<and> TransactionID m' = txID \<and> UserID m' = userID \<and>
    IsResponse m' = response \<and> GetFloorID m' = Some floorID \<and>
    GetFloorRequestID m' = Some requestID \<and> GetRequestStatus m' = Some (status, 0)"
proof -
  let ?m = "floorRequestStatusMessage version response confID txID userID requestID status floorID"
  note defs = floorRequestStatusMessage_def SetResponse_def AddFloorRequestInformationRFC4582_def
    NewMessage_def Let_def
  have attrs: "Attributes ?m = [\<lparr>Type = AttrFloorRequestInfo, Length = 20,
      Value = floorReqInfoAttr requestID status floorID, RawTLV = True\<rparr>]"
    by (simp add: defs)
  have hdr: "Version ?m = version" "Reserved ?m = (if response then 0x10 else 0)"
    "Primitive ?m = PrimitiveFloorRequestStatus" "ConferenceID ?m = confID"
    "TransactionID ?m = txID" "UserID ?m = userID"
    by (simp_all add: defs)
  have "wfMessage ?m"
    using assms by (simp add: wfMessage_def wfAttr_def payloadSize_def attrSize_def attrs hdr
        floorReqInfoAttr_bytes pad4_def)
  then obtain bs where bs: "Encode ?m = Ok (withPayloadLength ?m, bs)" "Decode bs = Ok (decodedMessage ?m)"
    using Decode_Encode_wf by blast
  have "Attributes (decodedMessage ?m) = [decodedInfoAttr requestID status floorID]"
    by (simp add: decodedMessage_def attrs decodedAttr_def decodedInfoAttr_def floorReqInfoAttr_bytes)
  note acc = accessors_decodedInfo [OF this]
  have "IsResponse (decodedMessage ?m) = IsResponse ?m"
    by (simp add: IsResponse_def decodedMessage_def withPayloadLength_def)
  moreover have "IsResponse ?m = response" by (simp add: floorRequestStatusMessage_def)
  ultimately show ?thesis
    using bs acc hdr by (auto simp: decodedMessage_def withPayloadLength_def)
qed

theorem floor_request_status_end_to_end_witness:
  "\<exists>m bs m'. Encode (floorRequestStatusMessage 2 True 1 9 4 77 RequestStatusGranted 3) = Ok (m, bs) \<and>
    Decode bs = Ok m' \<and> GetFloorID m' = Some 3 \<and> GetFloorRequestID m' = Some 77"
  using floor_request_status_end_to_end [of 2 True 1 9 4 77 RequestStatusGranted 3] by auto

text \<open>The two TLV parsers agree: on the payload of any message that \<^verbatim>\<open>Decode\<close> accepts,
  \<^verbatim>\<open>parseTLVs\<close> returns the same attributes.\<close>
lemma parseTLVs_Decode:
  assumes "Decode data = Ok m"
  shows "parseTLVs (take (payloadSize m) (drop CommonHeaderLength data)) = Ok (Attributes m)"
proof -
  note d = Decode_accepts [OF assms]
  have len: "12 \<le> length data" using d(4) by simp
  from assms have "decodeAttrs data 12 (12 + unat (PayloadLength m) * 4) [] = Ok (Attributes m)"
    by (auto simp: Decode_unfold [OF len] Let_def bind_res_Ok_iff split: if_splits)
  then have "decodeAttrs data 12 (12 + payloadSize m) [] = Ok (Attributes m)"
    by (simp only: d(3))
  moreover have "(12 + payloadSize m) mod 4 = 0" using d(3) by simp
  ultimately have "parseTLVsFrom (take (12 + payloadSize m - 12) (drop 12 data)) (12 - 12) []
      = Ok (Attributes m)"
    using d(4) by (intro parseTLVsFrom_decodeAttrs) simp_all
  then show ?thesis by (simp add: parseTLVs_def)
qed

lemma parseTLVs_Decode_witness:
  "parseTLVs [5, 4, 0, 7] = Ok [\<lparr>Type = 2, Length = 2, Value = [0, 7], RawTLV = False\<rparr>]"
proof -
  let ?data = "[0x20, 7, 0, 1, 0, 0, 0, 1, 0, 2, 0, 3, 5, 4, 0, 7]"
  let ?m = "\<lparr>Version = 1, Reserved = 0, Primitive = 7, PayloadLength = 1, ConferenceID = 1,
      TransactionID = 2, UserID = 3,
      Attributes = [\<lparr>Type = 2, Length = 2, Value = [0, 7], RawTLV = False\<rparr>]\<rparr>"
  have "Decode ?data = Ok ?m"
    by (simp add: Decode_def decodeAttrs.simps index_def slice_def Let_def)
  from parseTLVs_Decode [OF this] show ?thesis by (simp add: payloadSize_def attrSize_def)
qed

lemma groupedSubAttr_bytes:
  "\<exists>rest. groupedSubAttr a = (push_bit 1 (Type a) OR 1) # Length a # rest"
proof -
  let ?n = "length ([push_bit 1 (Type a) OR 1, Length a] @ Value a) mod 4"
  have "groupedSubAttr a = (push_bit 1 (Type a) OR 1) # Length a
      # (Value a @ (if ?n \<noteq> 0 then replicate (4 - ?n) 0 else []))"
    by (simp add: groupedSubAttr_def Let_def)
  then show ?thesis by blast
qed

lemma parseTLVsFrom_extends:
  "parseTLVsFrom data offset attrs = Ok attrs' \<Longrightarrow> \<exists>new. attrs' = attrs @ new"
proof (induction "length data - offset" arbitrary: offset attrs rule: less_induct)
  case less
  show ?case
  proof (cases "offset + 2 \<le> length data")
    case True
    let ?l = "unat (data ! (offset + 1))"
    from less.prems have "2 \<le> ?l" "parseTLVsFrom data (offset + ?l + pad4 ?l)
        (attrs @ [attrAt data offset]) = Ok attrs'"
      by (auto simp: parseTLVsFrom_step [OF True] Let_def split: if_splits)
    with less.hyps [of "offset + ?l + pad4 ?l"] True show ?thesis by fastforce
  next
    case False
    with less.prems show ?thesis by (subst (asm) parseTLVsFrom.simps) simp
  qed
qed

text \<open>The sub-attributes that \<^verbatim>\<open>AddGroupedAttribute\<close> writes are not read back: it
  stores the length of the value alone where the parsers expect the two header octets to be
  counted, so \<^verbatim>\<open>parseTLVs\<close> never returns the attributes that were put in.\<close>
lemma grouped_subattributes_not_read_back:
  assumes "\<not> RawTLV a" "length (Value a) = unat (Length a)"
  shows "parseTLVs (concat (map groupedSubAttr (a # as))) \<noteq> Ok (a # as)"
proof
  let ?d = "concat (map groupedSubAttr (a # as))"
  obtain rest where d: "?d = (push_bit 1 (Type a) OR 1) # Length a # rest"
    using groupedSubAttr_bytes [of a] by auto
  assume parsed: "parseTLVs ?d = Ok (a # as)"
  have len: "0 + 2 \<le> length ?d" unfolding d by simp
  let ?l = "unat (Length a)"
  have nth: "?d ! (0 + 1) = Length a" unfolding d by simp
  from parsed have l: "2 \<le> ?l"
    and rec: "parseTLVsFrom ?d (0 + ?l + pad4 ?l) [attrAt ?d 0] = Ok (a # as)"
    unfolding parseTLVs_def parseTLVsFrom_step [OF len] nth Let_def
    by (auto split: if_splits)
  from parseTLVsFrom_extends [OF rec] have "attrAt ?d 0 = a" by simp
  moreover have "unat (Length (attrAt ?d 0)) = ?l - 2"
    unfolding attrAt_def Let_def nth using u8_bound [of "Length a"] by (simp add: unat_of_nat)
  ultimately show False using l by simp
qed

lemma grouped_subattributes_not_read_back_witness:
  "parseTLVs (concat (map groupedSubAttr
      [\<lparr>Type = AttrFloorID, Length = 2, Value = [0, 7], RawTLV = False\<rparr>]))
    \<noteq> Ok [\<lparr>Type = AttrFloorID, Length = 2, Value = [0, 7], RawTLV = False\<rparr>]"
  by (rule grouped_subattributes_not_read_back) simp_all

end
