(* ===== verification/Transport.thy ===== *)
theory Transport
  imports Grouped
begin

text \<open>
  The connections of \<^verbatim>\<open>transport.go\<close>: a TCP transport, a UDP transport (one per remote
  address, all on the listener's socket), the UDP listener, and the framing of
  \<^verbatim>\<open>ReadMessage\<close> and \<^verbatim>\<open>Transport.readLoop\<close> over what the connection delivers. A network
  address is its \<^verbatim>\<open>String()\<close>. Whether a socket write (with the deadline set before it)
  succeeds is an argument.
\<close>

section \<open>Transports\<close>

type_synonym ConnectionRole = u8

definition RoleActive :: ConnectionRole where
  [go_consts]: "RoleActive = 0"

definition RolePassive :: ConnectionRole where
  [go_consts]: "RolePassive = 1"

definition RoleActpass :: ConnectionRole where
  [go_consts]: "RoleActpass = 2"

definition ConnectionRole_String :: "ConnectionRole \<Rightarrow> string" where
  "ConnectionRole_String r =
     (if r = RoleActive then ''active''
      else if r = RolePassive then ''passive''
      else if r = RoleActpass then ''actpass''
      else ''unknown('' @ fmt_d (unat r) @ '')'')"

text \<open>
  \<open>tr_keepalive\<close> says that an interval and a sender are installed, \<open>tr_loops\<close> counts the
  running keepalive goroutines.
\<close>

record Transport =
  tr_RemoteAddr :: string
  tr_Role :: ConnectionRole
  tr_closed :: bool
  tr_keepalive :: bool
  tr_loops :: nat

record UDPTransport =
  udp_RemoteAddr :: string
  udp_closed :: bool

datatype send_error = TransportIsClosed | EncodeFailed encode_error | WriteFailed

definition NewTransport :: "string \<Rightarrow> ConnectionRole \<Rightarrow> Transport" where
  "NewTransport remote role =
     \<lparr>tr_RemoteAddr = remote, tr_Role = role, tr_closed = False, tr_keepalive = False, tr_loops = 0\<rparr>"

definition NewUDPTransport :: "string \<Rightarrow> UDPTransport" where
  "NewUDPTransport remoteAddr = \<lparr>udp_RemoteAddr = remoteAddr, udp_closed = False\<rparr>"

text \<open>The bytes that go to the connection; the same steps on both kinds of transport.\<close>

definition tr_SendMessage ::
    "bool \<Rightarrow> message \<Rightarrow> Transport \<Rightarrow> (send_error, message \<times> byte list) res" where
  "tr_SendMessage write_ok msg t =
     (if tr_closed t then Fail TransportIsClosed
      else case Encode msg of
          Ok (msg, data) \<Rightarrow> if write_ok then Ok (msg, data) else Fail WriteFailed
        | Fail err \<Rightarrow> Fail (EncodeFailed err)
        | Panic \<Rightarrow> Panic)"

definition udp_SendMessage ::
    "bool \<Rightarrow> message \<Rightarrow> UDPTransport \<Rightarrow> (send_error, message \<times> byte list) res" where
  "udp_SendMessage write_ok msg t =
     (if udp_closed t then Fail TransportIsClosed
      else case Encode msg of
          Ok (msg, data) \<Rightarrow> if write_ok then Ok (msg, data) else Fail WriteFailed
        | Fail err \<Rightarrow> Fail (EncodeFailed err)
        | Panic \<Rightarrow> Panic)"

definition tr_SendRawData :: "bool \<Rightarrow> byte list \<Rightarrow> Transport \<Rightarrow> (send_error, byte list) res" where
  "tr_SendRawData write_ok data t =
     (if tr_closed t then Fail TransportIsClosed
      else if write_ok then Ok data else Fail WriteFailed)"

definition udp_SendRawData ::
    "bool \<Rightarrow> byte list \<Rightarrow> UDPTransport \<Rightarrow> (send_error, byte list) res" where
  "udp_SendRawData write_ok data t =
     (if udp_closed t then Fail TransportIsClosed
      else if write_ok then Ok data else Fail WriteFailed)"

text \<open>\<^verbatim>\<open>Close\<close> cancels the context and waits for the keepalive goroutines to end.\<close>

definition tr_Close :: "Transport \<Rightarrow> Transport" where
  "tr_Close t = (if tr_closed t then t else t\<lparr>tr_closed := True, tr_loops := 0\<rparr>)"

definition udp_Close :: "UDPTransport \<Rightarrow> UDPTransport" where
  "udp_Close t = (if udp_closed t then t else t\<lparr>udp_closed := True\<rparr>)"

definition EnableKeepalive :: "bool \<Rightarrow> Transport \<Rightarrow> Transport" where
  "EnableKeepalive interval_positive t = t\<lparr>tr_keepalive := interval_positive\<rparr>"

definition StartKeepalive :: "Transport \<Rightarrow> Transport" where
  "StartKeepalive t = (if tr_keepalive t then t\<lparr>tr_loops := Suc (tr_loops t)\<rparr> else t)"

section \<open>Reading from a stream\<close>

text \<open>
  What a connection delivers between two pauses is a list of bytes. \<^verbatim>\<open>io.ReadFull\<close> takes
  the bytes it is asked for, or consumes what there is and fails: with the deadline's
  timeout when the pause comes, with \<^verbatim>\<open>EOF\<close> when the peer has closed.
\<close>

datatype read_error = ShortHeader | ShortPayload | DecodeFailed decode_error

definition ReadFull :: "nat \<Rightarrow> byte list \<Rightarrow> byte list option \<times> byte list" where
  "ReadFull n r = (if n \<le> length r then (Some (take n r), drop n r) else (None, []))"

definition decodeResult :: "(decode_error, message) res \<Rightarrow> (read_error, message) res" where
  "decodeResult x = (case x of Ok m \<Rightarrow> Ok m | Fail err \<Rightarrow> Fail (DecodeFailed err) | Panic \<Rightarrow> Panic)"

definition ReadMessage :: "byte list \<Rightarrow> (read_error, message) res \<times> byte list" where
  "ReadMessage r =
     (case ReadFull CommonHeaderLength r of
        (None, r) \<Rightarrow> (Fail ShortHeader, r)
      | (Some header, r) \<Rightarrow>
          (case bind_res (slice header 2 4) Uint16 of
             Ok payloadLength \<Rightarrow>
               let payloadSize = unat payloadLength * 4 in
               if payloadSize > 0 then
                 (case ReadFull payloadSize r of
                    (None, r) \<Rightarrow> (Fail ShortPayload, r)
                  | (Some payload, r) \<Rightarrow> (decodeResult (Decode (header @ payload)), r))
               else (decodeResult (Decode header), r)
           | Fail err \<Rightarrow> (Fail (DecodeFailed err), r)
           | Panic \<Rightarrow> (Panic, r)))"

text \<open>
  \<^verbatim>\<open>readLoop\<close>: the stream is the list of its parts, each part ended by a pause longer than
  the read deadline and the last one by the peer. Running out of bytes in a part that is
  not the last is a timeout, on which the loop goes on; in the last one it is an EOF. Any
  decode error ends the loop. The result is the messages given to \<^verbatim>\<open>OnMessage\<close> and how the
  loop ended.
\<close>

datatype loop_end = PeerClosed | ReadFailed decode_error | LoopPanic

lemma ReadMessage_consumes:
  assumes "ReadMessage r = (x, r')" "r \<noteq> []" "x \<noteq> Fail ShortHeader"
  shows "length r' < length r"
  using assms
  by (auto simp: ReadMessage_def ReadFull_def Let_def decodeResult_def
      split: if_splits option.splits prod.splits res.splits)

function readLoop :: "byte list list \<Rightarrow> message list \<Rightarrow> message list \<times> loop_end" where
  "readLoop [] out = (out, PeerClosed)"
| "readLoop (r # rs) out =
     (if r = [] then readLoop rs out
      else case ReadMessage r of
          (Ok m, r') \<Rightarrow> readLoop (r' # rs) (out @ [m])
        | (Fail (DecodeFailed err), _) \<Rightarrow> (out, ReadFailed err)
        | (Fail _, _) \<Rightarrow> readLoop rs out
        | (Panic, _) \<Rightarrow> (out, LoopPanic))"
  by pat_completeness auto
termination
proof (relation "measure (\<lambda>(rs, out). sum_list (map length rs) + length rs)", goal_cases)
  case (3 r rs out x r' m)
  then have "ReadMessage r = (Ok m, r')" by (cases "ReadMessage r") auto
  from ReadMessage_consumes [OF this 3(1)] show ?case by simp
qed auto

section \<open>The UDP listener\<close>

record UDPListener =
  ul_sessions :: "(string, nat) gomap"
  ul_closed :: bool

text \<open>Who is known on the socket, and where its messages go.\<close>

definition GetTransport :: "string \<Rightarrow> UDPListener \<Rightarrow> nat option" where
  "GetTransport remoteAddr l = lookup (ul_sessions l) remoteAddr"

definition SetRemoteAddr :: "string \<Rightarrow> UDPTransport \<Rightarrow> UDPTransport" where
  "SetRemoteAddr addr t = t\<lparr>udp_RemoteAddr := addr\<rparr>"

section \<open>Framing\<close>

text \<open>\<^verbatim>\<open>WriteMessage\<close> writes to any writer, with no transport that could be closed.\<close>

definition WriteMessage :: "bool \<Rightarrow> message \<Rightarrow> (send_error, message \<times> byte list) res" where
  "WriteMessage write_ok msg =
     (case Encode msg of
        Ok (msg, data) \<Rightarrow> if write_ok then Ok (msg, data) else Fail WriteFailed
      | Fail err \<Rightarrow> Fail (EncodeFailed err)
      | Panic \<Rightarrow> Panic)"

text \<open>A complete message is read whole, and nothing after it is touched.\<close>

lemma Decode_PayloadLength:
  assumes "Decode bs = Ok m"
  shows "PayloadLength m = be16 (take 2 (drop 2 bs))" "12 \<le> length bs"
proof -
  show len: "12 \<le> length bs" using assms by (auto simp: Decode_def split: if_splits)
  show "PayloadLength m = be16 (take 2 (drop 2 bs))"
    using assms by (auto simp: Decode_unfold [OF len] Let_def bind_res_Ok_iff split: if_splits)
qed

text \<open>The two reads, with the length the header announces.\<close>

lemma ReadMessage_reads:
  assumes "12 \<le> length r"
  defines "n \<equiv> unat (be16 (take 2 (drop 2 r))) * 4"
  shows "ReadMessage r =
    (if length r < 12 + n then (Fail ShortPayload, [])
     else (decodeResult (Decode (take (12 + n) r)), drop (12 + n) r))"
proof -
  have "take 2 (drop 2 (take 12 r)) = take 2 (drop 2 r)" by (simp add: drop_take min_def)
  moreover have "take 12 r @ take n (drop 12 r) = take (12 + n) r" by (simp add: take_add)
  moreover have "drop n (drop 12 r) = drop (12 + n) r" by (simp add: add.commute)
  moreover have "slice (take 12 r) 2 4 = (Ok (take 2 (drop 2 (take 12 r))) :: (decode_error, byte list) res)"
    using assms(1) by simp
  ultimately show ?thesis
    using assms(1) by (auto simp: ReadMessage_def ReadFull_def Let_def n_def [symmetric])
qed

lemma ReadMessage_complete:
  assumes "Decode bs = Ok m" "length bs = 12 + 4 * unat (PayloadLength m)"
  shows "ReadMessage (bs @ rest) = (Ok m, rest)"
proof -
  note d = Decode_PayloadLength [OF assms(1)]
  have pl: "be16 (take 2 (drop 2 (bs @ rest))) = PayloadLength m" using d by simp
  have len: "12 + unat (PayloadLength m) * 4 = length bs" using assms(2) by simp
  have "12 \<le> length (bs @ rest)" using d by simp
  from ReadMessage_reads [OF this, unfolded pl len] assms(1) show ?thesis
    by (simp add: decodeResult_def)
qed

lemma ReadMessage_incomplete:
  assumes "Decode bs = Ok m" "length bs = 12 + 4 * unat (PayloadLength m)" "n < length bs"
  shows "ReadMessage (take n bs) = (Fail (if n < 12 then ShortHeader else ShortPayload), [])"
proof (cases "n < 12")
  case True
  with assms(3) show ?thesis by (simp add: ReadMessage_def ReadFull_def)
next
  case False
  note d = Decode_PayloadLength [OF assms(1)]
  have pl: "be16 (take 2 (drop 2 (take n bs))) = PayloadLength m"
    using d False by (simp add: drop_take min_def)
  have len: "12 + unat (PayloadLength m) * 4 = length bs" using assms(2) by simp
  have "12 \<le> length (take n bs)" using d False by simp
  from ReadMessage_reads [OF this, unfolded pl len] assms(3) False show ?thesis by simp
qed

text \<open>The bytes of the messages a peer sends.\<close>

fun wire :: "message list \<Rightarrow> byte list" where
  "wire [] = []"
| "wire (m # ms) = (case Encode m of Ok (_, bs) \<Rightarrow> bs @ wire ms | _ \<Rightarrow> wire ms)"

lemma wfMessage_stream:
  assumes "wfMessage m"
  obtains bs where "Encode m = Ok (withPayloadLength m, bs)" "Decode bs = Ok (decodedMessage m)"
    "length bs = 12 + 4 * unat (PayloadLength (decodedMessage m))" "bs \<noteq> []"
proof -
  from Decode_Encode_wf [OF assms] obtain bs where
    bs: "Encode m = Ok (withPayloadLength m, bs)" "Decode bs = Ok (decodedMessage m)" by blast
  have p4: "payloadSize m mod 4 = 0"
    using Encode_NotAligned [of m] bs(1) by auto
  have len: "length bs = 12 + payloadSize m"
    using Encode_Ok_length [OF p4] bs(1) by auto
  have "payloadSize m div 4 < 65536" using assms by (simp add: wfMessage_def less_mult_imp_div_less)
  then have "unat (PayloadLength (decodedMessage m)) = payloadSize m div 4"
    by (simp add: decodedMessage_def withPayloadLength_def unat_of_nat)
  then have "length bs = 12 + 4 * unat (PayloadLength (decodedMessage m))"
    using len p4 mult_div_mod_eq [of 4 "payloadSize m"] by linarith
  moreover have "bs \<noteq> []" using len by auto
  ultimately show ?thesis using that [OF bs] by blast
qed

text \<open>What is written on any writer is read back whole.\<close>

lemma WriteMessage_ReadMessage:
  assumes "wfMessage m"
  shows "\<exists>data. WriteMessage True m = Ok (withPayloadLength m, data) \<and>
    ReadMessage (data @ rest) = (Ok (decodedMessage m), rest)"
  by (rule wfMessage_stream [OF assms]) (auto simp: WriteMessage_def intro!: ReadMessage_complete)

lemma readLoop_wire:
  assumes "list_all wfMessage ms"
  shows "readLoop (wire ms # rs) out = readLoop ([] # rs) (out @ map decodedMessage ms)"
  using assms
proof (induction ms arbitrary: out)
  case (Cons m ms)
  then obtain bs where bs: "Encode m = Ok (withPayloadLength m, bs)" "Decode bs = Ok (decodedMessage m)"
    "length bs = 12 + 4 * unat (PayloadLength (decodedMessage m))" "bs \<noteq> []"
    using wfMessage_stream [of m] by auto
  show ?case
    using Cons ReadMessage_complete [OF bs(2,3)] bs(1,4) by simp
qed simp

section \<open>Properties\<close>

text \<open>C16. Framing over TCP: whatever well-formed messages the peer sends, and however the stream
  pauses between them, the read loop hands exactly these messages, decoded and in order, to the
  handler, and ends when the peer closes.\<close>
theorem stream_delivers_messages:
  assumes "list_all (list_all wfMessage) mss"
  shows "readLoop (map wire mss) [] = (map decodedMessage (concat mss), PeerClosed)"
proof -
  have "readLoop (map wire mss) out = (out @ map decodedMessage (concat mss), PeerClosed)" for out
    using assms
    by (induction mss arbitrary: out) (simp_all add: readLoop_wire del: readLoop.simps(2), simp)
  then show ?thesis by simp
qed

theorem stream_delivers_messages_witness:
  "readLoop (map wire [[NewMessage PrimitiveHello 1 7 4, NewMessage PrimitiveGoodbye 1 8 4], []]) []
     = (map decodedMessage [NewMessage PrimitiveHello 1 7 4, NewMessage PrimitiveGoodbye 1 8 4], PeerClosed)"
  using stream_delivers_messages
    [of "[[NewMessage PrimitiveHello 1 7 4, NewMessage PrimitiveGoodbye 1 8 4], []]"]
  by (simp add: wfMessage_def NewMessage_def payloadSize_def)

text \<open>C34. A pause inside a message loses the framing: the read deadline that fires after the first
  \<open>n\<close> bytes of a message makes the loop drop these bytes and go on with the rest as if a message
  began there.\<close>
theorem pause_inside_message_desynchronizes:
  assumes "wfMessage m" "Encode m = Ok (m', bs)" "0 < n" "n < length bs"
  shows "readLoop (take n bs # (drop n bs @ later) # parts) out = readLoop ((drop n bs @ later) # parts) out"
proof -
  from assms(1,2) have bs: "Decode bs = Ok (decodedMessage m)"
    "length bs = 12 + 4 * unat (PayloadLength (decodedMessage m))"
    using wfMessage_stream [OF assms(1)] by auto
  have "take n bs \<noteq> []" using assms(3,4) by auto
  with ReadMessage_incomplete [OF bs assms(4)] show ?thesis
    by (subst readLoop.simps) simp
qed

text \<open>A Hello that carries the twelve bytes of a Goodbye of user 9 in an attribute; the peer that
  pauses before these bytes has the Goodbye read instead.\<close>

theorem pause_inside_message_desynchronizes_witness:
  "\<exists>bs m'. Encode (AddAttribute AttrErrorInfo [0x20, 16, 0, 0, 0, 0, 0, 1, 0, 8, 0, 9]
             (NewMessage PrimitiveHello 1 7 4)) = Ok (m', bs) \<and>
     readLoop [take 14 bs, drop 14 bs] [] = ([NewMessage PrimitiveGoodbye 1 8 9], PeerClosed)"
proof -
  let ?m = "AddAttribute AttrErrorInfo [0x20, 16, 0, 0, 0, 0, 0, 1, 0, 8, 0, 9]
             (NewMessage PrimitiveHello 1 7 4)"
  let ?bs = "[0x20, 11, 0, 4, 0, 0, 0, 1, 0, 7, 0, 4, 15, 14, 0x20, 16, 0, 0, 0, 0, 0, 1, 0, 8, 0, 9, 0, 0]"
  have enc: "Encode ?m = Ok (withPayloadLength ?m, ?bs)" by code_simp
  have wf: "wfMessage ?m"
    by (simp add: wfMessage_def wfAttr_def AddAttribute_def NewMessage_def payloadSize_def attrSize_def)
  have "readLoop (take 14 ?bs # (drop 14 ?bs @ []) # []) [] = readLoop ((drop 14 ?bs @ []) # []) []"
    by (rule pause_inside_message_desynchronizes [OF wf enc]) simp_all
  moreover have "readLoop [drop 14 ?bs @ []] [] = ([NewMessage PrimitiveGoodbye 1 8 9], PeerClosed)"
    by code_simp
  ultimately have "readLoop [take 14 ?bs, drop 14 ?bs] [] = ([NewMessage PrimitiveGoodbye 1 8 9], PeerClosed)"
    by (simp only: append_Nil2)
  with enc show ?thesis by (intro exI conjI)
qed

end
