(* ===== verification/Floor.thy ===== *)
theory Floor
  imports Types
begin

text \<open>
  The floor state machine of \<^verbatim>\<open>state.go\<close>: its record, its operations (each runs under the
  floor's mutex, so each is one atomic step), its invariant, and the abstract floor it
  implements. \<^verbatim>\<open>time.Now()\<close> is an argument; the zero \<^verbatim>\<open>time.Time\<close> is \<open>None\<close>.
\<close>

section \<open>State and operations\<close>

type_synonym time = int

record FloorStateMachine =
  fsm_FloorID :: u16
  fsm_ConferenceID :: u32
  fsm_CurrentState :: RequestStatus
  fsm_OwnerUserID :: u16
  fsm_FloorRequestID :: u16
  fsm_Priority :: Priority
  fsm_CreatedAt :: time
  fsm_GrantedAt :: "time option"

datatype floor_error =
    AlreadyInUse u16 u16
  | InvalidFloorState RequestStatus
  | CannotGrant RequestStatus
  | CannotDeny RequestStatus
  | NotOwner u16 u16 u16
  | NoUserToRevoke

text \<open>The text of each error: the server sends it to the client in an ERROR-INFO.\<close>

fun floor_error_Error :: "floor_error \<Rightarrow> string" where
  "floor_error_Error (AlreadyInUse floorID owner) =
     ''floor '' @ fmt_d (unat floorID) @ '' already in use by user '' @ fmt_d (unat owner)"
| "floor_error_Error (InvalidFloorState s) = ''invalid floor state: '' @ RequestStatus_String s"
| "floor_error_Error (CannotGrant s) = ''cannot grant floor in state '' @ RequestStatus_String s"
| "floor_error_Error (CannotDeny s) = ''cannot deny floor in state '' @ RequestStatus_String s"
| "floor_error_Error (NotOwner userID floorID owner) =
     ''user '' @ fmt_d (unat userID) @ '' does not own floor '' @ fmt_d (unat floorID) @
     '' (owner: '' @ fmt_d (unat owner) @ '')''"
| "floor_error_Error NoUserToRevoke = ''no user to revoke''"

definition NewFloorStateMachine :: "time \<Rightarrow> u16 \<Rightarrow> u32 \<Rightarrow> FloorStateMachine" where
  "NewFloorStateMachine now floorID conferenceID =
     \<lparr>fsm_FloorID = floorID, fsm_ConferenceID = conferenceID,
      fsm_CurrentState = RequestStatusReleased, fsm_OwnerUserID = 0, fsm_FloorRequestID = 0,
      fsm_Priority = 0, fsm_CreatedAt = now, fsm_GrantedAt = None\<rparr>"

definition Request ::
    "u16 \<Rightarrow> u16 \<Rightarrow> Priority \<Rightarrow> FloorStateMachine \<Rightarrow>
     FloorStateMachine \<times> RequestStatus \<times> floor_error option" where
  "Request userID requestID priority fsm =
     (if fsm_CurrentState fsm = RequestStatusReleased then
        (fsm\<lparr>fsm_OwnerUserID := userID, fsm_FloorRequestID := requestID,
             fsm_Priority := priority, fsm_CurrentState := RequestStatusPending\<rparr>,
         RequestStatusPending, None)
      else if fsm_CurrentState fsm = RequestStatusPending \<or>
              fsm_CurrentState fsm = RequestStatusGranted then
        (fsm, RequestStatusDenied, Some (AlreadyInUse (fsm_FloorID fsm) (fsm_OwnerUserID fsm)))
      else (fsm, RequestStatusDenied, Some (InvalidFloorState (fsm_CurrentState fsm))))"

definition Grant :: "time \<Rightarrow> FloorStateMachine \<Rightarrow> FloorStateMachine \<times> floor_error option" where
  "Grant now fsm =
     (if fsm_CurrentState fsm \<noteq> RequestStatusPending
      then (fsm, Some (CannotGrant (fsm_CurrentState fsm)))
      else (fsm\<lparr>fsm_CurrentState := RequestStatusGranted, fsm_GrantedAt := Some now\<rparr>, None))"

definition Deny :: "FloorStateMachine \<Rightarrow> FloorStateMachine \<times> floor_error option" where
  "Deny fsm =
     (if fsm_CurrentState fsm \<noteq> RequestStatusPending
      then (fsm, Some (CannotDeny (fsm_CurrentState fsm)))
      else (fsm\<lparr>fsm_CurrentState := RequestStatusDenied, fsm_OwnerUserID := 0,
                fsm_FloorRequestID := 0\<rparr>, None))"

definition Release :: "u16 \<Rightarrow> FloorStateMachine \<Rightarrow> FloorStateMachine \<times> floor_error option" where
  "Release userID fsm =
     (if fsm_OwnerUserID fsm \<noteq> userID \<and> userID \<noteq> 0
      then (fsm, Some (NotOwner userID (fsm_FloorID fsm) (fsm_OwnerUserID fsm)))
      else (fsm\<lparr>fsm_CurrentState := RequestStatusReleased, fsm_OwnerUserID := 0,
                fsm_FloorRequestID := 0, fsm_Priority := 0\<rparr>, None))"

definition Revoke :: "FloorStateMachine \<Rightarrow> FloorStateMachine \<times> floor_error option" where
  "Revoke fsm =
     (let fsm1 = fsm\<lparr>fsm_CurrentState := RequestStatusRevoked\<rparr>;
          prevOwner = fsm_OwnerUserID fsm1;
          fsm2 = fsm1\<lparr>fsm_OwnerUserID := 0, fsm_FloorRequestID := 0\<rparr>;
          fsm3 = fsm2\<lparr>fsm_CurrentState := RequestStatusReleased\<rparr>
      in (fsm3, if prevOwner = 0 then Some NoUserToRevoke else None))"

definition GetState :: "FloorStateMachine \<Rightarrow> RequestStatus" where
  "GetState = fsm_CurrentState"

definition GetOwner :: "FloorStateMachine \<Rightarrow> u16" where
  "GetOwner = fsm_OwnerUserID"

definition fsm_GetFloorRequestID :: "FloorStateMachine \<Rightarrow> u16" where
  "fsm_GetFloorRequestID = fsm_FloorRequestID"

definition IsAvailable :: "FloorStateMachine \<Rightarrow> bool" where
  "IsAvailable fsm \<longleftrightarrow> fsm_CurrentState fsm = RequestStatusReleased"

definition IsGranted :: "FloorStateMachine \<Rightarrow> bool" where
  "IsGranted fsm \<longleftrightarrow> fsm_CurrentState fsm = RequestStatusGranted"

lemmas floor_defs = Request_def Grant_def Deny_def Release_def Revoke_def GetState_def
  GetOwner_def fsm_GetFloorRequestID_def IsAvailable_def IsGranted_def Let_def

section \<open>The abstract floor\<close>

text \<open>
  A floor is free, asked for by one request, held by one request, or, after a denial,
  closed.
\<close>

datatype floor = Free | Asked u16 u16 | Held u16 u16 | Closed

definition floor_abs :: "FloorStateMachine \<Rightarrow> floor" where
  "floor_abs fsm =
     (if fsm_CurrentState fsm = RequestStatusReleased then Free
      else if fsm_CurrentState fsm = RequestStatusPending
      then Asked (fsm_OwnerUserID fsm) (fsm_FloorRequestID fsm)
      else if fsm_CurrentState fsm = RequestStatusGranted
      then Held (fsm_OwnerUserID fsm) (fsm_FloorRequestID fsm)
      else Closed)"

definition floor_inv :: "FloorStateMachine \<Rightarrow> bool" where
  "floor_inv fsm \<longleftrightarrow>
     fsm_CurrentState fsm \<in>
       {RequestStatusReleased, RequestStatusPending, RequestStatusGranted, RequestStatusDenied} \<and>
     (fsm_CurrentState fsm \<in> {RequestStatusReleased, RequestStatusDenied} \<longrightarrow>
        fsm_OwnerUserID fsm = 0 \<and> fsm_FloorRequestID fsm = 0)"

datatype floor_op = OpRequest u16 u16 Priority | OpGrant time | OpDeny | OpRelease u16 | OpRevoke

fun run_op :: "floor_op \<Rightarrow> FloorStateMachine \<Rightarrow> FloorStateMachine" where
  "run_op (OpRequest u r p) f = fst (Request u r p f)"
| "run_op (OpGrant now) f = fst (Grant now f)"
| "run_op OpDeny f = fst (Deny f)"
| "run_op (OpRelease u) f = fst (Release u f)"
| "run_op OpRevoke f = fst (Revoke f)"

fun owner_of :: "floor \<Rightarrow> u16" where
  "owner_of (Asked u r) = u"
| "owner_of (Held u r) = u"
| "owner_of _ = 0"

fun abs_op :: "floor_op \<Rightarrow> floor \<Rightarrow> floor" where
  "abs_op (OpRequest u r p) Free = Asked u r"
| "abs_op (OpGrant now) (Asked u r) = Held u r"
| "abs_op OpDeny (Asked u r) = Closed"
| "abs_op (OpRelease u) a = (if u = owner_of a \<or> u = 0 then Free else a)"
| "abs_op OpRevoke a = Free"
| "abs_op oper a = a"

lemma floor_inv_New [simp]: "floor_inv (NewFloorStateMachine now floorID conferenceID)"
  by (simp add: floor_inv_def NewFloorStateMachine_def)

lemma floor_abs_New [simp]: "floor_abs (NewFloorStateMachine now floorID conferenceID) = Free"
  by (simp add: floor_abs_def NewFloorStateMachine_def)

lemma floor_inv_Request: "floor_inv f \<Longrightarrow> floor_inv (fst (Request u r p f))"
  by (auto simp: floor_inv_def floor_defs)

lemma floor_inv_Grant: "floor_inv f \<Longrightarrow> floor_inv (fst (Grant now f))"
  by (auto simp: floor_inv_def floor_defs)

lemma floor_inv_Deny: "floor_inv f \<Longrightarrow> floor_inv (fst (Deny f))"
  by (auto simp: floor_inv_def floor_defs)

lemma floor_inv_Release: "floor_inv f \<Longrightarrow> floor_inv (fst (Release u f))"
  by (auto simp: floor_inv_def floor_defs)

lemma floor_inv_Revoke: "floor_inv (fst (Revoke f))"
  by (simp add: floor_inv_def floor_defs)

lemmas floor_inv_ops = floor_inv_Request floor_inv_Grant floor_inv_Deny floor_inv_Release
  floor_inv_Revoke

lemma floor_inv_run_op: "floor_inv f \<Longrightarrow> floor_inv (run_op oper f)"
  by (cases oper) (simp_all add: floor_inv_ops)

lemma floor_abs_owner: "floor_inv f \<Longrightarrow> owner_of (floor_abs f) = fsm_OwnerUserID f"
  by (auto simp: floor_inv_def floor_abs_def)

lemma floor_abs_Request:
  "floor_abs (fst (Request u r p f)) = abs_op (OpRequest u r p) (floor_abs f)"
  by (simp add: floor_abs_def floor_defs)

lemma floor_abs_Grant: "floor_abs (fst (Grant now f)) = abs_op (OpGrant now') (floor_abs f)"
  by (simp add: floor_abs_def floor_defs)

lemma floor_abs_Deny: "floor_abs (fst (Deny f)) = abs_op OpDeny (floor_abs f)"
  by (simp add: floor_abs_def floor_defs)

lemma floor_abs_Release:
  "floor_inv f \<Longrightarrow> floor_abs (fst (Release u f)) = abs_op (OpRelease u) (floor_abs f)"
  by (auto simp: floor_abs_owner) (auto simp: floor_abs_def floor_defs)

lemma floor_abs_Revoke: "floor_abs (fst (Revoke f)) = abs_op OpRevoke (floor_abs f)"
  by (cases "floor_abs f") (simp_all add: floor_abs_def floor_defs)

lemma floor_abs_run_op: "floor_inv f \<Longrightarrow> floor_abs (run_op oper f) = abs_op oper (floor_abs f)"
  by (cases oper)
     (simp_all add: floor_abs_Request floor_abs_Grant floor_abs_Deny floor_abs_Release
       floor_abs_Revoke)

section \<open>The contract of a floor\<close>

text \<open>
  What the server relies on when it arbitrates a request: each operation acts on the
  abstract floor as specified and tells by its error whether it took effect.
\<close>

locale floor_control =
  fixes request :: "u16 \<Rightarrow> u16 \<Rightarrow> Priority \<Rightarrow> 'f \<Rightarrow> 'f \<times> RequestStatus \<times> 'e option"
    and grant :: "'f \<Rightarrow> 'f \<times> 'e option"
    and deny :: "'f \<Rightarrow> 'f \<times> 'e option"
    and release :: "u16 \<Rightarrow> 'f \<Rightarrow> 'f \<times> 'e option"
    and abs :: "'f \<Rightarrow> floor"
    and inv :: "'f \<Rightarrow> bool"
  assumes request_law: "inv f \<Longrightarrow> request u r p f = (f', s, e) \<Longrightarrow>
      inv f' \<and> abs f' = abs_op (OpRequest u r p) (abs f) \<and> (e = None \<longleftrightarrow> abs f = Free) \<and>
      s = (if e = None then RequestStatusPending else RequestStatusDenied)"
    and grant_law: "inv f \<Longrightarrow> grant f = (f', e) \<Longrightarrow>
      inv f' \<and> abs f' = abs_op (OpGrant now) (abs f) \<and> (e = None \<longleftrightarrow> (\<exists>u r. abs f = Asked u r))"
    and deny_law: "inv f \<Longrightarrow> deny f = (f', e) \<Longrightarrow>
      inv f' \<and> abs f' = abs_op OpDeny (abs f) \<and> (e = None \<longleftrightarrow> (\<exists>u r. abs f = Asked u r))"
    and release_law: "inv f \<Longrightarrow> release u f = (f', e) \<Longrightarrow>
      inv f' \<and> abs f' = abs_op (OpRelease u) (abs f) \<and> (e = None \<longleftrightarrow> u = owner_of (abs f) \<or> u = 0)"
begin

lemma request_free:
  assumes "inv f" "abs f = Free"
  obtains f' where "request u r p f = (f', RequestStatusPending, None)" "inv f'" "abs f' = Asked u r"
  using request_law [OF assms(1)] assms(2) by (cases "request u r p f") fastforce

lemma request_taken:
  assumes "inv f" "abs f \<noteq> Free"
  obtains f' e where "request u r p f = (f', RequestStatusDenied, Some e)" "inv f'" "abs f' = abs f"
proof -
  obtain f' s e where r: "request u r p f = (f', s, e)" by (cases "request u r p f")
  have "abs_op (OpRequest u r p) (abs f) = abs f" using assms(2) by (cases "abs f") auto
  with request_law [OF assms(1) r] assms(2) r that show ?thesis by auto
qed

lemma grant_asked:
  assumes "inv f" "abs f = Asked u r"
  obtains f' where "grant f = (f', None)" "inv f'" "abs f' = Held u r"
  using grant_law [OF assms(1)] assms(2) by (cases "grant f") fastforce

lemma deny_asked:
  assumes "inv f" "abs f = Asked u r"
  obtains f' where "deny f = (f', None)" "inv f'" "abs f' = Closed"
  using deny_law [OF assms(1)] assms(2) by (cases "deny f") fastforce

text \<open>Arbitration: a request that is accepted and then granted ends in the floor being held.\<close>

lemma request_then_grant:
  assumes "inv f" "request u r p f = (f1, s, None)"
  shows "\<exists>f2. grant f1 = (f2, None) \<and> inv f2 \<and> abs f2 = Held u r"
proof -
  from request_law [OF assms] have "inv f1" "abs f1 = Asked u r" by auto
  then show ?thesis by (metis grant_asked)
qed

lemma request_then_deny:
  assumes "inv f" "request u r p f = (f1, s, None)"
  shows "\<exists>f2. deny f1 = (f2, None) \<and> inv f2 \<and> abs f2 = Closed"
proof -
  from request_law [OF assms] have "inv f1" "abs f1 = Asked u r" by auto
  then show ?thesis by (metis deny_asked)
qed

lemma release_by_other:
  assumes "inv f" "u \<noteq> owner_of (abs f)" "u \<noteq> 0"
  shows "\<exists>f' e. release u f = (f', Some e) \<and> inv f' \<and> abs f' = abs f"
  using release_law [OF assms(1)] assms(2,3) by (cases "release u f") fastforce

lemma release_by_owner:
  assumes "inv f" "u = owner_of (abs f) \<or> u = 0"
  shows "\<exists>f'. release u f = (f', None) \<and> inv f' \<and> abs f' = Free"
  using release_law [OF assms(1)] assms(2) by (cases "release u f") fastforce

end

lemma abs_asked_iff: "(\<exists>u r. floor_abs f = Asked u r) \<longleftrightarrow> fsm_CurrentState f = RequestStatusPending"
  by (simp add: floor_abs_def)

lemma Request_error_iff: "snd (snd (Request u r p f)) = None \<longleftrightarrow> floor_abs f = Free"
  by (simp add: floor_abs_def Request_def)

lemma Request_status:
  "fst (snd (Request u r p f))
     = (if snd (snd (Request u r p f)) = None then RequestStatusPending else RequestStatusDenied)"
  by (simp add: Request_def)

lemma Grant_error_iff: "snd (Grant now f) = None \<longleftrightarrow> (\<exists>u r. floor_abs f = Asked u r)"
  by (simp add: abs_asked_iff Grant_def)

lemma Deny_error_iff: "snd (Deny f) = None \<longleftrightarrow> (\<exists>u r. floor_abs f = Asked u r)"
  by (simp add: abs_asked_iff Deny_def)

lemma Release_error_iff:
  "floor_inv f \<Longrightarrow> snd (Release u f) = None \<longleftrightarrow> u = owner_of (floor_abs f) \<or> u = 0"
  by (auto simp: floor_abs_owner Release_def)

interpretation fsm: floor_control Request "Grant now" Deny Release floor_abs floor_inv for now
proof (unfold_locales, goal_cases)
  case (1 f u r p f' s e)
  then have eqs: "f' = fst (Request u r p f)" "s = fst (snd (Request u r p f))"
    "e = snd (snd (Request u r p f))" by simp_all
  show ?case
    unfolding eqs using 1(1)
    by (intro conjI floor_inv_Request floor_abs_Request Request_error_iff Request_status)
next
  case (2 f f' e now')
  then have eqs: "f' = fst (Grant now f)" "e = snd (Grant now f)" by simp_all
  show ?case
    unfolding eqs using 2(1) by (intro conjI floor_inv_Grant floor_abs_Grant Grant_error_iff)
next
  case (3 f f' e)
  then have eqs: "f' = fst (Deny f)" "e = snd (Deny f)" by simp_all
  show ?case
    unfolding eqs using 3(1) by (intro conjI floor_inv_Deny floor_abs_Deny Deny_error_iff)
next
  case (4 f u f' e)
  then have eqs: "f' = fst (Release u f)" "e = snd (Release u f)" by simp_all
  show ?case
    unfolding eqs using 4(1)
    by (intro conjI floor_inv_Release floor_abs_Release Release_error_iff)
qed

section \<open>Runs\<close>

fun run_ops :: "floor_op list \<Rightarrow> FloorStateMachine \<Rightarrow> FloorStateMachine" where
  "run_ops [] f = f"
| "run_ops (oper # opers) f = run_ops opers (run_op oper f)"

fun abs_ops :: "floor_op list \<Rightarrow> floor \<Rightarrow> floor" where
  "abs_ops [] a = a"
| "abs_ops (oper # opers) a = abs_ops opers (abs_op oper a)"

text \<open>The operations that may take a granted floor away from user \<open>u\<close>.\<close>

fun takes_away :: "u16 \<Rightarrow> floor_op \<Rightarrow> bool" where
  "takes_away u (OpRelease v) \<longleftrightarrow> v = u \<or> v = 0"
| "takes_away u OpRevoke \<longleftrightarrow> True"
| "takes_away u _ \<longleftrightarrow> False"

fun reopens :: "floor_op \<Rightarrow> bool" where
  "reopens (OpRelease v) \<longleftrightarrow> v = 0"
| "reopens OpRevoke \<longleftrightarrow> True"
| "reopens _ \<longleftrightarrow> False"

lemma run_ops_refine:
  "floor_inv f \<Longrightarrow> floor_inv (run_ops opers f) \<and> floor_abs (run_ops opers f) = abs_ops opers (floor_abs f)"
  by (induction opers arbitrary: f) (simp_all add: floor_inv_run_op floor_abs_run_op)

lemma abs_ops_held:
  "list_all (\<lambda>oper. \<not> takes_away u oper) opers \<Longrightarrow> abs_ops opers (Held u r) = Held u r"
proof (induction opers)
  case (Cons oper opers)
  then have "abs_op oper (Held u r) = Held u r" by (cases oper) auto
  with Cons show ?case by simp
qed simp

lemma abs_ops_closed:
  "list_all (\<lambda>oper. \<not> reopens oper) opers \<Longrightarrow> abs_ops opers Closed = Closed"
proof (induction opers)
  case (Cons oper opers)
  then have "abs_op oper Closed = Closed" by (cases oper) auto
  with Cons show ?case by simp
qed simp

section \<open>Properties\<close>

text \<open>C13. Refinement: every sequence of operations keeps a floor well formed (its state is
  Released, Pending, Granted or Denied, and no one owns a released or denied floor) and acts on
  the abstract floor as the abstract operations do.\<close>
theorem floor_refines:
  assumes "floor_inv f"
  shows "floor_inv (run_ops opers f) \<and> floor_abs (run_ops opers f) = abs_ops opers (floor_abs f)"
  using assms by (rule run_ops_refine)

theorem floor_refines_witness:
  "floor_abs (run_ops [OpRequest 4 9 512, OpGrant 0, OpRequest 5 10 512, OpRelease 4]
     (NewFloorStateMachine 0 1 1)) = Free"
  using floor_refines [OF floor_inv_New, of
      "[OpRequest 4 9 512, OpGrant 0, OpRequest 5 10 512, OpRelease 4]" 0 1 1]
  by (simp del: run_ops.simps)

text \<open>Exclusive holding: a floor granted to a user for a request stays granted to that
  user and request through any sequence of requests, grants, denials and releases by others;
  only that user, user 0 or a revocation takes it away. Every request meanwhile is refused.\<close>
lemma granted_until_released:
  assumes "floor_inv f" "floor_abs f = Held u r"
    and "list_all (\<lambda>oper. \<not> takes_away u oper) opers"
  shows "floor_abs (run_ops opers f) = Held u r \<and>
    (\<exists>f' e. Request v r' p (run_ops opers f) = (f', RequestStatusDenied, Some e) \<and>
            floor_abs f' = Held u r)"
proof -
  from run_ops_refine [OF assms(1)] abs_ops_held [OF assms(3)] assms(2)
  have h: "floor_inv (run_ops opers f)" "floor_abs (run_ops opers f) = Held u r" by simp_all
  then show ?thesis using fsm.request_taken [OF h(1)] by (metis floor.distinct(3))
qed

lemma granted_until_released_witness:
  "floor_abs (run_ops [OpRequest 5 10 512, OpRelease 5, OpDeny]
     (run_ops [OpRequest 4 9 512, OpGrant 0] (NewFloorStateMachine 0 1 1))) = Held 4 9"
proof -
  let ?f = "run_ops [OpRequest 4 9 512, OpGrant 0] (NewFloorStateMachine 0 1 1)"
  have "floor_inv ?f" "floor_abs ?f = Held 4 9"
    by (simp_all add: floor_inv_def floor_abs_def floor_defs NewFloorStateMachine_def)
  from granted_until_released [OF this, of "[OpRequest 5 10 512, OpRelease 5, OpDeny]"]
  show ?thesis by simp
qed

text \<open>A denied request closes the floor for everybody: after \<^verbatim>\<open>Deny\<close> no sequence of
  requests, grants, denials and releases by users other than 0 makes the floor usable again, and
  every request is refused as made in an invalid state.\<close>
lemma denied_floor_stays_closed:
  assumes "floor_inv f" "Deny f = (f1, None)"
    and "list_all (\<lambda>oper. \<not> reopens oper) opers"
  shows "snd (Request v r p (run_ops opers f1))
    = (RequestStatusDenied, Some (InvalidFloorState RequestStatusDenied))"
proof -
  from assms(1,2) have "floor_inv f1" "floor_abs f1 = Closed"
    using floor_inv_Deny [OF assms(1)] by (auto simp: Deny_def floor_abs_def split: if_splits)
  with run_ops_refine abs_ops_closed [OF assms(3)]
  have "floor_inv (run_ops opers f1)" "floor_abs (run_ops opers f1) = Closed" by simp_all
  then show ?thesis
    by (auto simp: floor_inv_def floor_abs_def Request_def split: if_splits)
qed

lemma denied_floor_stays_closed_witness:
  "snd (Request 5 10 512 (run_ops [OpRelease 4, OpRequest 4 11 1023]
     (fst (Deny (fst (Request 4 9 512 (NewFloorStateMachine 0 1 1)))))))
    = (RequestStatusDenied, Some (InvalidFloorState RequestStatusDenied))"
  by (rule denied_floor_stays_closed [of "fst (Request 4 9 512 (NewFloorStateMachine 0 1 1))"])
     (simp_all add: floor_inv_Request Request_def Deny_def NewFloorStateMachine_def floor_inv_def)

end
