(* ===== verification/Session.thy ===== *)
theory Session
  imports Floor
begin

text \<open>
  The session state machine of \<^verbatim>\<open>state.go\<close>: the state a server keeps per connection. The
  setters are what the handlers of the server use; each runs under the session's mutex.
\<close>

record SessionStateMachine =
  ssm_CurrentState :: SessionState
  ssm_ConferenceID :: u32
  ssm_UserID :: u16
  ssm_RemoteAddr :: string
  ssm_ClientVersion :: u8
  ssm_SupportedPrimitives :: "Primitive list"
  ssm_SupportedAttributes :: "AttributeType list"
  ssm_CreatedAt :: time
  ssm_LastActivityAt :: time

text \<open>The conference identifier comes in as 16 bits.\<close>

definition NewSessionStateMachine ::
    "time \<Rightarrow> u16 \<Rightarrow> u16 \<Rightarrow> string \<Rightarrow> SessionStateMachine" where
  "NewSessionStateMachine now conferenceID userID remoteAddr =
     \<lparr>ssm_CurrentState = StateConnected, ssm_ConferenceID = ucast conferenceID,
      ssm_UserID = userID, ssm_RemoteAddr = remoteAddr, ssm_ClientVersion = 0,
      ssm_SupportedPrimitives = [], ssm_SupportedAttributes = [],
      ssm_CreatedAt = now, ssm_LastActivityAt = now\<rparr>"

definition UpdateActivity :: "time \<Rightarrow> SessionStateMachine \<Rightarrow> SessionStateMachine" where
  "UpdateActivity now ssm = ssm\<lparr>ssm_LastActivityAt := now\<rparr>"

definition SetState :: "time \<Rightarrow> SessionState \<Rightarrow> SessionStateMachine \<Rightarrow> SessionStateMachine" where
  "SetState now state ssm = ssm\<lparr>ssm_CurrentState := state, ssm_LastActivityAt := now\<rparr>"

definition ssm_GetState :: "SessionStateMachine \<Rightarrow> SessionState" where
  "ssm_GetState = ssm_CurrentState"

definition SetSupportedPrimitives ::
    "Primitive list \<Rightarrow> SessionStateMachine \<Rightarrow> SessionStateMachine" where
  "SetSupportedPrimitives primitives ssm = ssm\<lparr>ssm_SupportedPrimitives := primitives\<rparr>"

definition SetSupportedAttributes ::
    "AttributeType list \<Rightarrow> SessionStateMachine \<Rightarrow> SessionStateMachine" where
  "SetSupportedAttributes attributes ssm = ssm\<lparr>ssm_SupportedAttributes := attributes\<rparr>"

definition GetIdleDuration :: "time \<Rightarrow> SessionStateMachine \<Rightarrow> time" where
  "GetIdleDuration now ssm = now - ssm_LastActivityAt ssm"

end
