(* ===== verification/Server_State.thy ===== *)
theory Server_State
  imports Transport Session
begin

text \<open>
  The state of the server of \<^verbatim>\<open>server.go\<close> and the operations every handler is made of. Go's
  pointers are explicit: floors, sessions, transports and client roles live in heaps indexed
  by numbers, and the server's maps hold those numbers, so that an object that has left a map
  and is still referenced (by a handler that sleeps, say) stays what it is. What the outside
  world does is an environment: the clock, the outcome of the n-th socket write, and the order
  of the n-th \<^verbatim>\<open>range\<close> over a map, all arbitrary. Everything observable, the bytes written and
  the callbacks called, goes to an event log in order.
\<close>

section \<open>Configuration, callbacks, environment\<close>

record ServerConfig =
  cfg_ConferenceID :: u32
  cfg_AutoGrant :: bool
  cfg_MaxFloors :: int
  cfg_SessionTimeout :: int

definition DefaultServerConfig :: "u32 \<Rightarrow> ServerConfig" where
  "DefaultServerConfig conferenceID =
     \<lparr>cfg_ConferenceID = conferenceID, cfg_AutoGrant = True, cfg_MaxFloors = 10,
      cfg_SessionTimeout = 300\<rparr>"

text \<open>
  Whether each callback is set. \<^verbatim>\<open>OnFloorRequest\<close> answers, so it is the function itself.
\<close>

record Callbacks =
  cb_OnFloorRequest :: "(u16 \<Rightarrow> u16 \<Rightarrow> u16 \<Rightarrow> bool) option"
  cb_OnFloorGranted :: bool
  cb_OnFloorReleased :: bool
  cb_OnFloorDenied :: bool
  cb_OnClientConnect :: bool
  cb_OnClientDisconnect :: bool
  cb_OnMessageIn :: bool
  cb_OnMessageOut :: bool

record Env =
  env_now :: time
  env_write :: "nat \<Rightarrow> bool"
  env_floors :: "nat \<Rightarrow> (u16, nat) gomap \<Rightarrow> (u16, nat) gomap"
  env_sessions :: "nat \<Rightarrow> (string, nat) gomap \<Rightarrow> (string, nat) gomap"

datatype event =
    Sent string "byte list"
  | FloorRequested u16 u16 u16
  | FloorGranted u16 u16 u16
  | FloorReleased u16 u16
  | FloorDenied u16 u16 u16
  | ClientConnect string u16
  | ClientDisconnect string u16
  | MessageIn string string u8 u32 u32 u16 u16
  | MessageOut string string u8 u32 u32 u16 u16
  | OwnGranted string u16 u16
  | OwnDenied string u16 u16
  | OwnReleased string u16
  | OtherStatus string u16 u16 RequestStatus
  | ClientError string string

section \<open>The client role on the server's socket\<close>

text \<open>
  \<^verbatim>\<open>udpclient.go\<close>: the state of a \<^verbatim>\<open>UDPClient\<close>. Each transaction waits on a channel of capacity
  one; channels are numbered, \<open>uc_chan_at\<close> gives what a channel holds. The events \<open>Own...\<close>,
  \<open>OtherStatus\<close> and \<open>ClientError\<close> above are the calls of the client's own callbacks.
\<close>

record ActiveFloorRequest =
  afr_FloorID :: u16
  afr_FloorRequestID :: u16
  afr_BeneficiaryID :: u16
  afr_Priority :: Priority
  afr_Status :: RequestStatus
  afr_RequestedAt :: time
  afr_GrantedAt :: "time option"

record UDPClientConfig =
  ucc_ConferenceID :: u32
  ucc_UserID :: u16
  ucc_Version :: u8
  ucc_T1 :: int
  ucc_MaxRetries :: int

record UDPClient =
  uc_config :: UDPClientConfig
  uc_transport :: nat
  uc_remote :: string
  uc_nextTxID :: u32
  uc_closed :: bool
  uc_pending :: "(u16, nat) gomap"
  uc_chan_at :: "nat \<Rightarrow> message option"
  uc_fresh_chan :: nat
  uc_activeRequests :: "(u16, ActiveFloorRequest) gomap"
  uc_OnFloorGranted :: bool
  uc_OnFloorDenied :: bool
  uc_OnFloorReleased :: bool
  uc_OnFloorStatus :: bool
  uc_OnError :: bool

section \<open>Sessions and the server\<close>

record Session =
  se_Transport :: "nat option"
  se_UDPTransport :: "nat option"
  se_StateMachine :: SessionStateMachine

record Server =
  sv_config :: ServerConfig
  sv_callbacks :: Callbacks
  sv_udpListener :: "UDPListener option"
  sv_floors :: "(u16, nat) gomap"
  sv_sessions :: "(string, nat) gomap"
  sv_udpClients :: "(string, nat) gomap"
  sv_nextTxID :: u32
  sv_floor_at :: "nat \<Rightarrow> FloorStateMachine"
  sv_session_at :: "nat \<Rightarrow> Session"
  sv_transport_at :: "nat \<Rightarrow> Transport"
  sv_udp_at :: "nat \<Rightarrow> UDPTransport"
  sv_client_at :: "nat \<Rightarrow> UDPClient"
  sv_fresh :: nat
  sv_ticks :: nat
  sv_log :: "event list"
  sv_panicked :: bool

definition ProtocolVersion_of :: "Session \<Rightarrow> u8" where
  "ProtocolVersion_of sess =
     (if ssm_ClientVersion (se_StateMachine sess) > 0 then ssm_ClientVersion (se_StateMachine sess)
      else if se_UDPTransport sess \<noteq> None then ProtocolVersionRFC8855
      else ProtocolVersionRFC4582)"

text \<open>The heaps start with placeholder objects that no pointer of the server refers to.\<close>

definition placeholder_client :: UDPClient where
  "placeholder_client =
     \<lparr>uc_config = \<lparr>ucc_ConferenceID = 0, ucc_UserID = 0, ucc_Version = 0, ucc_T1 = 0,
                    ucc_MaxRetries = 0\<rparr>,
      uc_transport = 0, uc_remote = [], uc_nextTxID = 0, uc_closed = True, uc_pending = [],
      uc_chan_at = (\<lambda>_. None), uc_fresh_chan = 0, uc_activeRequests = [],
      uc_OnFloorGranted = False, uc_OnFloorDenied = False, uc_OnFloorReleased = False,
      uc_OnFloorStatus = False, uc_OnError = False\<rparr>"

definition NewServer :: "ServerConfig \<Rightarrow> Callbacks \<Rightarrow> Server" where
  "NewServer config callbacks =
     \<lparr>sv_config = config, sv_callbacks = callbacks, sv_udpListener = None, sv_floors = [],
      sv_sessions = [], sv_udpClients = [], sv_nextTxID = 0,
      sv_floor_at = (\<lambda>_. NewFloorStateMachine 0 0 0),
      sv_session_at = (\<lambda>_. \<lparr>se_Transport = None, se_UDPTransport = None,
                           se_StateMachine = NewSessionStateMachine 0 0 0 []\<rparr>),
      sv_transport_at = (\<lambda>_. NewTransport [] RolePassive), sv_udp_at = (\<lambda>_. NewUDPTransport []),
      sv_client_at = (\<lambda>_. placeholder_client),
      sv_fresh = 0, sv_ticks = 0, sv_log = [], sv_panicked = False\<rparr>"

section \<open>Effects\<close>

definition emit :: "event \<Rightarrow> Server \<Rightarrow> Server" where
  "emit ev s = s\<lparr>sv_log := sv_log s @ [ev]\<rparr>"

definition emit_if :: "bool \<Rightarrow> event \<Rightarrow> Server \<Rightarrow> Server" where
  "emit_if b ev s = (if b then emit ev s else s)"

definition tick :: "Server \<Rightarrow> Server" where
  "tick s = s\<lparr>sv_ticks := Suc (sv_ticks s)\<rparr>"

text \<open>
  A run-time panic ends the process. The flag records it; what the model does afterwards means
  nothing, and the invariant of the server shows that it is never raised.
\<close>

definition panic :: "Server \<Rightarrow> Server" where
  "panic s = s\<lparr>sv_panicked := True\<rparr>"

definition nextTxID_Add :: "Server \<Rightarrow> Server \<times> u16" where
  "nextTxID_Add s =
     (let n = sv_nextTxID s + 1 in (s\<lparr>sv_nextTxID := n\<rparr>, ucast n))"

definition update_floor :: "nat \<Rightarrow> FloorStateMachine \<Rightarrow> Server \<Rightarrow> Server" where
  "update_floor p f s = s\<lparr>sv_floor_at := (sv_floor_at s)(p := f)\<rparr>"

definition update_StateMachine ::
    "nat \<Rightarrow> (SessionStateMachine \<Rightarrow> SessionStateMachine) \<Rightarrow> Server \<Rightarrow> Server" where
  "update_StateMachine sid g s =
     s\<lparr>sv_session_at := (sv_session_at s)
         (sid := (sv_session_at s sid)\<lparr>se_StateMachine := g (se_StateMachine (sv_session_at s sid))\<rparr>)\<rparr>"

definition range_floors :: "Env \<Rightarrow> Server \<Rightarrow> (u16, nat) gomap" where
  "range_floors e s = env_floors e (sv_ticks s) (sv_floors s)"

definition range_sessions :: "Env \<Rightarrow> Server \<Rightarrow> (string, nat) gomap" where
  "range_sessions e s = env_sessions e (sv_ticks s) (sv_sessions s)"

definition callMessageIn :: "string \<Rightarrow> message \<Rightarrow> Server \<Rightarrow> Server" where
  "callMessageIn remote msg s =
     emit_if (cb_OnMessageIn (sv_callbacks s))
       (MessageIn remote (Primitive_String (Primitive msg)) (Version msg)
          (ucast (TransactionID msg)) (ConferenceID msg) (UserID msg)
          (case GetFloorID msg of Some floorID \<Rightarrow> floorID | None \<Rightarrow> 0)) s"

definition callMessageOut :: "string \<Rightarrow> message \<Rightarrow> Server \<Rightarrow> Server" where
  "callMessageOut remote msg s =
     emit_if (cb_OnMessageOut (sv_callbacks s))
       (MessageOut remote (Primitive_String (Primitive msg)) (Version msg)
          (ucast (TransactionID msg)) (ConferenceID msg) (UserID msg)
          (case GetFloorID msg of Some floorID \<Rightarrow> floorID | None \<Rightarrow> 0)) s"

section \<open>Floors\<close>

definition GetFloor :: "u16 \<Rightarrow> Server \<Rightarrow> nat option" where
  "GetFloor floorID s = lookup (sv_floors s) floorID"

definition CreateFloor :: "Env \<Rightarrow> u16 \<Rightarrow> Server \<Rightarrow> Server \<times> nat" where
  "CreateFloor e floorID s =
     (case lookup (sv_floors s) floorID of
        Some p \<Rightarrow> (s, p)
      | None \<Rightarrow>
          let p = sv_fresh s;
              f = NewFloorStateMachine (env_now e) floorID (cfg_ConferenceID (sv_config s))
          in ((update_floor p f s)\<lparr>sv_fresh := Suc p, sv_floors := put floorID p (sv_floors s)\<rparr>, p))"

definition GetFloorByRequestID :: "Env \<Rightarrow> u16 \<Rightarrow> Server \<Rightarrow> Server \<times> nat option" where
  "GetFloorByRequestID e requestID s =
     (tick s,
      List.find (\<lambda>p. fsm_GetFloorRequestID (sv_floor_at s p) = requestID)
        (map snd (range_floors e s)))"

definition floorOwnedBy :: "Env \<Rightarrow> u16 \<Rightarrow> Server \<Rightarrow> Server \<times> nat option" where
  "floorOwnedBy e userID s =
     (tick s,
      List.find (\<lambda>p. \<not> IsAvailable (sv_floor_at s p) \<and> GetOwner (sv_floor_at s p) = userID)
        (map snd (range_floors e s)))"

definition ListFloors :: "Env \<Rightarrow> Server \<Rightarrow> Server \<times> nat list" where
  "ListFloors e s = (tick s, map snd (range_floors e s))"

definition ReleaseFloor :: "u16 \<Rightarrow> Server \<Rightarrow> Server" where
  "ReleaseFloor floorID s = s\<lparr>sv_floors := del floorID (sv_floors s)\<rparr>"

datatype server_error = FloorDoesNotExist u16 | FloorError floor_error | NoUDPListener | ResolveFailed string

definition GrantFloor :: "Env \<Rightarrow> u16 \<Rightarrow> u16 \<Rightarrow> Server \<Rightarrow> Server \<times> server_error option" where
  "GrantFloor e floorID userID s =
     (case GetFloor floorID s of
        None \<Rightarrow> (s, Some (FloorDoesNotExist floorID))
      | Some p \<Rightarrow>
          let (f, err) = Grant (env_now e) (sv_floor_at s p)
          in (update_floor p f s, map_option FloorError err))"

section \<open>UDP transports\<close>

text \<open>
  \<^verbatim>\<open>getOrCreateTransport\<close> runs on the listener, which exists when a datagram arrives.
\<close>

definition getOrCreateTransport :: "UDPListener \<Rightarrow> string \<Rightarrow> Server \<Rightarrow> Server \<times> nat" where
  "getOrCreateTransport l remoteAddr s =
     (case lookup (ul_sessions l) remoteAddr of
        Some t \<Rightarrow> (s, t)
      | None \<Rightarrow>
          let t = sv_fresh s
          in (s\<lparr>sv_udp_at := (sv_udp_at s)(t := NewUDPTransport remoteAddr), sv_fresh := Suc t,
               sv_udpListener := Some (l\<lparr>ul_sessions := put remoteAddr t (ul_sessions l)\<rparr>)\<rparr>, t))"

definition RemoveTransport :: "UDPListener \<Rightarrow> string \<Rightarrow> Server \<Rightarrow> Server" where
  "RemoveTransport l remoteAddr s =
     s\<lparr>sv_udpListener := Some (l\<lparr>ul_sessions := del remoteAddr (ul_sessions l)\<rparr>)\<rparr>"

definition UDPListener_Close :: "UDPListener \<Rightarrow> Server \<Rightarrow> Server" where
  "UDPListener_Close l s =
     (if ul_closed l then s
      else s\<lparr>sv_udp_at := foldl (\<lambda>h t. h(t := udp_Close (h t))) (sv_udp_at s) (map snd (ul_sessions l)),
             sv_udpListener := Some (l\<lparr>ul_closed := True, ul_sessions := []\<rparr>)\<rparr>)"

section \<open>Sending\<close>

definition sendUDP :: "Env \<Rightarrow> nat \<Rightarrow> message \<Rightarrow> Server \<Rightarrow> Server" where
  "sendUDP e sid msg s =
     (case se_UDPTransport (sv_session_at s sid) of
        None \<Rightarrow> s
      | Some t \<Rightarrow>
          let msg = msg\<lparr>Version := ProtocolVersion_of (sv_session_at s sid)\<rparr>;
              msg = (if Version msg \<noteq> ProtocolVersionRFC8855 then SetResponse False msg else msg);
              remote = udp_RemoteAddr (sv_udp_at s t)
          in case udp_SendMessage (env_write e (sv_ticks s)) msg (sv_udp_at s t) of
               Ok (msg, data) \<Rightarrow> callMessageOut remote msg (emit (Sent remote data) (tick s))
             | Fail err \<Rightarrow> tick s
             | Panic \<Rightarrow> panic s)"

definition sendUDPRaw :: "Env \<Rightarrow> nat \<Rightarrow> byte list \<Rightarrow> Server \<Rightarrow> Server" where
  "sendUDPRaw e sid data s =
     (case se_UDPTransport (sv_session_at s sid) of
        None \<Rightarrow> s
      | Some t \<Rightarrow>
          (case udp_SendRawData (env_write e (sv_ticks s)) data (sv_udp_at s t) of
             Ok data \<Rightarrow> emit (Sent (udp_RemoteAddr (sv_udp_at s t)) data) (tick s)
           | Fail err \<Rightarrow> tick s
           | Panic \<Rightarrow> panic s))"

definition send :: "Env \<Rightarrow> nat \<Rightarrow> message \<Rightarrow> Server \<Rightarrow> Server" where
  "send e sid msg s =
     (if se_UDPTransport (sv_session_at s sid) \<noteq> None then sendUDP e sid msg s
      else case se_Transport (sv_session_at s sid) of
        None \<Rightarrow> s
      | Some t \<Rightarrow>
          let msg = msg\<lparr>Version := ProtocolVersion_of (sv_session_at s sid)\<rparr>;
              remote = tr_RemoteAddr (sv_transport_at s t)
          in case tr_SendMessage (env_write e (sv_ticks s)) msg (sv_transport_at s t) of
               Ok (msg, data) \<Rightarrow> callMessageOut remote msg (emit (Sent remote data) (tick s))
             | Fail err \<Rightarrow> tick s
             | Panic \<Rightarrow> panic s)"

definition sendRaw :: "Env \<Rightarrow> nat \<Rightarrow> byte list \<Rightarrow> Server \<Rightarrow> Server" where
  "sendRaw e sid data s =
     (case se_UDPTransport (sv_session_at s sid) of
        Some t \<Rightarrow>
          (case udp_SendRawData (env_write e (sv_ticks s)) data (sv_udp_at s t) of
             Ok data \<Rightarrow> emit (Sent (udp_RemoteAddr (sv_udp_at s t)) data) (tick s)
           | Fail err \<Rightarrow> tick s
           | Panic \<Rightarrow> panic s)
      | None \<Rightarrow>
          (case se_Transport (sv_session_at s sid) of
             Some t \<Rightarrow>
               (case tr_SendRawData (env_write e (sv_ticks s)) data (sv_transport_at s t) of
                  Ok data \<Rightarrow> emit (Sent (tr_RemoteAddr (sv_transport_at s t)) data) (tick s)
                | Fail err \<Rightarrow> tick s
                | Panic \<Rightarrow> panic s)
           | None \<Rightarrow> s))"

end
