(* ===== verification/UDP_Client.thy ===== *)
theory UDP_Client
  imports Server_State
begin

text \<open>
  The client role of \<^verbatim>\<open>udpclient.go\<close>, which shares the server's UDP socket: matching of
  responses to transactions, notifications and their acknowledgement, and the table of active
  requests. The transactions the client starts are in \<open>UDP_Transactions\<close>.
\<close>

section \<open>Construction and closing\<close>

text \<open>A \<^verbatim>\<open>time.Duration\<close> counts nanoseconds.\<close>

definition udpClientT1 :: int where
  [go_consts, simp]: "udpClientT1 = 500 * 1000000"

definition udpClientMaxRetries :: int where
  [go_consts, simp]: "udpClientMaxRetries = 4"

definition fillDefaults :: "UDPClientConfig \<Rightarrow> UDPClientConfig" where
  "fillDefaults config =
     (let config = (if ucc_Version config = 0
                    then config\<lparr>ucc_Version := ProtocolVersionRFC8855\<rparr> else config);
          config = (if ucc_T1 config \<le> 0 then config\<lparr>ucc_T1 := udpClientT1\<rparr> else config)
      in if ucc_MaxRetries config \<le> 0
         then config\<lparr>ucc_MaxRetries := udpClientMaxRetries\<rparr> else config)"

text \<open>
  \<open>resolve\<close> is \<^verbatim>\<open>net.ResolveUDPAddr\<close> with the \<^verbatim>\<open>String()\<close> of its result. The callbacks are fields
  the caller sets afterwards.
\<close>

definition NewUDPClient ::
    "(string \<Rightarrow> string option) \<Rightarrow> string \<Rightarrow> UDPClientConfig \<Rightarrow> Server \<Rightarrow>
     Server \<times> (server_error, nat) res" where
  "NewUDPClient resolve remoteAddr config s =
     (case sv_udpListener s of
        None \<Rightarrow> (s, Fail NoUDPListener)
      | Some l \<Rightarrow>
          (case resolve remoteAddr of
             None \<Rightarrow> (s, Fail (ResolveFailed remoteAddr))
           | Some addr \<Rightarrow>
               let (s, t) = getOrCreateTransport l addr s;
                   c = sv_fresh s;
                   client = placeholder_client\<lparr>uc_config := fillDefaults config, uc_transport := t,
                              uc_remote := addr, uc_closed := False\<rparr>
               in (s\<lparr>sv_fresh := Suc c, sv_client_at := (sv_client_at s)(c := client),
                    sv_udpClients := put addr c (sv_udpClients s)\<rparr>, Ok c)))"

definition update_client :: "nat \<Rightarrow> UDPClient \<Rightarrow> Server \<Rightarrow> Server" where
  "update_client c client s = s\<lparr>sv_client_at := (sv_client_at s)(c := client)\<rparr>"

definition uc_Close :: "nat \<Rightarrow> Server \<Rightarrow> Server" where
  "uc_Close c s =
     (let client = sv_client_at s c in
      if uc_closed client then s
      else (update_client c (client\<lparr>uc_closed := True\<rparr>) s)
             \<lparr>sv_udpClients := del (uc_remote client) (sv_udpClients s)\<rparr>)"

section \<open>Sending\<close>

text \<open>
  \<^verbatim>\<open>send\<close> stores the version in the message; the result is what \<^verbatim>\<open>SendMessage\<close> returned.
\<close>

definition uc_send :: "Env \<Rightarrow> nat \<Rightarrow> message \<Rightarrow> Server \<Rightarrow> Server \<times> send_error option" where
  "uc_send e c msg s =
     (let client = sv_client_at s c;
          msg = msg\<lparr>Version := ucc_Version (uc_config client)\<rparr>;
          t = sv_udp_at s (uc_transport client)
      in case udp_SendMessage (env_write e (sv_ticks s)) msg t of
           Ok (msg, data) \<Rightarrow>
             (callMessageOut (uc_remote client) msg
                (emit (Sent (udp_RemoteAddr t) data) (tick s)), None)
         | Fail err \<Rightarrow> (tick s, Some err)
         | Panic \<Rightarrow> (panic s, None))"

definition ack :: "Env \<Rightarrow> nat \<Rightarrow> message \<Rightarrow> Primitive \<Rightarrow> Server \<Rightarrow> Server" where
  "ack e c msg primitive s =
     (let ackMsg = SetResponse True (NewMessage primitive (ConferenceID msg) (TransactionID msg)
                     (ucc_UserID (uc_config (sv_client_at s c))))
      in fst (uc_send e c ackMsg s))"

definition uc_nextTransactionID :: "UDPClient \<Rightarrow> UDPClient \<times> u16" where
  "uc_nextTransactionID client =
     (let n = uc_nextTxID client + 1 in
      if (ucast n :: u16) = 0
      then (client\<lparr>uc_nextTxID := n + 1\<rparr>, ucast (n + 1))
      else (client\<lparr>uc_nextTxID := n\<rparr>, ucast n))"

definition responseError :: "message \<Rightarrow> string" where
  "responseError msg =
     ''BFCP error: '' @ ErrorCode_String (case GetErrorCode msg of Some code \<Rightarrow> code | None \<Rightarrow> 0)
     @ '' - '' @ (case GetErrorInfo msg of Some info \<Rightarrow> info | None \<Rightarrow> [])"

section \<open>Incoming messages\<close>

definition ownRequest :: "u16 \<Rightarrow> u16 \<Rightarrow> u16 \<Rightarrow> UDPClient \<Rightarrow> bool" where
  "ownRequest floorID requestID beneficiaryID client \<longleftrightarrow>
     (case lookup (uc_activeRequests client) floorID of
        Some req \<Rightarrow> afr_FloorRequestID req = requestID
      | None \<Rightarrow> False)
     \<or> beneficiaryID \<noteq> 0 \<and> beneficiaryID = ucc_UserID (uc_config client)"

definition endsRequest :: "RequestStatus \<Rightarrow> bool" where
  "endsRequest status \<longleftrightarrow>
     status = RequestStatusReleased \<or> status = RequestStatusRevoked \<or>
     status = RequestStatusDenied \<or> status = RequestStatusCancelled"

definition updateActive ::
    "time \<Rightarrow> u16 \<Rightarrow> RequestStatus \<Rightarrow> (u16, ActiveFloorRequest) gomap \<Rightarrow>
     (u16, ActiveFloorRequest) gomap" where
  "updateActive now floorID status m =
     (case lookup m floorID of
        None \<Rightarrow> m
      | Some req \<Rightarrow>
          let req = req\<lparr>afr_Status := status\<rparr>;
              req = (if status = RequestStatusGranted \<and> afr_GrantedAt req = None
                     then req\<lparr>afr_GrantedAt := Some now\<rparr> else req)
          in if endsRequest status then del floorID m else put floorID req m)"

definition applyOwnStatus ::
    "Env \<Rightarrow> nat \<Rightarrow> u16 \<Rightarrow> u16 \<Rightarrow> RequestStatus \<Rightarrow> Server \<Rightarrow> Server" where
  "applyOwnStatus e c floorID requestID status s =
     (let client = sv_client_at s c;
          client = client\<lparr>uc_activeRequests :=
                     updateActive (env_now e) floorID status (uc_activeRequests client)\<rparr>;
          s = update_client c client s
      in if status = RequestStatusGranted
         then emit_if (uc_OnFloorGranted client) (OwnGranted (uc_remote client) floorID requestID) s
         else if status = RequestStatusDenied
         then emit_if (uc_OnFloorDenied client) (OwnDenied (uc_remote client) floorID requestID) s
         else if status = RequestStatusReleased \<or> status = RequestStatusRevoked \<or>
                 status = RequestStatusCancelled
         then emit_if (uc_OnFloorReleased client) (OwnReleased (uc_remote client) floorID) s
         else s)"

definition notifyFloor ::
    "Env \<Rightarrow> nat \<Rightarrow> u16 \<Rightarrow> u16 \<Rightarrow> RequestStatus \<Rightarrow> FloorRequestStatusInfo \<Rightarrow> Server \<Rightarrow> Server" where
  "notifyFloor e c requestID beneficiaryID status fl s =
     (let client = sv_client_at s c in
      if ownRequest (frs_FloorID fl) requestID beneficiaryID client
      then applyOwnStatus e c (frs_FloorID fl) requestID status s
      else emit_if (uc_OnFloorStatus client)
             (OtherStatus (uc_remote client) (frs_FloorID fl) beneficiaryID status) s)"

definition notifyInfo :: "Env \<Rightarrow> nat \<Rightarrow> FloorRequestInfo \<Rightarrow> Server \<Rightarrow> Server" where
  "notifyInfo e c info s =
     (case Status info of
        None \<Rightarrow> s
      | Some status \<Rightarrow>
          let beneficiaryID =
                (if \<not> fri_HasBeneficiary info \<and> fri_HasRequestedBy info
                 then fri_RequestedByID info else fri_BeneficiaryID info)
          in fold (notifyFloor e c (fri_FloorRequestID info) beneficiaryID status)
               (fri_Floors info) s)"

definition handleNotification :: "Env \<Rightarrow> nat \<Rightarrow> message \<Rightarrow> Server \<Rightarrow> Server" where
  "handleNotification e c msg s =
     (let infos = FloorRequestInfos msg; client = sv_client_at s c in
      if infos = [] then
        (if Primitive msg = PrimitiveFloorStatus then
           (case GetFloorID msg of
              Some floorID \<Rightarrow>
                emit_if (uc_OnFloorStatus client)
                  (OtherStatus (uc_remote client) floorID 0 RequestStatusReleased) s
            | None \<Rightarrow> s)
         else s)
      else fold (notifyInfo e c) infos s)"

text \<open>The send to the channel of a pending transaction does not block: a full channel drops it.\<close>

definition uc_handleMessage :: "Env \<Rightarrow> nat \<Rightarrow> message \<Rightarrow> Server \<Rightarrow> Server" where
  "uc_handleMessage e c msg s =
     (let client = sv_client_at s c in
      case lookup (uc_pending client) (TransactionID msg) of
        Some ch \<Rightarrow>
          (case uc_chan_at client ch of
             None \<Rightarrow> update_client c (client\<lparr>uc_chan_at := (uc_chan_at client)(ch := Some msg)\<rparr>) s
           | Some _ \<Rightarrow> s)
      | None \<Rightarrow>
          if Primitive msg = PrimitiveFloorRequestStatus then
            ack e c msg PrimitiveFloorRequestStatusAck (handleNotification e c msg s)
          else if Primitive msg = PrimitiveFloorStatus then
            ack e c msg PrimitiveFloorStatusAck (handleNotification e c msg s)
          else if Primitive msg = PrimitiveGoodbye then ack e c msg PrimitiveGoodbyeAck s
          else if Primitive msg = PrimitiveError then
            emit_if (uc_OnError client) (ClientError (uc_remote client) (responseError msg)) s
          else s)"

end
