(* ===== verification/Server.thy ===== *)
theory Server
  imports UDP_Client
begin

text \<open>
  The handlers of \<^verbatim>\<open>server.go\<close>, one definition per handler, for UDP and for TCP. A handler runs
  to its end as one step, as the UDP read loop runs it; the TCP \<^verbatim>\<open>handleFloorRequest\<close> is two
  steps around its sleep of 150 ms, since other connections are served meanwhile.
\<close>

section \<open>Broadcasts\<close>

definition statusMessage :: "u32 \<Rightarrow> u16 \<Rightarrow> u16 \<Rightarrow> u16 \<Rightarrow> RequestStatus \<Rightarrow> u16 \<Rightarrow> message" where
  "statusMessage confID txID userID requestID status floorID =
     AddFloorRequestInformationRFC4582 requestID status floorID
       (NewMessage PrimitiveFloorRequestStatus confID txID userID)"

text \<open>\<open>except\<close> is a session pointer; \<open>None\<close> is \<^verbatim>\<open>nil\<close>.\<close>

definition notifySessionUDP ::
    "Env \<Rightarrow> nat option \<Rightarrow> u16 \<Rightarrow> u16 \<Rightarrow> u16 \<Rightarrow> RequestStatus \<Rightarrow> nat \<Rightarrow> Server \<Rightarrow> Server" where
  "notifySessionUDP e except userID floorID requestID status sid s =
     (if Some sid = except \<or> se_UDPTransport (sv_session_at s sid) = None then s
      else let (s, txID) = nextTxID_Add s
           in sendUDP e sid
                (statusMessage (cfg_ConferenceID (sv_config s)) txID userID requestID status floorID) s)"

definition broadcastFloorStatusUDP ::
    "Env \<Rightarrow> nat option \<Rightarrow> u16 \<Rightarrow> u16 \<Rightarrow> u16 \<Rightarrow> RequestStatus \<Rightarrow> u8 \<Rightarrow> Server \<Rightarrow> Server" where
  "broadcastFloorStatusUDP e except userID floorID requestID status queuePos s =
     fold (notifySessionUDP e except userID floorID requestID status)
       (map snd (range_sessions e s)) (tick s)"

definition notifySession ::
    "Env \<Rightarrow> nat option \<Rightarrow> u16 \<Rightarrow> u16 \<Rightarrow> u16 \<Rightarrow> RequestStatus \<Rightarrow> nat \<Rightarrow> Server \<Rightarrow> Server" where
  "notifySession e except userID floorID requestID status sid s =
     (if Some sid = except then s
      else let (s, txID) = nextTxID_Add s
           in send e sid
                (statusMessage (cfg_ConferenceID (sv_config s)) txID userID requestID status floorID) s)"

definition broadcastFloorStatus ::
    "Env \<Rightarrow> nat option \<Rightarrow> u16 \<Rightarrow> u16 \<Rightarrow> u16 \<Rightarrow> RequestStatus \<Rightarrow> u8 \<Rightarrow> Server \<Rightarrow> Server" where
  "broadcastFloorStatus e except userID floorID requestID status queuePos s =
     fold (notifySession e except userID floorID requestID status)
       (map snd (range_sessions e s)) (tick s)"

definition BroadcastFloorStatus ::
    "Env \<Rightarrow> u16 \<Rightarrow> u16 \<Rightarrow> u16 \<Rightarrow> RequestStatus \<Rightarrow> u8 \<Rightarrow> Server \<Rightarrow> Server" where
  "BroadcastFloorStatus e userID floorID requestID status queuePos =
     broadcastFloorStatus e None userID floorID requestID status queuePos"

text \<open>The remote of a session in \<^verbatim>\<open>sendFloorState\<close>, empty when it has no transport.\<close>

definition remote_or_empty :: "Session \<Rightarrow> Server \<Rightarrow> string" where
  "remote_or_empty sess s =
     (case se_UDPTransport sess of
        Some t \<Rightarrow> udp_RemoteAddr (sv_udp_at s t)
      | None \<Rightarrow>
          (case se_Transport sess of
             Some t \<Rightarrow> tr_RemoteAddr (sv_transport_at s t)
           | None \<Rightarrow> []))"

definition sendFloorState :: "Env \<Rightarrow> nat \<Rightarrow> u16 \<Rightarrow> RequestStatus \<Rightarrow> Server \<Rightarrow> Server" where
  "sendFloorState e sid floorID status s =
     (let sess = sv_session_at s sid;
          (s, txID) = (if se_UDPTransport sess \<noteq> None then (s, 0) else nextTxID_Add s);
          requestID = 1;
          clientVersion = ProtocolVersion_of sess;
          userID = ssm_UserID (se_StateMachine sess);
          encoded = BuildFloorStatusMessage clientVersion (cfg_ConferenceID (sv_config s)) txID
                      userID floorID requestID status;
          s = sendRaw e sid encoded s
      in emit_if (cb_OnMessageOut (sv_callbacks s))
           (MessageOut (remote_or_empty sess s) (Primitive_String PrimitiveFloorStatus) clientVersion
              (ucast txID) (cfg_ConferenceID (sv_config s)) userID floorID) s)"

definition BroadcastFloorState :: "Env \<Rightarrow> u16 \<Rightarrow> u16 \<Rightarrow> RequestStatus \<Rightarrow> Server \<Rightarrow> Server" where
  "BroadcastFloorState e floorID beneficiaryID status s =
     fold (\<lambda>sid. sendFloorState e sid floorID status) (map snd (range_sessions e s)) (tick s)"

section \<open>What both transports share\<close>

definition helloPrimitives :: "Primitive list" where
  "helloPrimitives =
     [PrimitiveFloorRequest, PrimitiveFloorRelease, PrimitiveFloorRequestStatus,
      PrimitiveFloorStatus, PrimitiveHello, PrimitiveHelloAck, PrimitiveError,
      PrimitiveGoodbye, PrimitiveGoodbyeAck]"

definition helloAttributes :: "AttributeType list" where
  "helloAttributes =
     [AttrBeneficiaryID, AttrFloorID, AttrFloorRequestID, AttrPriority, AttrRequestStatus,
      AttrErrorCode, AttrErrorInfo, AttrSupportedAttributes, AttrSupportedPrimitives,
      AttrUserDisplayName, AttrUserURI, AttrBeneficiaryInfo, AttrFloorRequestInfo,
      AttrRequestedByInfo, AttrFloorRequestStatus, AttrOverallRequestStatus,
      AttrParticipantProvidedInfo, AttrStatusInfo]"

text \<open>The two \<^verbatim>\<open>if attr := msg.GetAttribute(...)\<close> blocks of the Hello handlers.\<close>

definition recordSupported :: "nat \<Rightarrow> message \<Rightarrow> Server \<Rightarrow> Server" where
  "recordSupported sid msg s =
     (let s = (case GetAttribute AttrSupportedPrimitives msg of
                 Some attr \<Rightarrow> update_StateMachine sid (SetSupportedPrimitives (Value attr)) s
               | None \<Rightarrow> s)
      in case GetAttribute AttrSupportedAttributes msg of
           Some attr \<Rightarrow> update_StateMachine sid (SetSupportedAttributes (Value attr)) s
         | None \<Rightarrow> s)"

definition errorMessage :: "bool \<Rightarrow> message \<Rightarrow> ErrorCode \<Rightarrow> string \<Rightarrow> message" where
  "errorMessage response req errorCode errorInfo =
     (let m = NewMessage PrimitiveError (ConferenceID req) (TransactionID req) (UserID req);
          m = (if response then SetResponse True m else m);
          m = AddErrorCode errorCode m
      in if errorInfo \<noteq> [] then AddErrorInfo errorInfo m else m)"

definition requestPriority :: "message \<Rightarrow> Priority" where
  "requestPriority msg =
     (case GetAttribute AttrPriority msg of
        Some attr \<Rightarrow> if 2 \<le> length (Value attr) then be16 (Value attr) else PriorityNormal
      | None \<Rightarrow> PriorityNormal)"

text \<open>The floor of a request, created when the server does not know it.\<close>

definition floorFor :: "Env \<Rightarrow> u16 \<Rightarrow> Server \<Rightarrow> Server \<times> nat" where
  "floorFor e floorID s =
     (case GetFloor floorID s of Some p \<Rightarrow> (s, p) | None \<Rightarrow> CreateFloor e floorID s)"

definition decideGrant :: "u16 \<Rightarrow> u16 \<Rightarrow> u16 \<Rightarrow> Server \<Rightarrow> Server \<times> bool" where
  "decideGrant floorID userID requestID s =
     (case cb_OnFloorRequest (sv_callbacks s) of
        Some answer \<Rightarrow> (emit (FloorRequested floorID userID requestID) s, answer floorID userID requestID)
      | None \<Rightarrow> (s, cfg_AutoGrant (sv_config s)))"

text \<open>
  The floor lookup of the release handlers: by FLOOR-ID, else by FLOOR-REQUEST-ID, else any
  floor of the user; or the error to answer.
\<close>

definition floorToRelease ::
    "Env \<Rightarrow> message \<Rightarrow> Server \<Rightarrow> Server \<times> (ErrorCode \<times> string, nat \<times> u16) res" where
  "floorToRelease e msg s =
     (case GetFloorID msg of
        Some fid \<Rightarrow>
          (case GetFloor fid s of
             None \<Rightarrow> (s, Fail (ErrorInvalidFloorID, ''Floor '' @ fmt_d (unat fid) @ '' does not exist''))
           | Some p \<Rightarrow> (s, Ok (p, fid)))
      | None \<Rightarrow>
          (case GetFloorRequestID msg of
             Some reqID \<Rightarrow>
               (case GetFloorByRequestID e reqID s of
                  (s, Some p) \<Rightarrow> (s, Ok (p, fsm_FloorID (sv_floor_at s p)))
                | (s, None) \<Rightarrow>
                    (case floorOwnedBy e (UserID msg) s of
                       (s, Some p) \<Rightarrow> (s, Ok (p, fsm_FloorID (sv_floor_at s p)))
                     | (s, None) \<Rightarrow>
                         (s, Fail (ErrorFloorRequestIDDoesNotExist,
                                   ''FloorRequestID '' @ fmt_d (unat reqID) @ '' does not exist''))))
           | None \<Rightarrow>
               (s, Fail (ErrorUnknownMandatoryAttribute, ''Missing FLOOR-REQUEST-ID attribute''))))"

text \<open>The floors a Goodbye releases, collected before any is released.\<close>

definition floorsOwnedBy :: "Env \<Rightarrow> u16 \<Rightarrow> Server \<Rightarrow> Server \<times> nat list" where
  "floorsOwnedBy e userID s =
     (tick s, filter (\<lambda>p. GetOwner (sv_floor_at s p) = userID) (map snd (range_floors e s)))"

section \<open>UDP handlers\<close>

definition sendUDPFloorStatusResponse ::
    "Env \<Rightarrow> nat \<Rightarrow> message \<Rightarrow> u16 \<Rightarrow> u16 \<Rightarrow> RequestStatus \<Rightarrow> Server \<Rightarrow> Server" where
  "sendUDPFloorStatusResponse e sid req floorID requestID status =
     sendUDP e sid
       (AddFloorRequestInformationRFC4582 requestID status floorID
          (SetResponse True (NewMessage PrimitiveFloorRequestStatus (ConferenceID req)
             (TransactionID req) (UserID req))))"

text \<open>The log line after the send reads the transport's address.\<close>

definition sendUDPError ::
    "Env \<Rightarrow> nat \<Rightarrow> message \<Rightarrow> ErrorCode \<Rightarrow> string \<Rightarrow> Server \<Rightarrow> Server" where
  "sendUDPError e sid req errorCode errorInfo s =
     (let s = sendUDP e sid (errorMessage True req errorCode errorInfo) s
      in if se_UDPTransport (sv_session_at s sid) = None then panic s else s)"

definition handleUDPHello :: "Env \<Rightarrow> nat \<Rightarrow> message \<Rightarrow> Server \<Rightarrow> Server" where
  "handleUDPHello e sid msg s =
     (let s = update_StateMachine sid
                (\<lambda>m. m\<lparr>ssm_ConferenceID := ConferenceID msg, ssm_UserID := UserID msg\<rparr>) s in
      case se_UDPTransport (sv_session_at s sid) of
        None \<Rightarrow> panic s
      | Some t \<Rightarrow>
          let remoteAddr = udp_RemoteAddr (sv_udp_at s t);
              alreadyRegistered = lookup (sv_sessions s) remoteAddr \<noteq> None;
              s = s\<lparr>sv_sessions := put remoteAddr sid (sv_sessions s)\<rparr>;
              s = recordSupported sid msg s;
              response = SetResponse True (NewMessage PrimitiveHelloAck (ConferenceID msg)
                           (TransactionID msg) (UserID msg));
              response = AddSupportedPrimitives helloPrimitives response;
              response = AddSupportedAttributes helloAttributes response;
              s = sendUDP e sid response s;
              s = update_StateMachine sid (SetState (env_now e) StateWaitFloorRequest) s
          in emit_if (\<not> alreadyRegistered \<and> cb_OnClientConnect (sv_callbacks s))
               (ClientConnect remoteAddr (UserID msg)) s)"

text \<open>
  The end of \<^verbatim>\<open>handleUDPFloorRequest\<close>, from \<^verbatim>\<open>floor.Request\<close> on. A failing \<^verbatim>\<open>Grant\<close> or \<^verbatim>\<open>Deny\<close>
  falls through to the last answer, as the conditions of the source do.
\<close>

definition answerUDPFloorRequest ::
    "Env \<Rightarrow> nat \<Rightarrow> message \<Rightarrow> nat \<Rightarrow> u16 \<Rightarrow> u16 \<Rightarrow> bool \<Rightarrow> Server \<Rightarrow> Server" where
  "answerUDPFloorRequest e sid msg p floorID requestID shouldGrant s =
     (let (f, status, err) = Request (UserID msg) requestID (requestPriority msg) (sv_floor_at s p);
          s = update_floor p f s in
      case err of
        Some err \<Rightarrow>
          emit_if (cb_OnFloorDenied (sv_callbacks s)) (FloorDenied floorID (UserID msg) requestID)
            (sendUDPError e sid msg ErrorUnauthorizedOperation (floor_error_Error err) s)
      | None \<Rightarrow>
          let (granted, gerr) = Grant (env_now e) f; (denied, derr) = Deny f in
          if shouldGrant \<and> status = RequestStatusPending \<and> gerr = None then
            let s = update_floor p granted s;
                s = sendUDPFloorStatusResponse e sid msg floorID requestID RequestStatusGranted s;
                s = update_StateMachine sid (SetState (env_now e) StateFloorGranted) s
            in emit_if (cb_OnFloorGranted (sv_callbacks s))
                 (FloorGranted floorID (UserID msg) requestID) s
          else if \<not> shouldGrant \<and> status = RequestStatusPending \<and> derr = None then
            let s = update_floor p denied s;
                s = sendUDPFloorStatusResponse e sid msg floorID requestID RequestStatusDenied s;
                s = update_StateMachine sid (SetState (env_now e) StateFloorDenied) s
            in emit_if (cb_OnFloorDenied (sv_callbacks s))
                 (FloorDenied floorID (UserID msg) requestID) s
          else
            let s = sendUDPFloorStatusResponse e sid msg floorID requestID status s
            in update_StateMachine sid (SetState (env_now e) StateFloorRequested) s)"

definition handleUDPFloorRequest :: "Env \<Rightarrow> nat \<Rightarrow> message \<Rightarrow> Server \<Rightarrow> Server" where
  "handleUDPFloorRequest e sid msg s =
     (case GetFloorID msg of
        None \<Rightarrow> sendUDPError e sid msg ErrorInvalidFloorID ''No floor ID in request'' s
      | Some floorID \<Rightarrow>
          let (s, p) = floorFor e floorID s;
              (s, requestID) = nextTxID_Add s;
              (s, shouldGrant) = decideGrant floorID (UserID msg) requestID s
          in answerUDPFloorRequest e sid msg p floorID requestID shouldGrant s)"

definition handleUDPFloorRelease :: "Env \<Rightarrow> nat \<Rightarrow> message \<Rightarrow> Server \<Rightarrow> Server" where
  "handleUDPFloorRelease e sid msg s =
     (case floorToRelease e msg s of
        (s, Ok (p, floorID)) \<Rightarrow>
          let requestID = (case GetFloorRequestID msg of Some r \<Rightarrow> r | None \<Rightarrow> 0) in
          (case Release (UserID msg) (sv_floor_at s p) of
             (f, Some err) \<Rightarrow>
               sendUDPError e sid msg ErrorFloorReleaseDenied (floor_error_Error err) s
           | (f, None) \<Rightarrow>
               let s = update_floor p f s;
                   s = sendUDPFloorStatusResponse e sid msg floorID requestID RequestStatusReleased s;
                   s = update_StateMachine sid (SetState (env_now e) StateFloorReleased) s;
                   s = emit_if (cb_OnFloorReleased (sv_callbacks s))
                         (FloorReleased floorID (UserID msg)) s
               in broadcastFloorStatusUDP e (Some sid) (UserID msg) floorID requestID
                    RequestStatusReleased 0 s)
      | (s, Fail (errorCode, errorInfo)) \<Rightarrow> sendUDPError e sid msg errorCode errorInfo s
      | (s, Panic) \<Rightarrow> panic s)"

definition handleUDPFloorQuery :: "Env \<Rightarrow> nat \<Rightarrow> message \<Rightarrow> Server \<Rightarrow> Server" where
  "handleUDPFloorQuery e sid msg s =
     (case GetFloorID msg of
        None \<Rightarrow> sendUDPError e sid msg ErrorUnknownMandatoryAttribute ''Missing FLOOR-ID attribute'' s
      | Some floorID \<Rightarrow>
          (case GetFloor floorID s of
             None \<Rightarrow>
               sendUDPError e sid msg ErrorInvalidFloorID
                 (''Floor '' @ fmt_d (unat floorID) @ '' does not exist'') s
           | Some p \<Rightarrow>
               let response = SetResponse True (NewMessage PrimitiveFloorStatus (ConferenceID msg)
                                (TransactionID msg) (UserID msg));
                   response = AddFloorID floorID response;
                   response = AddFloorRequestID (fsm_GetFloorRequestID (sv_floor_at s p)) response;
                   response = AddRequestStatus (GetState (sv_floor_at s p)) 0 response
               in sendUDP e sid response s))"

definition goodbyeFloorUDP :: "Env \<Rightarrow> nat \<Rightarrow> message \<Rightarrow> nat \<Rightarrow> Server \<Rightarrow> Server" where
  "goodbyeFloorUDP e sid msg p s =
     (case Release (UserID msg) (sv_floor_at s p) of
        (f, Some err) \<Rightarrow> s
      | (f, None) \<Rightarrow>
          let s = update_floor p f s;
              requestID = fsm_GetFloorRequestID (sv_floor_at s p);
              s = broadcastFloorStatusUDP e (Some sid) (UserID msg)
                    (fsm_FloorID (sv_floor_at s p)) requestID RequestStatusReleased 0 s
          in emit_if (cb_OnFloorReleased (sv_callbacks s))
               (FloorReleased (fsm_FloorID (sv_floor_at s p)) (UserID msg)) s)"

text \<open>There is no answer; the log line at the end reads the transport's address.\<close>

definition handleUDPGoodbye :: "Env \<Rightarrow> nat \<Rightarrow> message \<Rightarrow> Server \<Rightarrow> Server" where
  "handleUDPGoodbye e sid msg s =
     (let (s, floors) = floorsOwnedBy e (UserID msg) s;
          s = fold (goodbyeFloorUDP e sid msg) floors s
      in if se_UDPTransport (sv_session_at s sid) = None then panic s else s)"

text \<open>
  The acknowledgements, the statuses, Error and every unknown primitive are only logged: the
  last three branches of the source's \<^verbatim>\<open>switch\<close>.
\<close>

definition session_handleUDPMessage :: "Env \<Rightarrow> nat \<Rightarrow> message \<Rightarrow> Server \<Rightarrow> Server" where
  "session_handleUDPMessage e sid msg s =
     (let s = update_StateMachine sid (UpdateActivity (env_now e)) s;
          s = update_StateMachine sid (\<lambda>m. m\<lparr>ssm_ClientVersion := Version msg\<rparr>) s;
          remoteAddr = (case se_UDPTransport (sv_session_at s sid) of
                          Some t \<Rightarrow> udp_RemoteAddr (sv_udp_at s t) | None \<Rightarrow> []);
          s = callMessageIn remoteAddr msg s
      in if Primitive msg = PrimitiveHello then handleUDPHello e sid msg s
         else if Primitive msg = PrimitiveFloorRequest then handleUDPFloorRequest e sid msg s
         else if Primitive msg = PrimitiveFloorRelease then handleUDPFloorRelease e sid msg s
         else if Primitive msg = PrimitiveFloorQuery then handleUDPFloorQuery e sid msg s
         else if Primitive msg = PrimitiveGoodbye then handleUDPGoodbye e sid msg s
         else s)"

definition newSession ::
    "Env \<Rightarrow> nat option \<Rightarrow> nat option \<Rightarrow> u16 \<Rightarrow> string \<Rightarrow> Server \<Rightarrow> Server \<times> nat" where
  "newSession e transport udpTransport userID remoteAddr s =
     (let sid = sv_fresh s;
          sess = \<lparr>se_Transport = transport, se_UDPTransport = udpTransport,
                  se_StateMachine = NewSessionStateMachine (env_now e)
                    (ucast (cfg_ConferenceID (sv_config s))) userID remoteAddr\<rparr>
      in (s\<lparr>sv_session_at := (sv_session_at s)(sid := sess), sv_fresh := Suc sid\<rparr>, sid))"

definition handleUDPMessage :: "Env \<Rightarrow> nat \<Rightarrow> message \<Rightarrow> Server \<Rightarrow> Server" where
  "handleUDPMessage e t msg s =
     (let remoteAddr = udp_RemoteAddr (sv_udp_at s t) in
      case lookup (sv_udpClients s) remoteAddr of
        Some c \<Rightarrow> uc_handleMessage e c msg (callMessageIn remoteAddr msg s)
      | None \<Rightarrow>
          (case lookup (sv_sessions s) remoteAddr of
             Some sid \<Rightarrow> session_handleUDPMessage e sid msg s
           | None \<Rightarrow>
               let (s, sid) = newSession e None (Some t) 0 remoteAddr s
               in session_handleUDPMessage e sid msg s))"

text \<open>
  One iteration of \<^verbatim>\<open>UDPListener.readLoop\<close> with the datagram it read: what does not decode is
  dropped.
\<close>

definition receiveDatagram :: "Env \<Rightarrow> string \<Rightarrow> byte list \<Rightarrow> Server \<Rightarrow> Server" where
  "receiveDatagram e remoteAddr data s =
     (case sv_udpListener s of
        None \<Rightarrow> s
      | Some l \<Rightarrow>
          (case Decode data of
             Ok msg \<Rightarrow>
               let (s, t) = getOrCreateTransport l remoteAddr s
               in handleUDPMessage e t msg s
           | Fail err \<Rightarrow> s
           | Panic \<Rightarrow> panic s))"

section \<open>TCP handlers\<close>

definition sendFloorStatus ::
    "Env \<Rightarrow> nat \<Rightarrow> message \<Rightarrow> u16 \<Rightarrow> u16 \<Rightarrow> RequestStatus \<Rightarrow> u8 \<Rightarrow> Server \<Rightarrow> Server" where
  "sendFloorStatus e sid req floorID requestID status queuePos =
     send e sid
       (AddFloorRequestInformationRFC4582 requestID status floorID
          (NewMessage PrimitiveFloorRequestStatus (ConferenceID req) (TransactionID req) (UserID req)))"

definition sendError ::
    "Env \<Rightarrow> nat \<Rightarrow> message \<Rightarrow> ErrorCode \<Rightarrow> string \<Rightarrow> Server \<Rightarrow> Server" where
  "sendError e sid req errorCode errorInfo s =
     (let s = send e sid (errorMessage False req errorCode errorInfo) s
      in if se_Transport (sv_session_at s sid) = None then panic s else s)"

definition update_transport :: "nat \<Rightarrow> Transport \<Rightarrow> Server \<Rightarrow> Server" where
  "update_transport t tr s = s\<lparr>sv_transport_at := (sv_transport_at s)(t := tr)\<rparr>"

definition handleHello :: "Env \<Rightarrow> nat \<Rightarrow> message \<Rightarrow> Server \<Rightarrow> Server" where
  "handleHello e sid msg s =
     (let s = update_StateMachine sid
                (\<lambda>m. m\<lparr>ssm_ConferenceID := ConferenceID msg, ssm_UserID := UserID msg\<rparr>) s in
      case se_Transport (sv_session_at s sid) of
        None \<Rightarrow> panic s
      | Some t \<Rightarrow>
          let remoteAddr = tr_RemoteAddr (sv_transport_at s t);
              s = s\<lparr>sv_sessions := put remoteAddr sid (sv_sessions s)\<rparr>;
              s = recordSupported sid msg s;
              response = NewMessage PrimitiveHelloAck (ConferenceID msg) (TransactionID msg) (UserID msg);
              response = AddSupportedPrimitives helloPrimitives response;
              response = AddSupportedAttributes helloAttributes response;
              s = send e sid response s;
              s = update_StateMachine sid (SetState (env_now e) StateWaitFloorRequest) s;
              s = update_transport t (StartKeepalive (EnableKeepalive True (sv_transport_at s t))) s
          in emit_if (cb_OnClientConnect (sv_callbacks s)) (ClientConnect remoteAddr (UserID msg)) s)"

text \<open>
  \<^verbatim>\<open>handleFloorRequest\<close> up to its sleep: the second component is the grant to finish when the
  sleep is over, the floor (a pointer), its identifier and the request.
\<close>

type_synonym sleeping = "nat \<times> u16 \<times> u16"

definition answerFloorRequest ::
    "Env \<Rightarrow> nat \<Rightarrow> message \<Rightarrow> nat \<Rightarrow> u16 \<Rightarrow> u16 \<Rightarrow> bool \<Rightarrow> Server \<Rightarrow> Server \<times> sleeping option" where
  "answerFloorRequest e sid msg p floorID requestID shouldGrant s =
     (let (f, status, err) = Request (UserID msg) requestID (requestPriority msg) (sv_floor_at s p);
          s = update_floor p f s in
      case err of
        Some err \<Rightarrow>
          (emit_if (cb_OnFloorDenied (sv_callbacks s)) (FloorDenied floorID (UserID msg) requestID)
             (sendError e sid msg ErrorUnauthorizedOperation (floor_error_Error err) s), None)
      | None \<Rightarrow>
          let s = sendFloorStatus e sid msg floorID requestID status 0 s in
          if shouldGrant \<and> status = RequestStatusPending then (s, Some (p, floorID, requestID))
          else if \<not> shouldGrant \<and> status = RequestStatusPending then
            (case Deny (sv_floor_at s p) of
               (f, None) \<Rightarrow>
                 let s = update_floor p f s;
                     s = sendFloorStatus e sid msg floorID requestID RequestStatusDenied 0 s;
                     s = update_StateMachine sid (SetState (env_now e) StateFloorDenied) s
                 in (emit_if (cb_OnFloorDenied (sv_callbacks s))
                       (FloorDenied floorID (UserID msg) requestID) s, None)
             | (f, Some err) \<Rightarrow> (s, None))
          else (update_StateMachine sid (SetState (env_now e) StateFloorRequested) s, None))"

definition handleFloorRequest ::
    "Env \<Rightarrow> nat \<Rightarrow> message \<Rightarrow> Server \<Rightarrow> Server \<times> sleeping option" where
  "handleFloorRequest e sid msg s =
     (case GetFloorID msg of
        None \<Rightarrow> (sendError e sid msg ErrorInvalidFloorID ''No floor ID in request'' s, None)
      | Some floorID \<Rightarrow>
          let (s, p) = floorFor e floorID s;
              (s, requestID) = nextTxID_Add s;
              (s, shouldGrant) = decideGrant floorID (UserID msg) requestID s
          in answerFloorRequest e sid msg p floorID requestID shouldGrant s)"

text \<open>The rest of \<^verbatim>\<open>handleFloorRequest\<close>, after the sleep.\<close>

definition wakeFloorRequest :: "Env \<Rightarrow> nat \<Rightarrow> message \<Rightarrow> sleeping \<Rightarrow> Server \<Rightarrow> Server" where
  "wakeFloorRequest e sid msg grant s =
     (case grant of (p, floorID, requestID) \<Rightarrow>
        (case Grant (env_now e) (sv_floor_at s p) of
           (f, None) \<Rightarrow>
             let s = update_floor p f s;
                 s = sendFloorStatus e sid msg floorID requestID RequestStatusGranted 0 s;
                 s = update_StateMachine sid (SetState (env_now e) StateFloorGranted) s
             in emit_if (cb_OnFloorGranted (sv_callbacks s))
                  (FloorGranted floorID (UserID msg) requestID) s
         | (f, Some err) \<Rightarrow> s))"

definition handleFloorRelease :: "Env \<Rightarrow> nat \<Rightarrow> message \<Rightarrow> Server \<Rightarrow> Server" where
  "handleFloorRelease e sid msg s =
     (case floorToRelease e msg s of
        (s, Ok (p, floorID)) \<Rightarrow>
          let requestID = (case GetFloorRequestID msg of Some r \<Rightarrow> r | None \<Rightarrow> 0) in
          (case Release (UserID msg) (sv_floor_at s p) of
             (f, Some err) \<Rightarrow> sendError e sid msg ErrorFloorReleaseDenied (floor_error_Error err) s
           | (f, None) \<Rightarrow>
               let s = update_floor p f s;
                   s = sendFloorStatus e sid msg floorID requestID RequestStatusReleased 0 s;
                   s = update_StateMachine sid (SetState (env_now e) StateFloorReleased) s;
                   s = emit_if (cb_OnFloorReleased (sv_callbacks s))
                         (FloorReleased floorID (UserID msg)) s
               in broadcastFloorStatus e (Some sid) (UserID msg) floorID requestID
                    RequestStatusReleased 0 s)
      | (s, Fail (errorCode, errorInfo)) \<Rightarrow> sendError e sid msg errorCode errorInfo s
      | (s, Panic) \<Rightarrow> panic s)"

definition handleFloorQuery :: "Env \<Rightarrow> nat \<Rightarrow> message \<Rightarrow> Server \<Rightarrow> Server" where
  "handleFloorQuery e sid msg s =
     (case GetFloorID msg of
        None \<Rightarrow> sendError e sid msg ErrorUnknownMandatoryAttribute ''Missing FLOOR-ID attribute'' s
      | Some floorID \<Rightarrow>
          (case GetFloor floorID s of
             None \<Rightarrow>
               sendError e sid msg ErrorInvalidFloorID
                 (''Floor '' @ fmt_d (unat floorID) @ '' does not exist'') s
           | Some p \<Rightarrow>
               let response = NewMessage PrimitiveFloorStatus (ConferenceID msg) (TransactionID msg)
                                (UserID msg);
                   response = AddFloorID floorID response;
                   response = AddFloorRequestID (fsm_GetFloorRequestID (sv_floor_at s p)) response;
                   response = AddRequestStatus (GetState (sv_floor_at s p)) 0 response
               in send e sid response s))"

definition goodbyeFloor :: "Env \<Rightarrow> nat \<Rightarrow> message \<Rightarrow> nat \<Rightarrow> Server \<Rightarrow> Server" where
  "goodbyeFloor e sid msg p s =
     (case Release (UserID msg) (sv_floor_at s p) of
        (f, Some err) \<Rightarrow> s
      | (f, None) \<Rightarrow>
          let s = update_floor p f s;
              requestID = fsm_GetFloorRequestID (sv_floor_at s p);
              s = broadcastFloorStatus e (Some sid) (UserID msg)
                    (fsm_FloorID (sv_floor_at s p)) requestID RequestStatusReleased 0 s
          in emit_if (cb_OnFloorReleased (sv_callbacks s))
               (FloorReleased (fsm_FloorID (sv_floor_at s p)) (UserID msg)) s)"

definition handleGoodbye :: "Env \<Rightarrow> nat \<Rightarrow> message \<Rightarrow> Server \<Rightarrow> Server" where
  "handleGoodbye e sid msg s =
     (let (s, floors) = floorsOwnedBy e (UserID msg) s;
          s = fold (goodbyeFloor e sid msg) floors s;
          s = send e sid (NewMessage PrimitiveGoodbyeAck (ConferenceID msg) (TransactionID msg)
                (UserID msg)) s;
          s = update_StateMachine sid (SetState (env_now e) StateDisconnected) s
      in case se_Transport (sv_session_at s sid) of
           None \<Rightarrow> panic s
         | Some t \<Rightarrow> update_transport t (tr_Close (sv_transport_at s t)) s)"

definition handleMessage :: "Env \<Rightarrow> nat \<Rightarrow> message \<Rightarrow> Server \<Rightarrow> Server \<times> sleeping option" where
  "handleMessage e sid msg s =
     (let s = update_StateMachine sid (UpdateActivity (env_now e)) s;
          s = update_StateMachine sid (\<lambda>m. m\<lparr>ssm_ClientVersion := Version msg\<rparr>) s in
      case se_Transport (sv_session_at s sid) of
        None \<Rightarrow> (panic s, None)
      | Some t \<Rightarrow>
          let s = callMessageIn (tr_RemoteAddr (sv_transport_at s t)) msg s in
          if Primitive msg = PrimitiveHello then (handleHello e sid msg s, None)
          else if Primitive msg = PrimitiveFloorRequest then handleFloorRequest e sid msg s
          else if Primitive msg = PrimitiveFloorRelease then (handleFloorRelease e sid msg s, None)
          else if Primitive msg = PrimitiveFloorQuery then (handleFloorQuery e sid msg s, None)
          else if Primitive msg = PrimitiveGoodbye then (handleGoodbye e sid msg s, None)
          else (s, None))"

section \<open>Connections and the interface\<close>

text \<open>
  \<^verbatim>\<open>handleConnection\<close> on an accepted connection, and the \<^verbatim>\<open>OnClose\<close> it installs, which the read
  loop calls after closing the transport.
\<close>

definition handleConnection :: "Env \<Rightarrow> string \<Rightarrow> Server \<Rightarrow> Server \<times> nat" where
  "handleConnection e remoteAddr s =
     (let t = sv_fresh s;
          s = s\<lparr>sv_transport_at := (sv_transport_at s)(t := NewTransport remoteAddr RolePassive), sv_fresh := Suc t\<rparr>
      in newSession e (Some t) None 0 remoteAddr s)"

definition connectionClosed :: "nat \<Rightarrow> Server \<Rightarrow> Server" where
  "connectionClosed sid s =
     (case se_Transport (sv_session_at s sid) of
        None \<Rightarrow> s
      | Some t \<Rightarrow>
          let remoteAddr = tr_RemoteAddr (sv_transport_at s t);
              s = update_transport t (tr_Close (sv_transport_at s t)) s;
              s = s\<lparr>sv_sessions := del remoteAddr (sv_sessions s)\<rparr>
          in emit_if (cb_OnClientDisconnect (sv_callbacks s))
               (ClientDisconnect remoteAddr (ssm_UserID (se_StateMachine (sv_session_at s sid)))) s)"

text \<open>The keepalive the TCP Hello installs: a Hello with a fresh transaction identifier.\<close>

definition sendKeepalive :: "Env \<Rightarrow> nat \<Rightarrow> u32 \<Rightarrow> u16 \<Rightarrow> Server \<Rightarrow> Server" where
  "sendKeepalive e t conferenceID userID s =
     (let (s, txID) = nextTxID_Add s in
      case tr_SendMessage (env_write e (sv_ticks s)) (NewMessage PrimitiveHello conferenceID txID userID)
             (sv_transport_at s t) of
        Ok (msg, data) \<Rightarrow> emit (Sent (tr_RemoteAddr (sv_transport_at s t)) data) (tick s)
      | Fail err \<Rightarrow> tick s
      | Panic \<Rightarrow> panic s)"

definition RegisterClient ::
    "Env \<Rightarrow> (string \<Rightarrow> string option) \<Rightarrow> string \<Rightarrow> u16 \<Rightarrow> u16 \<Rightarrow> u8 \<Rightarrow> Server \<Rightarrow>
     Server \<times> server_error option" where
  "RegisterClient e resolve remoteAddr userID floorID version s =
     (case sv_udpListener s of
        None \<Rightarrow> (s, Some NoUDPListener)
      | Some l \<Rightarrow>
          (case resolve remoteAddr of
             None \<Rightarrow> (s, Some (ResolveFailed remoteAddr))
           | Some key \<Rightarrow>
               let (s, t) = getOrCreateTransport l key s;
                   (s, sid) =
                     (case lookup (sv_sessions s) key of
                        Some sid \<Rightarrow> (s, sid)
                      | None \<Rightarrow>
                          let (s, sid) = newSession e None (Some t) userID key s;
                              s = update_StateMachine sid (\<lambda>m. m\<lparr>ssm_ClientVersion := version\<rparr>) s
                          in (s\<lparr>sv_sessions := put key sid (sv_sessions s)\<rparr>, sid));
                   status = (case GetFloor floorID s of
                               Some p \<Rightarrow> GetState (sv_floor_at s p) | None \<Rightarrow> RequestStatusReleased)
               in (sendFloorState e sid floorID status s, None)))"

definition closeSession :: "nat \<Rightarrow> Server \<Rightarrow> Server" where
  "closeSession sid s =
     (case se_Transport (sv_session_at s sid) of
        Some t \<Rightarrow> update_transport t (tr_Close (sv_transport_at s t)) s
      | None \<Rightarrow> s)"

definition Server_Close :: "Env \<Rightarrow> Server \<Rightarrow> Server" where
  "Server_Close e s =
     (let s = fold closeSession (map snd (range_sessions e s)) (tick s)
      in case sv_udpListener s of Some l \<Rightarrow> UDPListener_Close l s | None \<Rightarrow> s)"

end
