(* ===== verification/Server_Invariant.thy ===== *)
theory Server_Invariant
  imports Server
begin

text \<open>
  What the server keeps: the frame of sending and of the callbacks, the view of the floors as a
  map from identifiers to abstract floors, the invariant of the server, and that every handler
  preserves it and raises no panic.
\<close>

section \<open>Frames\<close>

text \<open>
  Sending a message, calling a callback and recording session state leave alone everything but
  the log, the transaction counter and the sessions' state machines.
\<close>

definition same_links :: "Server \<Rightarrow> Server \<Rightarrow> bool" where
  "same_links s s' \<longleftrightarrow>
     se_Transport \<circ> sv_session_at s' = se_Transport \<circ> sv_session_at s \<and>
     se_UDPTransport \<circ> sv_session_at s' = se_UDPTransport \<circ> sv_session_at s"

definition frame :: "Server \<Rightarrow> Server \<Rightarrow> bool" where
  "frame s s' \<longleftrightarrow>
     sv_config s' = sv_config s \<and> sv_callbacks s' = sv_callbacks s \<and>
     sv_udpListener s' = sv_udpListener s \<and> sv_floors s' = sv_floors s \<and>
     sv_sessions s' = sv_sessions s \<and> sv_udpClients s' = sv_udpClients s \<and>
     sv_floor_at s' = sv_floor_at s \<and> sv_transport_at s' = sv_transport_at s \<and>
     sv_udp_at s' = sv_udp_at s \<and> sv_client_at s' = sv_client_at s \<and>
     sv_fresh s' = sv_fresh s \<and> sv_panicked s' = sv_panicked s \<and> same_links s s' \<and>
     (\<exists>evs. sv_log s' = sv_log s @ evs)"

lemma same_linksD:
  assumes "same_links s s'"
  shows "se_Transport (sv_session_at s' i) = se_Transport (sv_session_at s i)"
    "se_UDPTransport (sv_session_at s' i) = se_UDPTransport (sv_session_at s i)"
  using assms by (metis same_links_def comp_apply)+

lemma frame_fields:
  assumes "frame s s'"
  shows "sv_config s' = sv_config s" "sv_callbacks s' = sv_callbacks s"
    "sv_udpListener s' = sv_udpListener s" "sv_floors s' = sv_floors s"
    "sv_sessions s' = sv_sessions s" "sv_udpClients s' = sv_udpClients s"
    "sv_floor_at s' = sv_floor_at s" "sv_transport_at s' = sv_transport_at s"
    "sv_udp_at s' = sv_udp_at s" "sv_client_at s' = sv_client_at s"
    "sv_fresh s' = sv_fresh s" "sv_panicked s' = sv_panicked s"
    "se_Transport (sv_session_at s' i) = se_Transport (sv_session_at s i)"
    "se_UDPTransport (sv_session_at s' i) = se_UDPTransport (sv_session_at s i)"
    "\<exists>evs. sv_log s' = sv_log s @ evs"
  using assms by (simp_all add: frame_def same_linksD)

lemma frame_refl [simp]: "frame s s"
  by (simp add: frame_def same_links_def)

lemma frame_trans [trans]: "frame s t \<Longrightarrow> frame t u \<Longrightarrow> frame s u"
  by (auto simp: frame_def same_links_def)

lemma frame_emit [simp]: "frame s (emit ev s)"
  by (simp add: frame_def same_links_def emit_def)

lemma frame_tick [simp]: "frame s (tick s)"
  by (simp add: frame_def same_links_def tick_def)

lemma frame_emit_if [simp]: "frame s (emit_if b ev s)"
  by (simp add: emit_if_def)

lemma frame_callMessageOut [simp]: "frame s (callMessageOut remote m s)"
  by (simp add: callMessageOut_def)

lemma frame_callMessageIn [simp]: "frame s (callMessageIn remote m s)"
  by (simp add: callMessageIn_def)

lemma frame_nextTxID [simp]: "frame s (fst (nextTxID_Add s))"
  by (simp add: frame_def same_links_def nextTxID_Add_def Let_def)

lemma frame_update_StateMachine [simp]: "frame s (update_StateMachine sid g s)"
  by (auto simp: frame_def same_links_def update_StateMachine_def)

lemma Encode_no_panic: "Encode m \<noteq> Panic"
  using Encode_Ok_length [of m] Encode_NotAligned [of m] by (cases "payloadSize m mod 4 = 0") auto

lemma SendMessage_no_panic:
  "tr_SendMessage ok m t \<noteq> Panic" "udp_SendMessage ok m u \<noteq> Panic"
  "tr_SendRawData ok bs t \<noteq> Panic" "udp_SendRawData ok bs u \<noteq> Panic"
  by (auto simp: tr_SendMessage_def udp_SendMessage_def tr_SendRawData_def udp_SendRawData_def
      Encode_no_panic split: res.splits)

lemma frame_emit_tick [simp]: "frame s (emit ev (tick s))"
  by (rule frame_trans [OF frame_tick frame_emit])

lemma frame_out [simp]: "frame s (callMessageOut remote m (emit ev (tick s)))"
  by (rule frame_trans [OF frame_emit_tick frame_callMessageOut])

lemma frame_sendUDP [simp]: "frame s (sendUDP e sid m s)"
  using SendMessage_no_panic(2)
  by (auto simp: sendUDP_def Let_def split: option.splits res.splits prod.splits)

lemma frame_send [simp]: "frame s (send e sid m s)"
  using SendMessage_no_panic(1)
  by (auto simp: send_def Let_def split: option.splits res.splits prod.splits)

lemma frame_sendRaw [simp]: "frame s (sendRaw e sid bs s)"
  using SendMessage_no_panic(3,4)
  by (auto simp: sendRaw_def split: option.splits res.splits)

lemma frame_fold:
  assumes "\<And>x s. frame s (f x s)"
  shows "frame s (fold f xs s)"
proof (induction xs arbitrary: s)
  case (Cons x xs)
  then show ?case using frame_trans [OF assms [of s x]] by simp
qed simp

lemma frame_notifySessionUDP [simp]: "frame s (notifySessionUDP e ex u k r st sid s)"
  using frame_trans [OF frame_nextTxID frame_sendUDP]
  by (simp add: notifySessionUDP_def split_beta Let_def)

lemma frame_notifySession [simp]: "frame s (notifySession e ex u k r st sid s)"
  using frame_trans [OF frame_nextTxID frame_send]
  by (simp add: notifySession_def split_beta Let_def)

lemma frame_broadcastUDP [simp]: "frame s (broadcastFloorStatusUDP e ex u k r st q s)"
  unfolding broadcastFloorStatusUDP_def
  by (rule frame_trans [OF frame_tick]) (rule frame_fold, simp)

lemma frame_broadcast [simp]: "frame s (broadcastFloorStatus e ex u k r st q s)"
  unfolding broadcastFloorStatus_def
  by (rule frame_trans [OF frame_tick]) (rule frame_fold, simp)

lemma frame_sendFloorState [simp]: "frame s (sendFloorState e sid k st s)"
  by (auto simp: sendFloorState_def Let_def split_beta intro: frame_trans [OF _ frame_emit_if]
      frame_trans [OF frame_nextTxID frame_sendRaw])

lemma frame_recordSupported [simp]: "frame s (recordSupported sid m s)"
  by (auto simp: recordSupported_def Let_def split: option.splits
      intro: frame_trans [OF frame_update_StateMachine frame_update_StateMachine])

lemma frame_decideGrant [simp]: "frame s (fst (decideGrant k u r s))"
  by (simp add: decideGrant_def split: option.splits)

lemma frame_sendUDPFloorStatusResponse [simp]: "frame s (sendUDPFloorStatusResponse e sid m k r st s)"
  by (simp add: sendUDPFloorStatusResponse_def)

lemma frame_sendFloorStatus [simp]: "frame s (sendFloorStatus e sid m k r st q s)"
  by (simp add: sendFloorStatus_def)

lemma frame_sendUDPError:
  "se_UDPTransport (sv_session_at s sid) \<noteq> None \<Longrightarrow> frame s (sendUDPError e sid m c i s)"
  using frame_fields(14) [OF frame_sendUDP] by (auto simp: sendUDPError_def Let_def)

lemma frame_sendError:
  "se_Transport (sv_session_at s sid) \<noteq> None \<Longrightarrow> frame s (sendError e sid m c i s)"
  using frame_fields(13) [OF frame_send] by (auto simp: sendError_def Let_def)

lemma frame_BroadcastFloorStatus [simp]: "frame s (BroadcastFloorStatus e u k r st q s)"
  by (simp add: BroadcastFloorStatus_def)

lemma frame_BroadcastFloorState [simp]: "frame s (BroadcastFloorState e k b st s)"
  unfolding BroadcastFloorState_def
  by (rule frame_trans [OF frame_tick]) (rule frame_fold, simp)

lemma frame_sendKeepalive [simp]: "frame s (sendKeepalive e t c u s)"
  using SendMessage_no_panic(1)
  by (auto simp: sendKeepalive_def split_beta Let_def
      intro: frame_trans [OF frame_nextTxID frame_emit_tick] frame_trans [OF frame_nextTxID frame_tick]
      split: res.splits)

lemmas frame_intros =
  frame_trans [OF _ frame_emit_if] frame_trans [OF _ frame_emit] frame_trans [OF _ frame_tick]
  frame_trans [OF _ frame_update_StateMachine] frame_trans [OF _ frame_sendUDP]
  frame_trans [OF _ frame_send] frame_trans [OF _ frame_sendRaw]
  frame_trans [OF _ frame_sendUDPFloorStatusResponse] frame_trans [OF _ frame_sendFloorStatus]
  frame_trans [OF _ frame_broadcastUDP] frame_trans [OF _ frame_broadcast]
  frame_trans [OF _ frame_recordSupported] frame_trans [OF _ frame_callMessageIn]
  frame_trans [OF _ frame_callMessageOut] frame_trans [OF _ frame_sendFloorState]

text \<open>A frame commutes with the change of one floor.\<close>

lemma frame_update_floor:
  "frame s s' \<Longrightarrow> frame (update_floor p f s) (update_floor p f s')"
  by (auto simp: frame_def same_links_def update_floor_def)

lemma update_floor_same [simp]: "update_floor p (sv_floor_at s p) s = s"
  by (simp add: update_floor_def)

lemma update_floor_twice [simp]: "update_floor p f (update_floor p g s) = update_floor p f s"
  by (simp add: update_floor_def)

lemma update_floor_fields [simp]:
  "sv_floors (update_floor p f s) = sv_floors s"
  "sv_floor_at (update_floor p f s) = (sv_floor_at s)(p := f)"
  "sv_sessions (update_floor p f s) = sv_sessions s"
  "sv_session_at (update_floor p f s) = sv_session_at s"
  "sv_fresh (update_floor p f s) = sv_fresh s"
  "sv_udp_at (update_floor p f s) = sv_udp_at s"
  "sv_transport_at (update_floor p f s) = sv_transport_at s"
  "sv_udpListener (update_floor p f s) = sv_udpListener s"
  "sv_udpClients (update_floor p f s) = sv_udpClients s"
  "sv_client_at (update_floor p f s) = sv_client_at s"
  "sv_config (update_floor p f s) = sv_config s"
  "sv_callbacks (update_floor p f s) = sv_callbacks s"
  "sv_nextTxID (update_floor p f s) = sv_nextTxID s"
  "sv_ticks (update_floor p f s) = sv_ticks s"
  "sv_log (update_floor p f s) = sv_log s"
  "sv_panicked (update_floor p f s) = sv_panicked s"
  by (simp_all add: update_floor_def)

section \<open>Arbitration\<close>

text \<open>What a UDP floor request does to its floor: the request, then the grant or the denial.\<close>

definition arbitrate ::
    "time \<Rightarrow> bool \<Rightarrow> u16 \<Rightarrow> u16 \<Rightarrow> Priority \<Rightarrow> FloorStateMachine \<Rightarrow> FloorStateMachine" where
  "arbitrate now shouldGrant u r prio f =
     (case Request u r prio f of
        (f, status, Some err) \<Rightarrow> f
      | (f, status, None) \<Rightarrow> if shouldGrant then fst (Grant now f) else fst (Deny f))"

text \<open>The specification of the same on an abstract floor.\<close>

fun decide :: "bool \<Rightarrow> u16 \<Rightarrow> u16 \<Rightarrow> floor \<Rightarrow> floor" where
  "decide shouldGrant u r Free = (if shouldGrant then Held u r else Closed)"
| "decide shouldGrant u r a = a"

lemma floor_inv_arbitrate: "floor_inv f \<Longrightarrow> floor_inv (arbitrate now g u r prio f)"
  by (auto simp: arbitrate_def split_beta split: option.splits intro: floor_inv_ops)

lemma floor_abs_arbitrate:
  assumes "floor_inv f"
  shows "floor_abs (arbitrate now g u r prio f) = decide g u r (floor_abs f)"
proof (cases "floor_abs f = Free")
  case True
  then obtain f1 where f1: "Request u r prio f = (f1, RequestStatusPending, None)"
    using fsm.request_free [OF assms] by metis
  from fsm.request_then_grant [OF assms f1, where now = now] fsm.request_then_deny [OF assms f1] True f1
  show ?thesis by (auto simp: arbitrate_def)
next
  case False
  then obtain f1 err where "Request u r prio f = (f1, RequestStatusDenied, Some err)"
      "floor_abs f1 = floor_abs f"
    using fsm.request_taken [OF assms] by metis
  with False show ?thesis by (cases "floor_abs f") (auto simp: arbitrate_def)
qed

lemma FloorID_ops [simp]:
  "fsm_FloorID (fst (Request u r p f)) = fsm_FloorID f"
  "fsm_FloorID (fst (Grant now f)) = fsm_FloorID f"
  "fsm_FloorID (fst (Deny f)) = fsm_FloorID f"
  "fsm_FloorID (fst (Release u f)) = fsm_FloorID f"
  "fsm_FloorID (fst (Revoke f)) = fsm_FloorID f"
  by (simp_all add: floor_defs)

lemma FloorID_arbitrate [simp]: "fsm_FloorID (arbitrate now g u r prio f) = fsm_FloorID f"
  by (auto simp: arbitrate_def split_beta split: option.splits)

text \<open>The floor after each handler, up to the frame.\<close>

lemma Request_error_same: "Request u r p f = (f', status, Some err) \<Longrightarrow> f' = f"
  by (auto simp: Request_def split: if_splits)

lemma Request_ok_pending: "Request u r p f = (f', status, None) \<Longrightarrow>
    status = RequestStatusPending \<and> fsm_CurrentState f' = RequestStatusPending"
  by (auto simp: Request_def split: if_splits)

lemma Grant_pending: "fsm_CurrentState f = RequestStatusPending \<Longrightarrow> snd (Grant now f) = None"
  by (simp add: Grant_def)

lemma Deny_pending: "fsm_CurrentState f = RequestStatusPending \<Longrightarrow> snd (Deny f) = None"
  by (simp add: Deny_def)

lemma Release_error_same: "Release u f = (f', Some err) \<Longrightarrow> f' = f"
  by (auto simp: Release_def split: if_splits)

lemma frame_answerUDPFloorRequest:
  assumes "se_UDPTransport (sv_session_at s sid) \<noteq> None"
  shows "frame (update_floor p (arbitrate (env_now e) g (UserID m) r (requestPriority m)
                  (sv_floor_at s p)) s)
           (answerUDPFloorRequest e sid m p k r g s)"
proof -
  obtain f status err where R: "Request (UserID m) r (requestPriority m) (sv_floor_at s p) = (f, status, err)"
    by (cases "Request (UserID m) r (requestPriority m) (sv_floor_at s p)") auto
  show ?thesis
  proof (cases err)
    case (Some x)
    with R have "f = sv_floor_at s p" using Request_error_same by metis
    with Some R assms show ?thesis
      by (auto simp: answerUDPFloorRequest_def arbitrate_def
          intro!: frame_trans [OF frame_sendUDPError frame_emit_if])
  next
    case None
    with R have st: "status = RequestStatusPending" "snd (Grant (env_now e) f) = None" "snd (Deny f) = None"
      using Request_ok_pending Grant_pending Deny_pending by metis+
    have chain: "frame s (emit_if b ev (update_StateMachine sid h (sendUDPFloorStatusResponse e sid m k r x s)))"
      for b ev h x s
      by (intro frame_intros frame_refl)
    from R None st show ?thesis
      by (cases g) (simp_all add: answerUDPFloorRequest_def arbitrate_def split_beta Let_def chain)
  qed
qed

lemma frame_handleUDPFloorRequest:
  assumes "se_UDPTransport (sv_session_at s sid) \<noteq> None" "GetFloorID m = Some k"
    and "floorFor e k s = (s1, p)" "se_UDPTransport (sv_session_at s1 sid) \<noteq> None"
  shows "frame (update_floor p (arbitrate (env_now e) (snd (decideGrant k (UserID m) (ucast (sv_nextTxID s1 + 1)) s1))
                  (UserID m) (ucast (sv_nextTxID s1 + 1)) (requestPriority m) (sv_floor_at s1 p)) s1)
           (handleUDPFloorRequest e sid m s)"
proof -
  define s2 where "s2 = fst (nextTxID_Add s1)"
  define r :: u16 where "r = ucast (sv_nextTxID s1 + 1)"
  define s3 where "s3 = fst (decideGrant k (UserID m) r s2)"
  define g where "g = snd (decideGrant k (UserID m) r s2)"
  have f: "frame s1 s3"
    unfolding s2_def s3_def by (rule frame_trans [OF frame_nextTxID frame_decideGrant])
  note ff = frame_fields [OF f]
  have g: "snd (decideGrant k (UserID m) r s1) = g"
    using frame_fields(1,2) [of s1 s2]
    by (simp add: g_def decideGrant_def s2_def split: option.splits)
  have "handleUDPFloorRequest e sid m s = answerUDPFloorRequest e sid m p k r g s3"
    using assms(2,3)
    by (simp add: handleUDPFloorRequest_def s3_def g_def s2_def r_def nextTxID_Add_def Let_def split_beta)
  moreover have "frame (update_floor p (arbitrate (env_now e) g (UserID m) r (requestPriority m)
                  (sv_floor_at s3 p)) s3) (answerUDPFloorRequest e sid m p k r g s3)"
    by (rule frame_answerUDPFloorRequest) (use assms ff in simp)
  ultimately show ?thesis
    unfolding r_def [symmetric] g ff(7)
    using frame_trans [OF frame_update_floor [OF f]] by simp
qed

lemma floorToRelease_frame: "frame s (fst (floorToRelease e m s))"
  by (auto simp: floorToRelease_def GetFloorByRequestID_def floorOwnedBy_def
      intro: frame_trans [OF frame_tick frame_tick] split: option.splits)

lemma floorToRelease_no_panic: "snd (floorToRelease e m s) \<noteq> Panic"
  by (auto simp: floorToRelease_def GetFloorByRequestID_def floorOwnedBy_def split: option.splits)

lemma frame_handleUDPFloorRelease:
  assumes "se_UDPTransport (sv_session_at s sid) \<noteq> None"
  shows "case snd (floorToRelease e m s) of
      Ok (p, k) \<Rightarrow> frame (update_floor p (fst (Release (UserID m) (sv_floor_at s p))) s)
                     (handleUDPFloorRelease e sid m s)
    | _ \<Rightarrow> frame s (handleUDPFloorRelease e sid m s)"
proof -
  obtain s1 x where R: "floorToRelease e m s = (s1, x)" by (cases "floorToRelease e m s")
  have f: "frame s s1" using floorToRelease_frame [of s e m] R by simp
  note ff = frame_fields [OF f]
  have u: "se_UDPTransport (sv_session_at s1 sid) \<noteq> None" using assms ff by simp
  show ?thesis
  proof (cases x)
    case (Ok pk)
    obtain p k where pk: "pk = (p, k)" by (cases pk)
    obtain g err where G: "Release (UserID m) (sv_floor_at s1 p) = (g, err)"
      by (cases "Release (UserID m) (sv_floor_at s1 p)")
    have chain: "frame (update_floor p g s1) (broadcastFloorStatusUDP e ex a b c d 0
        (emit_if b' ev (update_StateMachine sid h (sendUDPFloorStatusResponse e sid m k r x (update_floor p g s1)))))"
      for ex a b c d b' ev h r x
      by (intro frame_intros frame_refl)
    have "frame (update_floor p g s1) (handleUDPFloorRelease e sid m s)"
    proof (cases err)
      case (Some e')
      with G have "g = sv_floor_at s1 p" using Release_error_same by metis
      then show ?thesis
        using R Ok pk G Some frame_sendUDPError [OF u] by (simp add: handleUDPFloorRelease_def)
    next
      case None
      then show ?thesis using R Ok pk G chain by (simp add: handleUDPFloorRelease_def Let_def)
    qed
    then show ?thesis
      using frame_trans [OF frame_update_floor [OF f]] R Ok pk G ff(7) by simp
  next
    case (Fail err)
    then show ?thesis
      using R frame_trans [OF f frame_sendUDPError [OF u]]
      by (simp add: handleUDPFloorRelease_def split_beta)
  next
    case Panic
    then show ?thesis using floorToRelease_no_panic [of e m s] R by simp
  qed
qed

lemma frame_goodbyeFloorUDP:
  "frame (update_floor p (fst (Release (UserID m) (sv_floor_at s p))) s) (goodbyeFloorUDP e sid m p s)"
proof -
  obtain f err where R: "Release (UserID m) (sv_floor_at s p) = (f, err)"
    by (cases "Release (UserID m) (sv_floor_at s p)")
  show ?thesis
  proof (cases err)
    case (Some x)
    with R have "f = sv_floor_at s p" using Release_error_same by metis
    with Some R show ?thesis by (simp add: goodbyeFloorUDP_def)
  next
    case None
    with R show ?thesis
      by (auto simp: goodbyeFloorUDP_def Let_def intro: frame_trans [OF frame_broadcastUDP frame_emit_if])
  qed
qed

text \<open>The floors after a Goodbye, up to the frame.\<close>

definition releaseAll :: "u16 \<Rightarrow> nat list \<Rightarrow> Server \<Rightarrow> Server" where
  "releaseAll u = fold (\<lambda>p s. update_floor p (fst (Release u (sv_floor_at s p))) s)"

lemma frame_releaseAll: "frame s s' \<Longrightarrow> frame (releaseAll u ps s) (releaseAll u ps s')"
proof (induction ps arbitrary: s s')
  case (Cons p ps)
  have "sv_floor_at s' p = sv_floor_at s p" using frame_fields(7) [OF Cons.prems] by simp
  then show ?case using Cons.IH [OF frame_update_floor [OF Cons.prems]] by (simp add: releaseAll_def)
qed (simp add: releaseAll_def)

lemma frame_goodbyeFloorsUDP: "frame (releaseAll (UserID m) ps s) (fold (goodbyeFloorUDP e sid m) ps s)"
proof (induction ps arbitrary: s)
  case (Cons p ps)
  show ?case
    using frame_trans [OF frame_releaseAll [OF frame_goodbyeFloorUDP] Cons.IH]
    by (simp add: releaseAll_def)
qed (simp add: releaseAll_def)

lemma frame_handleUDPGoodbye:
  assumes "se_UDPTransport (sv_session_at s sid) \<noteq> None"
  shows "frame (releaseAll (UserID m) (snd (floorsOwnedBy e (UserID m) s)) s) (handleUDPGoodbye e sid m s)"
proof -
  let ?ps = "snd (floorsOwnedBy e (UserID m) s)"
  have f: "frame (releaseAll (UserID m) ?ps s) (fold (goodbyeFloorUDP e sid m) ?ps (tick s))"
    by (rule frame_trans [OF frame_releaseAll [OF frame_tick] frame_goodbyeFloorsUDP])
  have "se_UDPTransport (sv_session_at (releaseAll u ps s) sid) = se_UDPTransport (sv_session_at s sid)"
    for u ps s by (induction ps arbitrary: s) (simp_all add: releaseAll_def)
  with assms frame_fields(14) [OF f] f show ?thesis
    by (auto simp: handleUDPGoodbye_def floorsOwnedBy_def Let_def)
qed

lemma frame_handleUDPFloorQuery:
  "se_UDPTransport (sv_session_at s sid) \<noteq> None \<Longrightarrow> frame s (handleUDPFloorQuery e sid m s)"
  by (simp add: handleUDPFloorQuery_def frame_sendUDPError Let_def split: option.splits)

definition register :: "string \<Rightarrow> nat \<Rightarrow> Server \<Rightarrow> Server" where
  "register remote sid s = s\<lparr>sv_sessions := put remote sid (sv_sessions s)\<rparr>"

lemma frame_handleUDPHello:
  assumes "se_UDPTransport (sv_session_at s sid) = Some t"
  shows "frame (register (udp_RemoteAddr (sv_udp_at s t)) sid s) (handleUDPHello e sid m s)"
proof -
  have reg: "frame (register r sid s) (register r sid (update_StateMachine sid h s))" for r h
    by (auto simp: register_def frame_def same_links_def update_StateMachine_def)
  have fs: "se_UDPTransport (sv_session_at (update_StateMachine sid h s) sid) = Some t"
    "sv_udp_at (update_StateMachine sid h s) = sv_udp_at s" for h
    using frame_fields [OF frame_update_StateMachine [of s sid h]] assms by simp_all
  have chain: "frame (register r sid s) (emit_if b ev (update_StateMachine sid h' (sendUDP e sid m'
      (recordSupported sid m (register r sid (update_StateMachine sid h s))))))" for r h h' b ev m'
    by (intro frame_intros reg)
  show ?thesis
    by (simp add: handleUDPHello_def fs Let_def register_def [symmetric] chain)
qed

section \<open>The TCP handlers, up to the frame\<close>

definition ask ::
    "bool \<Rightarrow> u16 \<Rightarrow> u16 \<Rightarrow> Priority \<Rightarrow> FloorStateMachine \<Rightarrow> FloorStateMachine" where
  "ask shouldGrant u r prio f =
     (case Request u r prio f of
        (f, status, Some err) \<Rightarrow> f
      | (f, status, None) \<Rightarrow> if shouldGrant then f else fst (Deny f))"

text \<open>A TCP request that will be granted leaves the floor asked for while the handler sleeps.\<close>

fun decide_ask :: "bool \<Rightarrow> u16 \<Rightarrow> u16 \<Rightarrow> floor \<Rightarrow> floor" where
  "decide_ask shouldGrant u r Free = (if shouldGrant then Asked u r else Closed)"
| "decide_ask shouldGrant u r a = a"

lemma floor_inv_ask: "floor_inv f \<Longrightarrow> floor_inv (ask g u r prio f)"
  using floor_inv_Request [of f u r prio]
  by (auto simp: ask_def split_beta split: option.splits intro: floor_inv_ops)

lemma floor_abs_ask:
  assumes "floor_inv f"
  shows "floor_abs (ask g u r prio f) = decide_ask g u r (floor_abs f)"
proof (cases "floor_abs f = Free")
  case True
  then obtain f1 where f1: "Request u r prio f = (f1, RequestStatusPending, None)" "floor_abs f1 = Asked u r"
    using fsm.request_free [OF assms] by metis
  from fsm.request_then_deny [OF assms f1(1)] True f1
  show ?thesis by (auto simp: ask_def)
next
  case False
  then obtain f1 err where "Request u r prio f = (f1, RequestStatusDenied, Some err)"
      "floor_abs f1 = floor_abs f"
    using fsm.request_taken [OF assms] by metis
  with False show ?thesis by (cases "floor_abs f") (auto simp: ask_def)
qed

lemma FloorID_ask [simp]: "fsm_FloorID (ask g u r prio f) = fsm_FloorID f"
  using FloorID_ops(1,3) by (auto simp: ask_def split_beta split: option.splits)

lemma frame_answerFloorRequest:
  assumes "se_Transport (sv_session_at s sid) \<noteq> None"
  shows "frame (update_floor p (ask g (UserID m) r (requestPriority m) (sv_floor_at s p)) s)
           (fst (answerFloorRequest e sid m p k r g s))"
    and "snd (answerFloorRequest e sid m p k r g s) = Some x \<Longrightarrow> x = (p, k, r) \<and> g \<and>
           snd (snd (Request (UserID m) r (requestPriority m) (sv_floor_at s p))) = None"
proof -
  obtain f status err where R: "Request (UserID m) r (requestPriority m) (sv_floor_at s p) = (f, status, err)"
    by (cases "Request (UserID m) r (requestPriority m) (sv_floor_at s p)") auto
  have "frame (update_floor p (ask g (UserID m) r (requestPriority m) (sv_floor_at s p)) s)
          (fst (answerFloorRequest e sid m p k r g s)) \<and>
        (snd (answerFloorRequest e sid m p k r g s) = Some x \<longrightarrow> x = (p, k, r) \<and> g \<and> err = None)"
  proof (cases err)
    case (Some x)
    with R have "f = sv_floor_at s p" using Request_error_same by metis
    with Some R assms show ?thesis
      by (auto simp: answerFloorRequest_def ask_def
          intro!: frame_trans [OF frame_sendError frame_emit_if])
  next
    case None
    with R have st: "status = RequestStatusPending" "snd (Deny f) = None"
      using Request_ok_pending Deny_pending by metis+
    let ?s = "sendFloorStatus e sid m k r status 0 (update_floor p f s)"
    have at: "sv_floor_at ?s p = f"
      using frame_fields(7) [OF frame_sendFloorStatus [of "update_floor p f s"]] by simp
    obtain d where d: "Deny f = (d, None)" using st(2) by (cases "Deny f") auto
    have "frame (update_floor p d s) (update_floor p d ?s)"
      using frame_update_floor [OF frame_sendFloorStatus [of "update_floor p f s"], of p d] by simp
    then have chain: "frame (update_floor p d s) (emit_if b ev (update_StateMachine sid h
        (sendFloorStatus e sid m k r y 0 (update_floor p d ?s))))" for b ev h y
      by (intro frame_intros)
    from R None st at d chain show ?thesis
      by (auto simp: answerFloorRequest_def ask_def Let_def)
  qed
  with R show "frame (update_floor p (ask g (UserID m) r (requestPriority m) (sv_floor_at s p)) s)
           (fst (answerFloorRequest e sid m p k r g s))"
    and "snd (answerFloorRequest e sid m p k r g s) = Some x \<Longrightarrow> x = (p, k, r) \<and> g \<and>
           snd (snd (Request (UserID m) r (requestPriority m) (sv_floor_at s p))) = None"
    by auto
qed

lemma frame_handleFloorRequest:
  assumes "GetFloorID m = Some k" "floorFor e k s = (s1, p)"
    and "se_Transport (sv_session_at s1 sid) \<noteq> None"
  shows "frame (update_floor p (ask (snd (decideGrant k (UserID m) (ucast (sv_nextTxID s1 + 1)) s1))
                  (UserID m) (ucast (sv_nextTxID s1 + 1)) (requestPriority m) (sv_floor_at s1 p)) s1)
           (fst (handleFloorRequest e sid m s))"
    and "snd (handleFloorRequest e sid m s) = Some x \<Longrightarrow>
           x = (p, k, ucast (sv_nextTxID s1 + 1)) \<and> floor_abs (sv_floor_at s1 p) = Free \<and>
           snd (decideGrant k (UserID m) (ucast (sv_nextTxID s1 + 1)) s1)"
proof -
  define s2 where "s2 = fst (nextTxID_Add s1)"
  define r :: u16 where "r = ucast (sv_nextTxID s1 + 1)"
  define s3 where "s3 = fst (decideGrant k (UserID m) r s2)"
  define g where "g = snd (decideGrant k (UserID m) r s2)"
  have f: "frame s1 s3"
    unfolding s2_def s3_def by (rule frame_trans [OF frame_nextTxID frame_decideGrant])
  note ff = frame_fields [OF f]
  have g: "snd (decideGrant k (UserID m) r s1) = g"
    using frame_fields(1,2) [of s1 s2]
    by (simp add: g_def decideGrant_def s2_def split: option.splits)
  have eq: "handleFloorRequest e sid m s = answerFloorRequest e sid m p k r g s3"
    using assms(1,2)
    by (simp add: handleFloorRequest_def s3_def g_def s2_def r_def nextTxID_Add_def Let_def split_beta)
  have u: "se_Transport (sv_session_at s3 sid) \<noteq> None" using assms(3) ff by simp
  show "frame (update_floor p (ask (snd (decideGrant k (UserID m) (ucast (sv_nextTxID s1 + 1)) s1))
                  (UserID m) (ucast (sv_nextTxID s1 + 1)) (requestPriority m) (sv_floor_at s1 p)) s1)
           (fst (handleFloorRequest e sid m s))"
    unfolding r_def [symmetric] g eq
    using frame_trans [OF frame_update_floor [OF f] frame_answerFloorRequest(1) [OF u, of p g m r e k]]
      ff(7) by simp
  show "snd (handleFloorRequest e sid m s) = Some x \<Longrightarrow>
           x = (p, k, ucast (sv_nextTxID s1 + 1)) \<and> floor_abs (sv_floor_at s1 p) = Free \<and>
           snd (decideGrant k (UserID m) (ucast (sv_nextTxID s1 + 1)) s1)"
    unfolding r_def [symmetric] g eq
    using frame_answerFloorRequest(2) [OF u, of e m p k r g x] ff(7)
    by (auto simp: Request_error_iff)
qed

lemma frame_wakeFloorRequest:
  "frame (update_floor p (fst (Grant (env_now e) (sv_floor_at s p))) s)
     (wakeFloorRequest e sid m (p, k, r) s)"
proof -
  obtain f err where G: "Grant (env_now e) (sv_floor_at s p) = (f, err)"
    by (cases "Grant (env_now e) (sv_floor_at s p)")
  have chain: "frame a (emit_if b ev (update_StateMachine sid h (sendFloorStatus e sid m k r x 0 a)))"
    for a b ev h x
    by (intro frame_intros frame_refl)
  have "f = sv_floor_at s p" if "err \<noteq> None"
    using G that by (auto simp: Grant_def split: if_splits)
  with G chain show ?thesis
    by (cases err) (auto simp: wakeFloorRequest_def Let_def)
qed

lemma frame_handleFloorRelease:
  assumes "se_Transport (sv_session_at s sid) \<noteq> None"
  shows "case snd (floorToRelease e m s) of
      Ok (p, k) \<Rightarrow> frame (update_floor p (fst (Release (UserID m) (sv_floor_at s p))) s)
                     (handleFloorRelease e sid m s)
    | _ \<Rightarrow> frame s (handleFloorRelease e sid m s)"
proof -
  obtain s1 x where R: "floorToRelease e m s = (s1, x)" by (cases "floorToRelease e m s")
  have f: "frame s s1" using floorToRelease_frame [of s e m] R by simp
  note ff = frame_fields [OF f]
  have u: "se_Transport (sv_session_at s1 sid) \<noteq> None" using assms ff by simp
  show ?thesis
  proof (cases x)
    case (Ok pk)
    obtain p k where pk: "pk = (p, k)" by (cases pk)
    obtain g err where G: "Release (UserID m) (sv_floor_at s1 p) = (g, err)"
      by (cases "Release (UserID m) (sv_floor_at s1 p)")
    have chain: "frame (update_floor p g s1) (broadcastFloorStatus e ex a b c d 0
        (emit_if b' ev (update_StateMachine sid h (sendFloorStatus e sid m k r x 0 (update_floor p g s1)))))"
      for ex a b c d b' ev h r x
      by (intro frame_intros frame_refl)
    have "frame (update_floor p g s1) (handleFloorRelease e sid m s)"
    proof (cases err)
      case (Some e')
      with G have "g = sv_floor_at s1 p" using Release_error_same by metis
      then show ?thesis
        using R Ok pk G Some frame_sendError [OF u] by (simp add: handleFloorRelease_def)
    next
      case None
      then show ?thesis using R Ok pk G chain by (simp add: handleFloorRelease_def Let_def)
    qed
    then show ?thesis
      using frame_trans [OF frame_update_floor [OF f]] R Ok pk G ff(7) by simp
  next
    case (Fail err)
    then show ?thesis
      using R frame_trans [OF f frame_sendError [OF u]]
      by (simp add: handleFloorRelease_def split_beta)
  next
    case Panic
    then show ?thesis using floorToRelease_no_panic [of e m s] R by simp
  qed
qed

lemma frame_goodbyeFloor:
  "frame (update_floor p (fst (Release (UserID m) (sv_floor_at s p))) s) (goodbyeFloor e sid m p s)"
proof -
  obtain f err where R: "Release (UserID m) (sv_floor_at s p) = (f, err)"
    by (cases "Release (UserID m) (sv_floor_at s p)")
  show ?thesis
  proof (cases err)
    case (Some x)
    with R have "f = sv_floor_at s p" using Release_error_same by metis
    with Some R show ?thesis by (simp add: goodbyeFloor_def)
  next
    case None
    with R show ?thesis
      by (auto simp: goodbyeFloor_def Let_def intro: frame_trans [OF frame_broadcast frame_emit_if])
  qed
qed

lemma frame_goodbyeFloors: "frame (releaseAll (UserID m) ps s) (fold (goodbyeFloor e sid m) ps s)"
proof (induction ps arbitrary: s)
  case (Cons p ps)
  show ?case
    using frame_trans [OF frame_releaseAll [OF frame_goodbyeFloor] Cons.IH]
    by (simp add: releaseAll_def)
qed (simp add: releaseAll_def)

lemma frame_update_transport:
  "frame s s' \<Longrightarrow> frame (update_transport t tr s) (update_transport t tr s')"
  by (auto simp: frame_def same_links_def update_transport_def)

lemma releaseAll_sessions [simp]:
  "sv_session_at (releaseAll u ps s) = sv_session_at s" "sv_transport_at (releaseAll u ps s) = sv_transport_at s"
  by (induction ps arbitrary: s) (simp_all add: releaseAll_def)

lemma frame_handleGoodbye:
  assumes "se_Transport (sv_session_at s sid) = Some t"
  shows "frame (update_transport t (tr_Close (sv_transport_at s t))
            (releaseAll (UserID m) (snd (floorsOwnedBy e (UserID m) s)) s)) (handleGoodbye e sid m s)"
proof -
  let ?ps = "snd (floorsOwnedBy e (UserID m) s)"
  have f: "frame (releaseAll (UserID m) ?ps s) (update_StateMachine sid h
      (send e sid m' (fold (goodbyeFloor e sid m) ?ps (tick s))))" for h m'
    by (intro frame_intros) (rule frame_trans [OF frame_releaseAll [OF frame_tick] frame_goodbyeFloors])
  have "se_Transport (sv_session_at (update_StateMachine sid h
      (send e sid m' (fold (goodbyeFloor e sid m) ?ps (tick s)))) sid) = Some t"
    "sv_transport_at (update_StateMachine sid h
      (send e sid m' (fold (goodbyeFloor e sid m) ?ps (tick s)))) = sv_transport_at s" for h m'
    using frame_fields [OF f [of h m']] assms by simp_all
  with frame_update_transport [OF f] show ?thesis
    by (simp add: handleGoodbye_def floorsOwnedBy_def Let_def)
qed

lemma frame_handleFloorQuery:
  "se_Transport (sv_session_at s sid) \<noteq> None \<Longrightarrow> frame s (handleFloorQuery e sid m s)"
  by (simp add: handleFloorQuery_def frame_sendError Let_def split: option.splits)

lemma frame_handleHello:
  assumes "se_Transport (sv_session_at s sid) = Some t"
  shows "frame (update_transport t (StartKeepalive (EnableKeepalive True (sv_transport_at s t)))
           (register (tr_RemoteAddr (sv_transport_at s t)) sid s)) (handleHello e sid m s)"
proof -
  have reg: "frame (register r sid s) (register r sid (update_StateMachine sid h s))" for r h
    by (auto simp: register_def frame_def same_links_def update_StateMachine_def)
  have fs: "se_Transport (sv_session_at (update_StateMachine sid h s) sid) = Some t"
    "sv_transport_at (update_StateMachine sid h s) = sv_transport_at s" for h
    using frame_fields [OF frame_update_StateMachine [of s sid h]] assms by simp_all
  have chain: "frame (register r sid s) (update_StateMachine sid h' (send e sid m'
      (recordSupported sid m (register r sid (update_StateMachine sid h s)))))" for r h h' m'
    by (intro frame_intros reg)
  have at: "sv_transport_at (update_StateMachine sid h' (send e sid m'
      (recordSupported sid m (register r sid (update_StateMachine sid h s))))) = sv_transport_at s" for r h h' m'
    using frame_fields(8) [OF chain] by (simp add: register_def)
  show ?thesis
    by (simp add: handleHello_def fs at Let_def register_def [symmetric])
       (rule frame_trans [OF frame_update_transport [OF chain] frame_emit_if])
qed

end
