(* ===== verification/Server_Spec.thy ===== *)
theory Server_Spec
  imports Server_Invariant
begin

text \<open>
  The floors of the server as an abstract map from floor identifiers to abstract floors, the
  invariant of the server, the specification of what a message does to that map, and the
  refinement: every message served over UDP acts on the map as specified.
\<close>

section \<open>Invariant and view\<close>

definition env_ok :: "Env \<Rightarrow> bool" where
  "env_ok e \<longleftrightarrow> (\<forall>n m. mset (env_floors e n m) = mset m) \<and> (\<forall>n m. mset (env_sessions e n m) = mset m)"

definition floors_ok :: "Server \<Rightarrow> bool" where
  "floors_ok s \<longleftrightarrow>
     keys_distinct (sv_floors s) \<and>
     (\<forall>(k, p) \<in> set (sv_floors s). p < sv_fresh s \<and> fsm_FloorID (sv_floor_at s p) = k) \<and>
     (\<forall>p. floor_inv (sv_floor_at s p))"

text \<open>A session's peer, when it has a transport.\<close>

definition peer :: "Server \<Rightarrow> nat \<Rightarrow> string option" where
  "peer s sid =
     (case se_UDPTransport (sv_session_at s sid) of
        Some t \<Rightarrow> Some (udp_RemoteAddr (sv_udp_at s t))
      | None \<Rightarrow> map_option (\<lambda>t. tr_RemoteAddr (sv_transport_at s t))
                  (se_Transport (sv_session_at s sid)))"

definition link_below :: "nat \<Rightarrow> Session \<Rightarrow> bool" where
  "link_below n sess \<longleftrightarrow>
     (\<forall>t. se_UDPTransport sess = Some t \<longrightarrow> t < n) \<and> (\<forall>t. se_Transport sess = Some t \<longrightarrow> t < n)"

definition sessions_ok :: "Server \<Rightarrow> bool" where
  "sessions_ok s \<longleftrightarrow>
     keys_distinct (sv_sessions s) \<and>
     (\<forall>(r, sid) \<in> set (sv_sessions s). sid < sv_fresh s \<and> peer s sid = Some r) \<and>
     (\<forall>sid. link_below (sv_fresh s) (sv_session_at s sid))"

lemma link_below_mono: "link_below n sess \<Longrightarrow> n \<le> n' \<Longrightarrow> link_below n' sess"
  by (auto simp: link_below_def)

definition listener_ok :: "Server \<Rightarrow> bool" where
  "listener_ok s \<longleftrightarrow>
     (case sv_udpListener s of
        None \<Rightarrow> True
      | Some l \<Rightarrow> \<forall>(r, t) \<in> set (ul_sessions l). t < sv_fresh s \<and> udp_RemoteAddr (sv_udp_at s t) = r)"

definition server_inv :: "Server \<Rightarrow> bool" where
  "server_inv s \<longleftrightarrow> floors_ok s \<and> sessions_ok s \<and> listener_ok s \<and> \<not> sv_panicked s"

text \<open>A server that listens on UDP only registers UDP sessions; one on TCP, TCP sessions.\<close>

definition udp_only :: "Server \<Rightarrow> bool" where
  "udp_only s \<longleftrightarrow> (\<forall>(r, sid) \<in> set (sv_sessions s). se_UDPTransport (sv_session_at s sid) \<noteq> None)"

definition floors_view :: "Server \<Rightarrow> u16 \<Rightarrow> floor option" where
  "floors_view s k = map_option (\<lambda>p. floor_abs (sv_floor_at s p)) (lookup (sv_floors s) k)"

section \<open>Preservation\<close>

lemma peer_frame: "frame s s' \<Longrightarrow> peer s' sid = peer s sid"
  using frame_fields(8,9,13,14) [of s s'] by (auto simp: peer_def split: option.splits)

lemma server_inv_frame:
  assumes "frame s s'" "server_inv s"
  shows "server_inv s'"
proof -
  note ff = frame_fields(1-14) [OF assms(1)]
  have "floors_ok s' = floors_ok s" by (simp add: floors_ok_def ff)
  moreover have "sessions_ok s' = sessions_ok s"
    by (simp add: sessions_ok_def link_below_def ff peer_frame [OF assms(1)])
  moreover have "listener_ok s' = listener_ok s"
    by (simp add: listener_ok_def ff cong: option.case_cong)
  ultimately show ?thesis using assms(2) by (simp add: server_inv_def ff)
qed

lemma udp_only_frame: "frame s s' \<Longrightarrow> udp_only s \<Longrightarrow> udp_only s'"
  using frame_fields(5,14) [of s s'] by (simp add: udp_only_def)

lemma floors_view_frame: "frame s s' \<Longrightarrow> floors_view s' = floors_view s"
  using frame_fields(4,7) [of s s'] by (simp add: floors_view_def fun_eq_iff)

lemma peer_update_floor [simp]: "peer (update_floor p f s) = peer s"
  by (auto simp: peer_def fun_eq_iff split: option.splits)

lemma server_inv_update_floor:
  assumes "server_inv s" "floor_inv f" "fsm_FloorID f = fsm_FloorID (sv_floor_at s p)"
  shows "server_inv (update_floor p f s)"
  using assms
  by (auto simp: server_inv_def floors_ok_def sessions_ok_def listener_ok_def split: option.splits)

lemma floors_ok_entry:
  "floors_ok s \<Longrightarrow> (k, p) \<in> set (sv_floors s) \<Longrightarrow> p < sv_fresh s \<and> fsm_FloorID (sv_floor_at s p) = k"
  by (auto simp: floors_ok_def)

lemma floors_ok_inj:
  assumes "floors_ok s" "lookup (sv_floors s) k = Some p" "lookup (sv_floors s) k' = Some p"
  shows "k = k'"
  using floors_ok_entry [OF assms(1) lookup_in_set [OF assms(2)]]
    floors_ok_entry [OF assms(1) lookup_in_set [OF assms(3)]] by simp

lemma floors_view_update_floor:
  assumes "floors_ok s" "lookup (sv_floors s) k = Some p"
  shows "floors_view (update_floor p f s) = (floors_view s)(k \<mapsto> floor_abs f)"
proof
  fix k'
  show "floors_view (update_floor p f s) k' = ((floors_view s)(k \<mapsto> floor_abs f)) k'"
    using floors_ok_inj [OF assms, of k'] assms(2)
    by (cases "lookup (sv_floors s) k'") (auto simp: floors_view_def)
qed

lemma sessions_ok_grow:
  assumes "sessions_ok s" "sv_sessions s' = sv_sessions s" "sv_session_at s' = sv_session_at s"
    and "sv_fresh s \<le> sv_fresh s'" "peer s' = peer s"
  shows "sessions_ok s'"
  unfolding sessions_ok_def assms(2,3,5)
proof (intro conjI allI ballI)
  show "keys_distinct (sv_sessions s)" using assms(1) by (simp add: sessions_ok_def)
  show "link_below (sv_fresh s') (sv_session_at s sid)" for sid
    using assms(1) by (intro link_below_mono [OF _ assms(4)]) (simp add: sessions_ok_def)
  show "case x of (r, sid) \<Rightarrow> sid < sv_fresh s' \<and> peer s sid = Some r" if "x \<in> set (sv_sessions s)" for x
    using that assms(1,4) by (auto simp: sessions_ok_def)
qed

lemma listener_ok_grow:
  assumes "listener_ok s" "sv_udpListener s' = sv_udpListener s" "sv_fresh s \<le> sv_fresh s'"
    and "sv_udp_at s' = sv_udp_at s"
  shows "listener_ok s'"
  using assms by (auto simp: listener_ok_def split: option.splits)

lemma server_inv_floor: "server_inv s \<Longrightarrow> floor_inv (sv_floor_at s p)"
  by (simp add: server_inv_def floors_ok_def)

lemma floorFor_fields:
  assumes "floorFor e k s = (s1, p)"
  shows "sv_sessions s1 = sv_sessions s" "sv_session_at s1 = sv_session_at s"
    "sv_udp_at s1 = sv_udp_at s" "sv_transport_at s1 = sv_transport_at s"
    "sv_udpListener s1 = sv_udpListener s" "sv_panicked s1 = sv_panicked s"
    "sv_config s1 = sv_config s" "sv_callbacks s1 = sv_callbacks s"
    "sv_nextTxID s1 = sv_nextTxID s" "sv_ticks s1 = sv_ticks s" "sv_log s1 = sv_log s"
    "sv_fresh s \<le> sv_fresh s1" "lookup (sv_floors s1) k = Some p"
  using assms
  by (auto simp: floorFor_def GetFloor_def CreateFloor_def Let_def split: option.splits)

lemma CreateFloor_ok:
  assumes "server_inv s" "lookup (sv_floors s) k = None"
    and "CreateFloor e k s = (s1, p)"
  shows "server_inv s1" "floors_view s1 = (floors_view s)(k \<mapsto> Free)" "floor_abs (sv_floor_at s1 p) = Free"
proof -
  let ?p = "sv_fresh s" and ?f = "NewFloorStateMachine (env_now e) k (cfg_ConferenceID (sv_config s))"
  have s1: "s1 = (update_floor ?p ?f s)\<lparr>sv_fresh := Suc ?p, sv_floors := put k ?p (sv_floors s)\<rparr>"
      "p = ?p"
    using assms(2,3) by (auto simp: CreateFloor_def Let_def)
  have old: "q < ?p" if "(k', q) \<in> set (sv_floors s)" for k' q
    using that assms(1) by (auto simp: server_inv_def floors_ok_def)
  then have neq: "q \<noteq> ?p" if "lookup (sv_floors s) k' = Some q" for k' q
    using that lookup_in_set by fastforce
  have fid: "fsm_FloorID ?f = k" by (simp add: NewFloorStateMachine_def)
  have put: "put k ?p (sv_floors s) = sv_floors s @ [(k, ?p)]"
    using assms(2) by (rule put_new)
  show "floor_abs (sv_floor_at s1 p) = Free" by (simp add: s1)
  show "floors_view s1 = (floors_view s)(k \<mapsto> Free)"
  proof
    fix k'
    show "floors_view s1 k' = ((floors_view s)(k \<mapsto> Free)) k'"
      using assms(2) neq [of k'] by (cases "lookup (sv_floors s) k'") (auto simp: floors_view_def s1)
  qed
  have "floors_ok s1"
    using assms(1,2) old fid
    by (auto simp: server_inv_def floors_ok_def s1 put keys_distinct_def map_of_eq_None_iff)
       (fastforce simp: less_Suc_eq)+
  moreover have "sessions_ok s1"
  proof -
    have eqs: "sv_sessions s1 = sv_sessions s" "sv_session_at s1 = sv_session_at s"
      "sv_fresh s1 = Suc ?p" "peer s1 = peer s"
      by (auto simp: s1 peer_def fun_eq_iff split: option.splits)
    show ?thesis
      by (rule sessions_ok_grow [of s]) (use assms(1) in \<open>simp_all add: eqs server_inv_def\<close>)
  qed
  moreover have "listener_ok s1"
    by (rule listener_ok_grow [of s]) (use assms(1) in \<open>simp_all add: server_inv_def s1\<close>)
  ultimately show "server_inv s1"
    using assms(1) by (simp add: server_inv_def s1)
qed

lemma floorFor_ok:
  assumes "server_inv s" "floorFor e k s = (s1, p)"
  shows "server_inv s1"
    "floors_view s1 = (floors_view s)(k \<mapsto> floor_abs (sv_floor_at s1 p))"
    "floor_abs (sv_floor_at s1 p) = (case floors_view s k of Some a \<Rightarrow> a | None \<Rightarrow> Free)"
proof -
  have "server_inv s1 \<and> floors_view s1 = (floors_view s)(k \<mapsto> floor_abs (sv_floor_at s1 p)) \<and>
    floor_abs (sv_floor_at s1 p) = (case floors_view s k of Some a \<Rightarrow> a | None \<Rightarrow> Free)"
  proof (cases "lookup (sv_floors s) k")
    case None
    then have c: "CreateFloor e k s = (s1, p)" using assms(2) by (simp add: floorFor_def GetFloor_def)
    from CreateFloor_ok [OF assms(1) None c] None show ?thesis by (simp add: floors_view_def)
  next
    case (Some q)
    then have "s1 = s" "p = q" using assms(2) by (simp_all add: floorFor_def GetFloor_def)
    with Some assms(1) show ?thesis by (auto simp: floors_view_def fun_eq_iff)
  qed
  then show "server_inv s1"
    "floors_view s1 = (floors_view s)(k \<mapsto> floor_abs (sv_floor_at s1 p))"
    "floor_abs (sv_floor_at s1 p) = (case floors_view s k of Some a \<Rightarrow> a | None \<Rightarrow> Free)"
    by simp_all
qed

lemma server_inv_register:
  assumes "server_inv s" "sid < sv_fresh s" "peer s sid = Some r"
  shows "server_inv (register r sid s)"
proof -
  have p: "peer (register r sid s) = peer s"
    by (auto simp: register_def peer_def fun_eq_iff split: option.splits)
  have "sessions_ok (register r sid s)"
    using assms unfolding server_inv_def sessions_ok_def p
    by (auto simp: register_def in_set_lookup dest!: lookup_in_set split: if_splits)
  then show ?thesis
    using assms(1)
    by (simp add: server_inv_def floors_ok_def listener_ok_def register_def cong: option.case_cong)
qed

lemma floors_view_register [simp]: "floors_view (register r sid s) = floors_view s"
  by (simp add: floors_view_def register_def fun_eq_iff)

lemma newSession_ok:
  assumes "server_inv s" "newSession e tr utr u r s = (s1, sid)"
    and "\<And>t. tr = Some t \<Longrightarrow> t < sv_fresh s" "\<And>t. utr = Some t \<Longrightarrow> t < sv_fresh s"
  shows "server_inv s1" "sid = sv_fresh s" "sv_fresh s1 = Suc sid" "floors_view s1 = floors_view s"
    "sv_session_at s1 = (sv_session_at s)(sid := sv_session_at s1 sid)"
    "se_Transport (sv_session_at s1 sid) = tr" "se_UDPTransport (sv_session_at s1 sid) = utr"
proof -
  have s1: "s1 = s\<lparr>sv_session_at := sv_session_at s1, sv_fresh := Suc (sv_fresh s)\<rparr>" "sid = sv_fresh s"
    "sv_session_at s1 = (sv_session_at s)(sid := sv_session_at s1 sid)"
    "se_Transport (sv_session_at s1 sid) = tr" "se_UDPTransport (sv_session_at s1 sid) = utr"
    using assms(2) by (auto simp: newSession_def Let_def)
  then show "sid = sv_fresh s"
    "sv_session_at s1 = (sv_session_at s)(sid := sv_session_at s1 sid)"
    "se_Transport (sv_session_at s1 sid) = tr" "se_UDPTransport (sv_session_at s1 sid) = utr" by blast+
  obtain g where g: "s1 = s\<lparr>sv_session_at := g, sv_fresh := Suc (sv_fresh s)\<rparr>"
    using s1(1) by blast
  show "sv_fresh s1 = Suc sid" using g s1(2) by simp
  show "floors_view s1 = floors_view s" by (simp add: g floors_view_def fun_eq_iff)
  have gsid: "g = (sv_session_at s)(sid := g sid)" "se_Transport (g sid) = tr" "se_UDPTransport (g sid) = utr"
    using s1(3-5) by (simp_all add: g)
  have neq: "g x = sv_session_at s x" if "x < sv_fresh s" for x
    using that s1(2) gsid(1) by (metis fun_upd_other less_irrefl)
  have "sessions_ok s1"
    unfolding sessions_ok_def
  proof (intro conjI allI ballI)
    show "keys_distinct (sv_sessions s1)"
      using assms(1) by (simp add: g server_inv_def sessions_ok_def)
    show "link_below (sv_fresh s1) (sv_session_at s1 x)" for x
    proof (cases "x = sid")
      case True
      with gsid assms(3,4) show ?thesis by (auto simp: link_below_def g intro: less_SucI)
    next
      case False
      then have "g x = sv_session_at s x" using gsid(1) by (metis fun_upd_other)
      then show ?thesis
        using assms(1) link_below_mono [of "sv_fresh s" _ "Suc (sv_fresh s)"]
        by (simp add: g server_inv_def sessions_ok_def)
    qed
    show "case x of (r, sid) \<Rightarrow> sid < sv_fresh s1 \<and> peer s1 sid = Some r" if "x \<in> set (sv_sessions s1)" for x
    proof -
      obtain r y where x: "x = (r, y)" by (cases x)
      with that assms(1) have y: "y < sv_fresh s" "peer s y = Some r"
        by (auto simp: g server_inv_def sessions_ok_def)
      then show ?thesis using neq [OF y(1)] by (simp add: x g peer_def cong: option.case_cong)
    qed
  qed
  then show "server_inv s1"
    using assms(1) by (auto simp: g server_inv_def floors_ok_def listener_ok_def split: option.splits)
qed

lemma getOrCreateTransport_ok:
  assumes "server_inv s" "sv_udpListener s = Some l" "getOrCreateTransport l r s = (s1, t)"
  shows "server_inv s1" "floors_view s1 = floors_view s" "t < sv_fresh s1"
    "udp_RemoteAddr (sv_udp_at s1 t) = r" "sv_sessions s1 = sv_sessions s"
    "sv_session_at s1 = sv_session_at s" "sv_udpClients s1 = sv_udpClients s"
    "sv_config s1 = sv_config s" "sv_callbacks s1 = sv_callbacks s" "sv_nextTxID s1 = sv_nextTxID s"
    "sv_log s1 = sv_log s" "sv_ticks s1 = sv_ticks s"
proof -
  have "server_inv s1 \<and> floors_view s1 = floors_view s \<and> t < sv_fresh s1 \<and>
    udp_RemoteAddr (sv_udp_at s1 t) = r"
  proof (cases "lookup (ul_sessions l) r")
    case (Some t')
    with assms have "s1 = s" "t = t'" by (simp_all add: getOrCreateTransport_def)
    moreover have "t' < sv_fresh s \<and> udp_RemoteAddr (sv_udp_at s t') = r"
      using lookup_in_set [OF Some] assms(1,2) by (auto simp: server_inv_def listener_ok_def)
    ultimately show ?thesis using assms(1) by simp
  next
    case None
    let ?t = "sv_fresh s"
    have s1: "s1 = s\<lparr>sv_udp_at := (sv_udp_at s)(?t := NewUDPTransport r), sv_fresh := Suc ?t,
               sv_udpListener := Some (l\<lparr>ul_sessions := put r ?t (ul_sessions l)\<rparr>)\<rparr>" "t = ?t"
      using assms(3) None by (auto simp: getOrCreateTransport_def Let_def)
    have lb: "link_below ?t (sv_session_at s y)" for y
      using assms(1) by (simp add: server_inv_def sessions_ok_def)
    have "peer s1 y = peer s y" for y
      using lb [of y] by (auto simp: s1 peer_def link_below_def split: option.splits)
    then have "peer s1 = peer s" by (rule ext)
    then have "sessions_ok s1"
      by (rule sessions_ok_grow [of s, rotated 4])
         (use assms(1) in \<open>simp_all add: s1 server_inv_def\<close>)
    moreover have "listener_ok s1"
      using assms(1,2)
      by (auto simp: s1 server_inv_def listener_ok_def NewUDPTransport_def put_new [OF None])
    moreover have "floors_ok s1"
      using assms(1) by (auto simp: s1 server_inv_def floors_ok_def)
    ultimately have "server_inv s1"
      using assms(1) by (simp add: server_inv_def s1)
    moreover have "floors_view s1 = floors_view s" by (simp add: s1 floors_view_def fun_eq_iff)
    ultimately show ?thesis by (simp add: s1 NewUDPTransport_def)
  qed
  then show "server_inv s1" "floors_view s1 = floors_view s" "t < sv_fresh s1"
    "udp_RemoteAddr (sv_udp_at s1 t) = r" by simp_all
  show "sv_sessions s1 = sv_sessions s"
    "sv_session_at s1 = sv_session_at s" "sv_udpClients s1 = sv_udpClients s"
    "sv_config s1 = sv_config s" "sv_callbacks s1 = sv_callbacks s" "sv_nextTxID s1 = sv_nextTxID s"
    "sv_log s1 = sv_log s" "sv_ticks s1 = sv_ticks s"
    using assms(3) by (auto simp: getOrCreateTransport_def Let_def split: option.splits)
qed

end
