(* ===== verification/Server_Refinement.thy ===== *)
theory Server_Refinement
  imports Server_Spec
begin

text \<open>
  The specification of floor control, a relation between the floors before and after a message
  is served, and its refinement by the UDP server: every datagram that reaches the server is
  one such step, keeps the invariant and raises no panic. The safety of holding a floor is
  proved on the specification and carried over.
\<close>

section \<open>The specification\<close>

text \<open>
  \<open>policy\<close> decides a request for a floor by a user under a request identifier; \<open>r\<close> is the
  identifier a new request gets. A floor the server has not seen is free.
\<close>

definition floor_or_free :: "(u16 \<Rightarrow> floor option) \<Rightarrow> u16 \<Rightarrow> floor" where
  "floor_or_free v k = (case v k of Some a \<Rightarrow> a | None \<Rightarrow> Free)"

fun request_of :: "floor \<Rightarrow> u16" where
  "request_of (Asked u r) = r"
| "request_of (Held u r) = r"
| "request_of _ = 0"

text \<open>
  The floors a release may mean: the one named; without a name, any with the given request;
  and when there is none, any floor in use by the sender.
\<close>

definition release_target :: "message \<Rightarrow> (u16 \<Rightarrow> floor option) \<Rightarrow> u16 \<Rightarrow> bool" where
  "release_target m v k \<longleftrightarrow> v k \<noteq> None \<and>
     (case GetFloorID m of
        Some k' \<Rightarrow> k = k'
      | None \<Rightarrow>
          (case GetFloorRequestID m of
             None \<Rightarrow> False
           | Some reqID \<Rightarrow>
               request_of (the (v k)) = reqID \<or>
               (\<forall>k' a. v k' = Some a \<longrightarrow> request_of a \<noteq> reqID) \<and>
               the (v k) \<noteq> Free \<and> owner_of (the (v k)) = UserID m))"

definition leave :: "u16 \<Rightarrow> floor \<Rightarrow> floor" where
  "leave u a = (if owner_of a = u then Free else a)"

inductive serves ::
    "(u16 \<Rightarrow> u16 \<Rightarrow> u16 \<Rightarrow> bool) \<Rightarrow> u16 \<Rightarrow> message \<Rightarrow>
     (u16 \<Rightarrow> floor option) \<Rightarrow> (u16 \<Rightarrow> floor option) \<Rightarrow> bool"
  for policy :: "u16 \<Rightarrow> u16 \<Rightarrow> u16 \<Rightarrow> bool" and r :: u16 and m :: message where
  request: "Primitive m = PrimitiveFloorRequest \<Longrightarrow> GetFloorID m = Some k \<Longrightarrow>
     serves policy r m v
       (v(k \<mapsto> decide (policy k (UserID m) r) (UserID m) r (floor_or_free v k)))"
| release: "Primitive m = PrimitiveFloorRelease \<Longrightarrow> release_target m v k \<Longrightarrow>
     serves policy r m v (v(k \<mapsto> abs_op (OpRelease (UserID m)) (the (v k))))"
| goodbye: "Primitive m = PrimitiveGoodbye \<Longrightarrow>
     serves policy r m v (\<lambda>k. map_option (leave (UserID m)) (v k))"
| no_floor: "Primitive m = PrimitiveFloorRequest \<Longrightarrow> GetFloorID m = None \<Longrightarrow> serves policy r m v v"
| no_target: "Primitive m = PrimitiveFloorRelease \<Longrightarrow> \<forall>k. \<not> release_target m v k \<Longrightarrow>
     serves policy r m v v"
| other: "Primitive m \<notin> {PrimitiveFloorRequest, PrimitiveFloorRelease, PrimitiveGoodbye} \<Longrightarrow>
     serves policy r m v v"

inductive_cases serves_cases: "serves policy r m v v'"

text \<open>A floor held by a user is taken away only by that user's or user 0's release, or by the
  holder's Goodbye.\<close>

definition gives_up :: "u16 \<Rightarrow> message \<Rightarrow> bool" where
  "gives_up u m \<longleftrightarrow>
     Primitive m = PrimitiveFloorRelease \<and> (UserID m = u \<or> UserID m = 0) \<or>
     Primitive m = PrimitiveGoodbye \<and> UserID m = u"

lemma serves_held:
  assumes "serves policy r' m v v'" "v k = Some (Held u r)" "\<not> gives_up u m"
  shows "v' k = Some (Held u r)"
  using assms(1)
  by (cases rule: serves_cases) (use assms(2,3) in \<open>auto simp: gives_up_def floor_or_free_def leave_def\<close>)

text \<open>The policy of a server: the callback when there is one, else \<^verbatim>\<open>AutoGrant\<close>.\<close>

definition policy_of :: "Server \<Rightarrow> u16 \<Rightarrow> u16 \<Rightarrow> u16 \<Rightarrow> bool" where
  "policy_of s k u r =
     (case cb_OnFloorRequest (sv_callbacks s) of
        Some answer \<Rightarrow> answer k u r
      | None \<Rightarrow> cfg_AutoGrant (sv_config s))"

definition next_request :: "Server \<Rightarrow> u16" where
  "next_request s = ucast (sv_nextTxID s + 1)"

lemma decideGrant_policy: "snd (decideGrant k u r s) = policy_of s k u r"
  by (simp add: decideGrant_def policy_of_def split: option.splits)

section \<open>Requests and releases\<close>

lemma UDPFloorRequest_refines:
  fixes e :: Env and m :: message
  assumes "server_inv s" "se_UDPTransport (sv_session_at s sid) \<noteq> None" "GetFloorID m = Some k"
  defines "s' \<equiv> handleUDPFloorRequest e sid m s"
  shows "server_inv s'"
    "floors_view s' = (floors_view s)
       (k \<mapsto> decide (policy_of s k (UserID m) (next_request s)) (UserID m) (next_request s)
               (floor_or_free (floors_view s) k))"
    "sv_sessions s' = sv_sessions s"
    "se_UDPTransport (sv_session_at s' x) = se_UDPTransport (sv_session_at s x)"
proof -
  obtain s1 p where F: "floorFor e k s = (s1, p)" by (cases "floorFor e k s")
  note ok = floorFor_ok [OF assms(1) F] and fs = floorFor_fields [OF F]
  let ?f = "arbitrate (env_now e) (policy_of s k (UserID m) (next_request s)) (UserID m)
              (next_request s) (requestPriority m) (sv_floor_at s1 p)"
  have fi: "floor_inv (sv_floor_at s1 p)" using ok(1) by (rule server_inv_floor)
  have "policy_of s1 = policy_of s" "next_request s1 = next_request s"
    by (simp_all add: policy_of_def next_request_def fun_eq_iff fs cong: option.case_cong)
  then have fr: "frame (update_floor p ?f s1) s'"
    using frame_handleUDPFloorRequest [OF assms(2,3) F] assms(2) fs
    by (simp add: s'_def decideGrant_policy next_request_def)
  have "server_inv (update_floor p ?f s1)"
    by (rule server_inv_update_floor [OF ok(1) floor_inv_arbitrate [OF fi]]) simp
  with fr show "server_inv s'" by (rule server_inv_frame)
  have "floors_view (update_floor p ?f s1) = (floors_view s1)(k \<mapsto> floor_abs ?f)"
    using ok(1) fs by (intro floors_view_update_floor) (simp_all add: server_inv_def)
  then show "floors_view s' = (floors_view s)
       (k \<mapsto> decide (policy_of s k (UserID m) (next_request s)) (UserID m) (next_request s)
               (floor_or_free (floors_view s) k))"
    using floors_view_frame [OF fr] ok
    by (simp add: floor_abs_arbitrate [OF fi] floor_or_free_def)
  show "sv_sessions s' = sv_sessions s"
    "se_UDPTransport (sv_session_at s' x) = se_UDPTransport (sv_session_at s x)"
    using frame_fields [OF fr] fs by simp_all
qed

text \<open>What the lookup of a release finds.\<close>

lemma range_floors_set: "env_ok e \<Longrightarrow> set (range_floors e s) = set (sv_floors s)"
  unfolding range_floors_def env_ok_def by (metis mset_eq_setD)

lemma request_of_abs: "floor_inv f \<Longrightarrow> request_of (floor_abs f) = fsm_FloorRequestID f"
  by (auto simp: floor_inv_def floor_abs_def)

lemma in_floors_view:
  assumes "server_inv s" "(k, p) \<in> set (sv_floors s)"
  shows "floors_view s k = Some (floor_abs (sv_floor_at s p))" "lookup (sv_floors s) k = Some p"
    "fsm_FloorID (sv_floor_at s p) = k"
  using assms floors_ok_entry [of s k p] in_set_lookup [of "sv_floors s" k p]
  by (auto simp: floors_view_def server_inv_def floors_ok_def)

lemma floors_view_Some:
  assumes "floors_view s k = Some a"
  obtains p where "(k, p) \<in> set (sv_floors s)" "a = floor_abs (sv_floor_at s p)"
  using assms lookup_in_set [of "sv_floors s" k] by (auto simp: floors_view_def)

lemma find_floor:
  assumes "env_ok e" "server_inv s"
    and "List.find P (map snd (range_floors e s)) = Some p"
  shows "\<exists>k. (k, p) \<in> set (sv_floors s) \<and> P p"
proof -
  from assms(3) have "P p" "p \<in> set (map snd (range_floors e s))"
    by (auto simp: find_Some_iff simp del: set_map intro: nth_mem)
  then show ?thesis using range_floors_set [OF assms(1), of s] by auto
qed

lemma find_floor_None:
  assumes "env_ok e" "List.find P (map snd (range_floors e s)) = None" "(k, p) \<in> set (sv_floors s)"
  shows "\<not> P p"
  using assms range_floors_set [OF assms(1), of s] by (force simp: find_None_iff)

lemma floorToRelease_Ok:
  assumes "env_ok e" "server_inv s" "snd (floorToRelease e m s) = Ok (p, k)"
  shows "(k, p) \<in> set (sv_floors s) \<and> release_target m (floors_view s) k"
proof (cases "GetFloorID m")
  case (Some k')
  with assms(3) have k: "k' = k" "(k, p) \<in> set (sv_floors s)"
    by (auto simp: floorToRelease_def GetFloor_def split: option.splits dest: lookup_in_set)
  with Some in_floors_view [OF assms(2) k(2)] show ?thesis by (simp add: release_target_def)
next
  case None
  with assms(3) obtain reqID where req: "GetFloorRequestID m = Some reqID"
    by (auto simp: floorToRelease_def split: option.splits)
  let ?F1 = "List.find (\<lambda>p. fsm_GetFloorRequestID (sv_floor_at s p) = reqID) (map snd (range_floors e s))"
  show ?thesis
  proof (cases ?F1)
    case (Some q)
    with assms(3) None req have q: "p = q" "k = fsm_FloorID (sv_floor_at s p)"
      by (auto simp: floorToRelease_def GetFloorByRequestID_def tick_def)
    from find_floor [OF assms(1,2) Some] obtain k' where
      k': "(k', q) \<in> set (sv_floors s)" "fsm_GetFloorRequestID (sv_floor_at s q) = reqID" by auto
    note iv = in_floors_view [OF assms(2) k'(1)]
    have "k = k'" using iv(3) q by simp
    then show ?thesis
      using iv k' q None req request_of_abs [OF server_inv_floor [OF assms(2)]]
      by (simp add: release_target_def fsm_GetFloorRequestID_def)
  next
    case miss: None
    let ?P = "\<lambda>p. \<not> IsAvailable (sv_floor_at s p) \<and> GetOwner (sv_floor_at s p) = UserID m"
    have "List.find ?P (map snd (range_floors e (tick s))) = Some p \<and> k = fsm_FloorID (sv_floor_at s p)"
      using assms(3) None req miss
      by (auto simp: floorToRelease_def GetFloorByRequestID_def floorOwnedBy_def tick_def
          split: option.splits)
    then have f: "List.find ?P (map snd (range_floors e (tick s))) = Some p" and k: "k = fsm_FloorID (sv_floor_at s p)"
      by blast+
    have "server_inv (tick s)" using server_inv_frame [OF frame_tick assms(2)] .
    from find_floor [OF assms(1) this f] obtain k' where
      k': "(k', p) \<in> set (sv_floors s)" "?P p" by (auto simp: tick_def)
    note iv = in_floors_view [OF assms(2) k'(1)]
    have inv: "floor_inv (sv_floor_at s q)" for q using server_inv_floor [OF assms(2)] .
    have "request_of a \<noteq> reqID" if v: "floors_view s k'' = Some a" for k'' a
    proof -
      from v obtain q where q: "(k'', q) \<in> set (sv_floors s)" "a = floor_abs (sv_floor_at s q)"
        by (rule floors_view_Some)
      then show ?thesis
        using find_floor_None [OF assms(1) miss q(1)] request_of_abs [OF inv]
        by (simp add: fsm_GetFloorRequestID_def)
    qed
    moreover have "floor_abs (sv_floor_at s p) \<noteq> Free \<and> owner_of (floor_abs (sv_floor_at s p)) = UserID m"
      using k'(2) floor_abs_owner [OF inv, of p] by (auto simp: IsAvailable_def GetOwner_def floor_abs_def)
    ultimately show ?thesis
      using iv k k' None req by (simp add: release_target_def)
  qed
qed

lemma floorToRelease_Fail:
  assumes "env_ok e" "server_inv s" "snd (floorToRelease e m s) = Fail err"
  shows "\<not> release_target m (floors_view s) k"
proof (cases "GetFloorID m")
  case (Some k')
  with assms(3) show ?thesis
    by (auto simp: floorToRelease_def GetFloor_def release_target_def floors_view_def split: option.splits)
next
  case None
  show ?thesis
  proof (cases "GetFloorRequestID m")
    case req: (Some reqID)
    let ?P = "\<lambda>p. \<not> IsAvailable (sv_floor_at s p) \<and> GetOwner (sv_floor_at s p) = UserID m"
    have miss: "List.find (\<lambda>p. fsm_GetFloorRequestID (sv_floor_at s p) = reqID)
          (map snd (range_floors e s)) = None"
      and "List.find ?P (map snd (range_floors e (tick s))) = None"
      using assms(3) None req
      by (auto simp: floorToRelease_def GetFloorByRequestID_def floorOwnedBy_def tick_def
          split: option.splits)
    then have notP: "\<not> ?P p" if "(k, p) \<in> set (sv_floors s)" for k p
      using that find_floor_None [OF assms(1), of ?P "tick s" k p] by (simp add: tick_def)
    have inv: "floor_inv (sv_floor_at s q)" for q using server_inv_floor [OF assms(2)] .
    show ?thesis
    proof
      assume "release_target m (floors_view s) k"
      then obtain a where a: "floors_view s k = Some a"
          "request_of a = reqID \<or> a \<noteq> Free \<and> owner_of a = UserID m"
        using None req by (auto simp: release_target_def)
      from a(1) obtain p where p: "(k, p) \<in> set (sv_floors s)" "a = floor_abs (sv_floor_at s p)"
        by (rule floors_view_Some)
      have "request_of a \<noteq> reqID"
        using find_floor_None [OF assms(1) miss p(1)] request_of_abs [OF inv] p(2)
        by (simp add: fsm_GetFloorRequestID_def)
      with a(2) notP [OF p(1)] floor_abs_owner [OF inv, of p] p(2) show False
        by (auto simp: IsAvailable_def GetOwner_def floor_abs_def split: if_splits)
    qed
  next
    case req: None
    with None show ?thesis by (auto simp: release_target_def)
  qed
qed

text \<open>The release handlers of both transports act on the floors in the same way.\<close>

definition release_frame :: "Env \<Rightarrow> message \<Rightarrow> Server \<Rightarrow> Server \<Rightarrow> bool" where
  "release_frame e m s s' \<longleftrightarrow>
     (case snd (floorToRelease e m s) of
        Ok (p, k) \<Rightarrow> frame (update_floor p (fst (Release (UserID m) (sv_floor_at s p))) s) s'
      | _ \<Rightarrow> frame s s')"

lemma release_frame_floor:
  assumes "release_frame e m s s'"
  obtains p where "frame (update_floor p (fst (Release (UserID m) (sv_floor_at s p))) s) s'"
    | "frame s s'"
  using assms by (auto simp: release_frame_def split: res.splits prod.splits)

lemma release_refines:
  assumes "env_ok e" "server_inv s" "Primitive m = PrimitiveFloorRelease" "release_frame e m s s'"
  shows "server_inv s'" "serves policy r m (floors_view s) (floors_view s')"
    "sv_sessions s' = sv_sessions s"
    "se_UDPTransport (sv_session_at s' x) = se_UDPTransport (sv_session_at s x)"
proof -
  have "server_inv s' \<and> serves policy r m (floors_view s) (floors_view s') \<and>
    sv_sessions s' = sv_sessions s \<and>
    se_UDPTransport (sv_session_at s' x) = se_UDPTransport (sv_session_at s x)"
  proof (cases "snd (floorToRelease e m s)")
    case (Ok pk)
    obtain p k where pk: "pk = (p, k)" by (cases pk)
    from floorToRelease_Ok [OF assms(1,2)] Ok pk have t: "(k, p) \<in> set (sv_floors s)"
      "release_target m (floors_view s) k" by auto
    let ?f = "fst (Release (UserID m) (sv_floor_at s p))"
    have fi: "floor_inv (sv_floor_at s p)" using assms(2) by (rule server_inv_floor)
    have fr: "frame (update_floor p ?f s) s'"
      using assms(4) Ok pk by (simp add: release_frame_def)
    have "server_inv (update_floor p ?f s)"
      by (rule server_inv_update_floor [OF assms(2) floor_inv_Release [OF fi]]) simp
    note inv = server_inv_frame [OF fr this]
    note iv = in_floors_view [OF assms(2) t(1)]
    have "floors_view s' = (floors_view s)(k \<mapsto> abs_op (OpRelease (UserID m)) (the (floors_view s k)))"
      using floors_view_frame [OF fr] floors_view_update_floor [of s k p ?f] iv assms(2)
      by (simp add: server_inv_def floor_abs_Release [OF fi])
    then have "serves policy r m (floors_view s) (floors_view s')"
      using serves.release [OF assms(3) t(2)] by simp
    with inv frame_fields [OF fr] show ?thesis by simp
  next
    case (Fail err)
    then have fr: "frame s s'"
      using assms(4) by (simp add: release_frame_def)
    have "serves policy r m (floors_view s) (floors_view s')"
      unfolding floors_view_frame [OF fr]
      using floorToRelease_Fail [OF assms(1,2) Fail] assms(3) by (intro serves.no_target) auto
    with server_inv_frame [OF fr assms(2)] frame_fields [OF fr] show ?thesis by simp
  next
    case Panic
    then show ?thesis using floorToRelease_no_panic [of e m s] by simp
  qed
  then show "server_inv s'" "serves policy r m (floors_view s) (floors_view s')"
    "sv_sessions s' = sv_sessions s"
    "se_UDPTransport (sv_session_at s' x) = se_UDPTransport (sv_session_at s x)" by simp_all
qed

lemma UDPFloorRelease_frame:
  "se_UDPTransport (sv_session_at s sid) \<noteq> None \<Longrightarrow> release_frame e m s (handleUDPFloorRelease e sid m s)"
  unfolding release_frame_def by (rule frame_handleUDPFloorRelease)

lemmas UDPFloorRelease_refines = release_refines [OF _ _ _ UDPFloorRelease_frame]

section \<open>Goodbye\<close>

lemma Release_idem: "fst (Release u (fst (Release u f))) = fst (Release u f)"
  by (auto simp: Release_def)

lemma releaseAll_floor_at:
  "sv_floor_at (releaseAll u ps s) q =
     (if q \<in> set ps then fst (Release u (sv_floor_at s q)) else sv_floor_at s q)"
proof (induction ps arbitrary: s)
  case (Cons p ps)
  then show ?case by (auto simp: releaseAll_def Release_idem)
qed (simp add: releaseAll_def)

lemma releaseAll_floors [simp]: "sv_floors (releaseAll u ps s) = sv_floors s"
  "sv_sessions (releaseAll u ps s) = sv_sessions s"
  by (induction ps arbitrary: s) (simp_all add: releaseAll_def)

lemma server_inv_releaseAll: "server_inv s \<Longrightarrow> server_inv (releaseAll u ps s)"
proof (induction ps arbitrary: s)
  case (Cons p ps)
  have "server_inv (update_floor p (fst (Release u (sv_floor_at s p))) s)"
    by (rule server_inv_update_floor [OF Cons.prems floor_inv_Release [OF server_inv_floor [OF Cons.prems]]]) simp
  with Cons.IH show ?case by (simp add: releaseAll_def)
qed (simp add: releaseAll_def)

lemma floors_view_goodbye:
  assumes "env_ok e" "server_inv s"
  shows "floors_view (releaseAll u (snd (floorsOwnedBy e u s)) s) = (\<lambda>k. map_option (leave u) (floors_view s k))"
proof
  fix k
  let ?ps = "snd (floorsOwnedBy e u s)"
  have inv: "floor_inv (sv_floor_at s q)" for q using server_inv_floor [OF assms(2)] .
  have "floor_abs (sv_floor_at (releaseAll u ?ps s) p) = leave u (floor_abs (sv_floor_at s p))"
    if "lookup (sv_floors s) k = Some p" for p
  proof -
    have "p \<in> set ?ps \<longleftrightarrow> fsm_OwnerUserID (sv_floor_at s p) = u"
      using lookup_in_set [OF that] range_floors_set [OF assms(1), of s]
      by (force simp: floorsOwnedBy_def GetOwner_def)
    then show ?thesis
      by (simp add: releaseAll_floor_at leave_def floor_abs_owner [OF inv] floor_abs_Release [OF inv])
  qed
  then show "floors_view (releaseAll u ?ps s) k = map_option (leave u) (floors_view s k)"
    by (cases "lookup (sv_floors s) k") (simp_all add: floors_view_def)
qed

lemma UDPGoodbye_refines:
  fixes e :: Env and m :: message
  assumes "env_ok e" "server_inv s" "se_UDPTransport (sv_session_at s sid) \<noteq> None"
  defines "s' \<equiv> handleUDPGoodbye e sid m s"
  shows "server_inv s'" "floors_view s' = (\<lambda>k. map_option (leave (UserID m)) (floors_view s k))"
    "sv_sessions s' = sv_sessions s"
    "se_UDPTransport (sv_session_at s' x) = se_UDPTransport (sv_session_at s x)"
proof -
  note fr = frame_handleUDPGoodbye [OF assms(3), of m e, folded s'_def]
  show "server_inv s'" using server_inv_frame [OF fr server_inv_releaseAll [OF assms(2)]] .
  show "floors_view s' = (\<lambda>k. map_option (leave (UserID m)) (floors_view s k))"
    unfolding floors_view_frame [OF fr] by (rule floors_view_goodbye [OF assms(1,2)])
  show "sv_sessions s' = sv_sessions s"
    "se_UDPTransport (sv_session_at s' x) = se_UDPTransport (sv_session_at s x)"
    using frame_fields [OF fr] by simp_all
qed

section \<open>Every message of a UDP session\<close>

lemma udp_peer: "se_UDPTransport (sv_session_at s sid) = Some t \<Longrightarrow> peer s sid = Some (udp_RemoteAddr (sv_udp_at s t))"
  by (simp add: peer_def)

lemma UDPHello_refines:
  fixes e :: Env and m :: message
  assumes "server_inv s" "udp_only s" "se_UDPTransport (sv_session_at s sid) = Some t" "sid < sv_fresh s"
  defines "s' \<equiv> handleUDPHello e sid m s"
  shows "server_inv s'" "udp_only s'" "floors_view s' = floors_view s"
proof -
  note fr = frame_handleUDPHello [OF assms(3), of e m, folded s'_def]
  let ?s = "register (udp_RemoteAddr (sv_udp_at s t)) sid s"
  have "server_inv ?s" by (rule server_inv_register [OF assms(1,4) udp_peer [OF assms(3)]])
  then show "server_inv s'" by (rule server_inv_frame [OF fr])
  have "udp_only ?s"
    using assms(1,2,3) unfolding server_inv_def sessions_ok_def
    by (auto simp: udp_only_def register_def in_set_lookup dest!: lookup_in_set split: if_splits)
  then show "udp_only s'" by (rule udp_only_frame [OF fr])
  show "floors_view s' = floors_view s" using floors_view_frame [OF fr] by simp
qed

text \<open>The state in which the handler of a message runs.\<close>

definition received_UDP :: "Env \<Rightarrow> nat \<Rightarrow> message \<Rightarrow> Server \<Rightarrow> Server" where
  "received_UDP e sid m s =
     callMessageIn (case se_UDPTransport (sv_session_at s sid) of
         Some t \<Rightarrow> udp_RemoteAddr (sv_udp_at s t) | None \<Rightarrow> []) m
       (update_StateMachine sid (\<lambda>st. st\<lparr>ssm_ClientVersion := Version m\<rparr>)
         (update_StateMachine sid (UpdateActivity (env_now e)) s))"

lemma received_UDP_frame [simp]: "frame s (received_UDP e sid m s)"
  unfolding received_UDP_def by (intro frame_intros frame_refl)

lemma received_UDP_policy:
  "policy_of (received_UDP e sid m s) = policy_of s"
  "next_request (received_UDP e sid m s) = next_request s"
proof -
  have "sv_nextTxID (received_UDP e sid m s) = sv_nextTxID s"
    by (simp add: received_UDP_def callMessageIn_def emit_if_def emit_def update_StateMachine_def)
  then show "policy_of (received_UDP e sid m s) = policy_of s"
    "next_request (received_UDP e sid m s) = next_request s"
    using frame_fields [OF received_UDP_frame]
    by (simp_all add: policy_of_def next_request_def fun_eq_iff cong: option.case_cong)
qed

lemma received_UDP_dispatch:
  "session_handleUDPMessage e sid m s =
     (let s = received_UDP e sid m s in
      if Primitive m = PrimitiveHello then handleUDPHello e sid m s
      else if Primitive m = PrimitiveFloorRequest then handleUDPFloorRequest e sid m s
      else if Primitive m = PrimitiveFloorRelease then handleUDPFloorRelease e sid m s
      else if Primitive m = PrimitiveFloorQuery then handleUDPFloorQuery e sid m s
      else if Primitive m = PrimitiveGoodbye then handleUDPGoodbye e sid m s
      else s)"
proof -
  let ?s2 = "update_StateMachine sid (\<lambda>st. st\<lparr>ssm_ClientVersion := Version m\<rparr>)
    (update_StateMachine sid (UpdateActivity (env_now e)) s)"
  have f2: "frame s ?s2" by (intro frame_intros frame_refl)
  have "(case se_UDPTransport (sv_session_at ?s2 sid) of
      Some t \<Rightarrow> udp_RemoteAddr (sv_udp_at ?s2 t) | None \<Rightarrow> []) =
    (case se_UDPTransport (sv_session_at s sid) of
      Some t \<Rightarrow> udp_RemoteAddr (sv_udp_at s t) | None \<Rightarrow> [])"
    by (simp only: frame_fields(9,14) [OF f2])
  then show ?thesis
    by (simp only: session_handleUDPMessage_def received_UDP_def Let_def)
qed

text \<open>A floor request, with its floor or without.\<close>

lemma UDPFloorRequest_serves:
  fixes e :: Env and m :: message
  assumes "server_inv s" "udp_only s" "se_UDPTransport (sv_session_at s sid) \<noteq> None"
    and "Primitive m = PrimitiveFloorRequest"
  defines "s' \<equiv> handleUDPFloorRequest e sid m s"
  shows "server_inv s' \<and> udp_only s' \<and>
    serves (policy_of s) (next_request s) m (floors_view s) (floors_view s')"
proof (cases "GetFloorID m")
  case None
  then have fr: "frame s s'"
    using frame_sendUDPError [OF assms(3)] by (simp add: s'_def handleUDPFloorRequest_def)
  show ?thesis
    using server_inv_frame [OF fr assms(1)] udp_only_frame [OF fr assms(2)] floors_view_frame [OF fr]
      serves.no_floor [OF assms(4) None] by simp
next
  case (Some k)
  note R = UDPFloorRequest_refines [OF assms(1,3) Some, of e, folded s'_def]
  have "udp_only s'" using assms(2) R by (simp add: udp_only_def)
  with R serves.request [OF assms(4) Some, of "policy_of s" "next_request s" "floors_view s"]
  show ?thesis by simp
qed

lemma UDPMessage_refines:
  fixes e :: Env and m :: message
  assumes "env_ok e" "server_inv s" "udp_only s" "se_UDPTransport (sv_session_at s sid) \<noteq> None"
    and "sid < sv_fresh s"
  defines "s' \<equiv> session_handleUDPMessage e sid m s"
  shows "server_inv s' \<and> udp_only s' \<and>
    serves (policy_of s) (next_request s) m (floors_view s) (floors_view s')"
proof -
  define s1 where "s1 = received_UDP e sid m s"
  have f: "frame s s1" by (simp add: s1_def)
  note pol = received_UDP_policy [of e sid m s, folded s1_def]
  note disp = received_UDP_dispatch [of e sid m s, folded s1_def s'_def, unfolded Let_def]
  have inv: "server_inv s1" "udp_only s1" "floors_view s1 = floors_view s"
    using server_inv_frame [OF f] udp_only_frame [OF f] floors_view_frame [OF f] assms by auto
  have u: "se_UDPTransport (sv_session_at s1 sid) \<noteq> None" "sid < sv_fresh s1"
    using assms(4,5) frame_fields [OF f] by simp_all
  have udp_only_same: "udp_only t" if "sv_sessions t = sv_sessions s1"
      "\<And>x. se_UDPTransport (sv_session_at t x) = se_UDPTransport (sv_session_at s1 x)" for t
    using inv(2) that by (simp add: udp_only_def)
  have quiet: ?thesis if "frame s1 s'"
      "Primitive m \<notin> {PrimitiveFloorRequest, PrimitiveFloorRelease, PrimitiveGoodbye}"
    using serves.other [OF that(2)] server_inv_frame [OF that(1) inv(1)] udp_only_frame [OF that(1) inv(2)]
      floors_view_frame [OF that(1)] inv(3) by simp
  consider "Primitive m = PrimitiveHello" | "Primitive m = PrimitiveFloorRequest"
    | "Primitive m = PrimitiveFloorRelease" | "Primitive m = PrimitiveFloorQuery"
    | "Primitive m = PrimitiveGoodbye"
    | "Primitive m \<notin> {PrimitiveHello, PrimitiveFloorRequest, PrimitiveFloorRelease,
        PrimitiveFloorQuery, PrimitiveGoodbye}" by blast
  then show ?thesis
  proof cases
    case 1
    from u(1) obtain t where t: "se_UDPTransport (sv_session_at s1 sid) = Some t" by blast
    have "Primitive m \<notin> {PrimitiveFloorRequest, PrimitiveFloorRelease, PrimitiveGoodbye}" by (simp add: 1)
    with UDPHello_refines [OF inv(1,2) t u(2), of e m] serves.other inv(3) 1 show ?thesis by (simp add: disp)
  next
    case 2
    with UDPFloorRequest_serves [OF inv(1,2) u(1) 2, of e] inv(3) pol show ?thesis by (simp add: disp)
  next
    case 3
    then have s': "s' = handleUDPFloorRelease e sid m s1" by (simp add: disp)
    note R = UDPFloorRelease_refines [OF assms(1) inv(1) 3 u(1), folded s']
    show ?thesis using R(1,2) udp_only_same [OF R(3,4)] inv(3) by simp
  next
    case 4
    then have "frame s1 s'" using frame_handleUDPFloorQuery [OF u(1)] by (simp add: disp)
    with quiet 4 show ?thesis by simp
  next
    case 5
    then have s': "s' = handleUDPGoodbye e sid m s1" by (simp add: disp)
    note R = UDPGoodbye_refines [OF assms(1) inv(1) u(1), of m, folded s']
    show ?thesis
      using R(1,2) udp_only_same [OF R(3,4)] inv(3)
        serves.goodbye [OF 5, of "policy_of s" "next_request s" "floors_view s"] by simp
  next
    case 6
    then have "frame s1 s'" by (simp add: disp)
    with quiet 6 show ?thesis by simp
  qed
qed

end
