(* ===== verification/Server_Runs.thy ===== *)
theory Server_Runs
  imports Server_Refinement
begin

text \<open>
  The UDP server as a transition system: datagrams from any address, and the calls the
  application makes (creating, removing, granting and revoking floors, registering clients,
  broadcasting, opening and closing client roles). Every reachable state satisfies the
  invariant, so no handler panics on any input, and the floors change as specified.
\<close>

section \<open>Client roles do not touch the floors\<close>

definition frame_client :: "Server \<Rightarrow> Server \<Rightarrow> bool" where
  "frame_client s s' \<longleftrightarrow> (\<exists>h. frame (s\<lparr>sv_client_at := h\<rparr>) s')"

lemma frame_clientI: "frame s s' \<Longrightarrow> frame_client s s'"
proof -
  have "s\<lparr>sv_client_at := sv_client_at s\<rparr> = s" by simp
  then show "frame s s' \<Longrightarrow> frame_client s s'" unfolding frame_client_def by metis
qed

lemma frame_client_update: "frame_client s (update_client c cl s)"
  unfolding frame_client_def update_client_def by (metis frame_refl)

lemma frame_set_client: "frame s s' \<Longrightarrow> frame (s\<lparr>sv_client_at := h\<rparr>) (s'\<lparr>sv_client_at := h\<rparr>)"
  by (auto simp: frame_def same_links_def)

lemma frame_client_trans: "frame_client s t \<Longrightarrow> frame_client t u \<Longrightarrow> frame_client s u"
proof -
  assume "frame_client s t" "frame_client t u"
  then obtain h g where "frame (s\<lparr>sv_client_at := h\<rparr>) t" "frame (t\<lparr>sv_client_at := g\<rparr>) u"
    by (auto simp: frame_client_def)
  moreover have "frame (s\<lparr>sv_client_at := g\<rparr>) (t\<lparr>sv_client_at := g\<rparr>)"
    using frame_set_client [OF calculation(1), of g] by simp
  ultimately show "frame_client s u" unfolding frame_client_def by (metis frame_trans)
qed

lemma frame_client_fold:
  assumes "\<And>x s. frame_client s (f x s)"
  shows "frame_client s (fold f xs s)"
proof (induction xs arbitrary: s)
  case (Cons x xs)
  then show ?case using frame_client_trans [OF assms [of s x]] by simp
qed (simp add: frame_clientI)

lemma frame_client_inv:
  assumes "frame_client s s'" "server_inv s" "udp_only s"
  shows "server_inv s'" "udp_only s'" "floors_view s' = floors_view s"
proof -
  obtain h where f: "frame (s\<lparr>sv_client_at := h\<rparr>) s'" using assms(1) by (auto simp: frame_client_def)
  have "peer (s\<lparr>sv_client_at := h\<rparr>) = peer s"
    by (auto simp: peer_def fun_eq_iff split: option.splits)
  then have "server_inv (s\<lparr>sv_client_at := h\<rparr>)"
    using assms(2)
    by (simp add: server_inv_def floors_ok_def sessions_ok_def listener_ok_def cong: option.case_cong)
  then show "server_inv s'" by (rule server_inv_frame [OF f])
  have "udp_only (s\<lparr>sv_client_at := h\<rparr>)" using assms(3) by (simp add: udp_only_def)
  then show "udp_only s'" by (rule udp_only_frame [OF f])
  have "floors_view (s\<lparr>sv_client_at := h\<rparr>) = floors_view s" by (simp add: floors_view_def fun_eq_iff)
  with floors_view_frame [OF f] show "floors_view s' = floors_view s" by simp
qed

lemma frame_uc_send [simp]: "frame s (fst (uc_send e c m s))"
  using SendMessage_no_panic(2)
  by (auto simp: uc_send_def Let_def split: res.splits)

lemma frame_ack [simp]: "frame s (ack e c m p s)"
  by (simp add: ack_def Let_def)

lemma frame_client_applyOwnStatus: "frame_client s (applyOwnStatus e c k r st s)"
  by (simp add: applyOwnStatus_def Let_def frame_client_update
      frame_client_trans [OF frame_client_update frame_clientI [OF frame_emit_if]])

lemma frame_client_notifyFloor: "frame_client s (notifyFloor e c r b st fl s)"
  by (simp add: notifyFloor_def Let_def frame_client_applyOwnStatus frame_clientI)

lemma frame_client_handleNotification: "frame_client s (handleNotification e c m s)"
  by (auto simp: handleNotification_def notifyInfo_def Let_def frame_clientI
      intro!: frame_client_fold frame_client_notifyFloor split: option.splits)

lemma frame_client_uc_handleMessage: "frame_client s (uc_handleMessage e c m s)"
  by (auto simp: uc_handleMessage_def Let_def frame_client_update frame_clientI
      intro: frame_client_trans [OF frame_client_handleNotification frame_clientI [OF frame_ack]]
      split: option.splits)

section \<open>Datagrams\<close>

text \<open>Whether a datagram is for the server: it listens and the sender is no server of a client role.\<close>

definition for_server :: "string \<Rightarrow> Server \<Rightarrow> bool" where
  "for_server remote s \<longleftrightarrow> sv_udpListener s \<noteq> None \<and> lookup (sv_udpClients s) remote = None"

lemma handleUDPMessage_refines:
  fixes m :: message
  assumes "env_ok e" "server_inv s" "udp_only s" "t < sv_fresh s"
  defines "remote \<equiv> udp_RemoteAddr (sv_udp_at s t)"
  defines "s' \<equiv> handleUDPMessage e t m s"
  shows "server_inv s' \<and> udp_only s' \<and>
    (if lookup (sv_udpClients s) remote = None
     then serves (policy_of s) (next_request s) m (floors_view s) (floors_view s')
     else floors_view s' = floors_view s)"
proof (cases "lookup (sv_udpClients s) remote")
  case (Some c)
  have "frame_client s s'"
    using Some frame_client_trans [OF frame_clientI [OF frame_callMessageIn] frame_client_uc_handleMessage]
    by (simp add: s'_def handleUDPMessage_def remote_def)
  from frame_client_inv [OF this assms(2,3)] Some show ?thesis by simp
next
  case none: None
  show ?thesis
  proof (cases "lookup (sv_sessions s) remote")
    case (Some sid)
    have "sid < sv_fresh s" "se_UDPTransport (sv_session_at s sid) \<noteq> None"
      using lookup_in_set [OF Some] assms(2,3) by (auto simp: server_inv_def sessions_ok_def udp_only_def)
    from UDPMessage_refines [OF assms(1-3) this(2,1), of m] none Some show ?thesis
      by (simp add: s'_def handleUDPMessage_def remote_def)
  next
    case None
    obtain s1 sid where n: "newSession e None (Some t) 0 remote s = (s1, sid)"
      by (cases "newSession e None (Some t) 0 remote s")
    from newSession_ok [OF assms(2) n] assms(4) have ok: "server_inv s1" "sid = sv_fresh s"
      "sv_fresh s1 = Suc sid" "floors_view s1 = floors_view s"
      "sv_session_at s1 = (sv_session_at s)(sid := sv_session_at s1 sid)"
      "se_UDPTransport (sv_session_at s1 sid) = Some t" by auto
    have fields: "sv_sessions s1 = sv_sessions s" "sv_config s1 = sv_config s"
      "sv_callbacks s1 = sv_callbacks s" "sv_nextTxID s1 = sv_nextTxID s"
      using n by (auto simp: newSession_def Let_def)
    have "se_UDPTransport (sv_session_at s1 x) \<noteq> None" if "(r, x) \<in> set (sv_sessions s)" for r x
    proof (cases "x = sid")
      case False
      then have "sv_session_at s1 x = sv_session_at s x" using ok(5) by (metis fun_upd_other)
      with that assms(3) show ?thesis by (auto simp: udp_only_def)
    qed (simp add: ok(6))
    then have "udp_only s1" by (auto simp: udp_only_def fields)
    from UDPMessage_refines [OF assms(1) ok(1) this, of sid m] ok
    have "server_inv s' \<and> udp_only s' \<and>
        serves (policy_of s1) (next_request s1) m (floors_view s) (floors_view s')"
      using none None n by (simp add: s'_def handleUDPMessage_def remote_def)
    moreover have "policy_of s1 = policy_of s" "next_request s1 = next_request s"
      by (simp_all add: policy_of_def next_request_def fun_eq_iff fields cong: option.case_cong)
    ultimately show ?thesis using none by simp
  qed
qed

lemma receiveDatagram_refines:
  fixes remote :: string and data :: "byte list"
  assumes "env_ok e" "server_inv s" "udp_only s"
  defines "s' \<equiv> receiveDatagram e remote data s"
  shows "server_inv s' \<and> udp_only s' \<and>
    (case Decode data of
       Ok m \<Rightarrow> if for_server remote s
               then serves (policy_of s) (next_request s) m (floors_view s) (floors_view s')
               else floors_view s' = floors_view s
     | _ \<Rightarrow> floors_view s' = floors_view s)"
proof (cases "sv_udpListener s")
  case None
  then have "s' = s" by (simp add: s'_def receiveDatagram_def)
  with assms None show ?thesis by (simp add: for_server_def split: res.splits)
next
  case (Some l)
  show ?thesis
  proof (cases "Decode data")
    case (Ok m)
    obtain s1 t where g: "getOrCreateTransport l remote s = (s1, t)"
      by (cases "getOrCreateTransport l remote s")
    note ok = getOrCreateTransport_ok [OF assms(2) Some g]
    have "udp_only s1" using assms(3) by (simp add: udp_only_def ok)
    from handleUDPMessage_refines [OF assms(1) ok(1) this ok(3), of m]
    have "server_inv s' \<and> udp_only s' \<and>
      (if lookup (sv_udpClients s) remote = None
       then serves (policy_of s1) (next_request s1) m (floors_view s) (floors_view s')
       else floors_view s' = floors_view s)"
      using Ok Some g ok by (simp add: s'_def receiveDatagram_def cong: if_cong)
    moreover have "policy_of s1 = policy_of s" "next_request s1 = next_request s"
      by (simp_all add: policy_of_def next_request_def fun_eq_iff ok cong: option.case_cong)
    ultimately show ?thesis using Ok Some by (simp add: for_server_def cong: if_cong)
  next
    case (Fail err)
    with Some assms show ?thesis by (simp add: s'_def receiveDatagram_def)
  next
    case Panic
    then show ?thesis by (simp add: Decode_no_panic)
  qed
qed

section \<open>The transition system\<close>

text \<open>
  \<open>ApiOnFloor\<close> is the application working on a floor it got from \<^verbatim>\<open>GetFloor\<close>, \<^verbatim>\<open>CreateFloor\<close> or
  \<^verbatim>\<open>ListFloors\<close>; the pointer may be stale.
\<close>

datatype action =
    Datagram string "byte list"
  | ApiCreateFloor u16
  | ApiReleaseFloor u16
  | ApiGrantFloor u16 u16
  | ApiOnFloor nat floor_op
  | ApiRegisterClient "string \<Rightarrow> string option" string u16 u16 u8
  | ApiBroadcastFloorStatus u16 u16 u16 RequestStatus u8
  | ApiBroadcastFloorState u16 u16 RequestStatus
  | ApiNewUDPClient "string \<Rightarrow> string option" string UDPClientConfig
  | ApiCloseUDPClient nat

fun act :: "Env \<Rightarrow> action \<Rightarrow> Server \<Rightarrow> Server" where
  "act e (Datagram remote data) s = receiveDatagram e remote data s"
| "act e (ApiCreateFloor k) s = fst (CreateFloor e k s)"
| "act e (ApiReleaseFloor k) s = ReleaseFloor k s"
| "act e (ApiGrantFloor k u) s = fst (GrantFloor e k u s)"
| "act e (ApiOnFloor p oper) s = update_floor p (run_op oper (sv_floor_at s p)) s"
| "act e (ApiRegisterClient resolve addr u k v) s = fst (RegisterClient e resolve addr u k v s)"
| "act e (ApiBroadcastFloorStatus u k r st q) s = BroadcastFloorStatus e u k r st q s"
| "act e (ApiBroadcastFloorState k b st) s = BroadcastFloorState e k b st s"
| "act e (ApiNewUDPClient resolve addr config) s = fst (NewUDPClient resolve addr config s)"
| "act e (ApiCloseUDPClient c) s = uc_Close c s"

text \<open>\<^verbatim>\<open>Listen\<close> on UDP.\<close>

definition UDPServer :: "ServerConfig \<Rightarrow> Callbacks \<Rightarrow> Server" where
  "UDPServer config callbacks =
     (NewServer config callbacks)\<lparr>sv_udpListener := Some \<lparr>ul_sessions = [], ul_closed = False\<rparr>\<rparr>"

inductive reachable :: "ServerConfig \<Rightarrow> Callbacks \<Rightarrow> Server \<Rightarrow> bool"
  for config :: ServerConfig and callbacks :: Callbacks where
  start: "reachable config callbacks (UDPServer config callbacks)"
| step: "reachable config callbacks s \<Longrightarrow> env_ok e \<Longrightarrow> reachable config callbacks (act e a s)"

lemma UDPServer_ok: "server_inv (UDPServer config callbacks)" "udp_only (UDPServer config callbacks)"
  by (simp_all add: server_inv_def floors_ok_def sessions_ok_def listener_ok_def link_below_def
      udp_only_def UDPServer_def NewServer_def)

text \<open>Registered sessions keep their links across what creates floors, transports and sessions.\<close>

lemma server_inv_ReleaseFloor: "server_inv s \<Longrightarrow> server_inv (ReleaseFloor k s)"
proof -
  assume inv: "server_inv s"
  have "peer (ReleaseFloor k s) = peer s"
    by (auto simp: ReleaseFloor_def peer_def fun_eq_iff split: option.splits)
  moreover have "set (del k (sv_floors s)) \<subseteq> set (sv_floors s)" by (rule set_del)
  ultimately show ?thesis
    using inv
    by (auto simp: server_inv_def floors_ok_def sessions_ok_def listener_ok_def ReleaseFloor_def
        cong: option.case_cong)
qed

lemma FloorID_run_op [simp]: "fsm_FloorID (run_op oper f) = fsm_FloorID f"
  by (cases oper) (simp_all only: run_op.simps FloorID_ops)

lemma server_inv_run_op:
  assumes "server_inv s"
  shows "server_inv (update_floor p (run_op oper (sv_floor_at s p)) s)"
  by (rule server_inv_update_floor [OF assms floor_inv_run_op [OF server_inv_floor [OF assms]]]) simp

lemma GrantFloor_ok: "server_inv s \<Longrightarrow> server_inv (fst (GrantFloor e k u s))"
  using server_inv_run_op [of s _ "OpGrant (env_now e)"]
  by (simp add: GrantFloor_def split_beta Let_def split: option.splits)

lemma udp_only_same_sessions:
  "sv_sessions s' = sv_sessions s \<Longrightarrow> sv_session_at s' = sv_session_at s \<Longrightarrow> udp_only s' = udp_only s"
  by (simp add: udp_only_def)

lemma CreateFloor_inv: "server_inv s \<Longrightarrow> server_inv (fst (CreateFloor e k s))"
proof (cases "lookup (sv_floors s) k")
  case None
  assume "server_inv s"
  then show ?thesis
    using CreateFloor_ok(1) [OF _ None] by (cases "CreateFloor e k s") simp
qed (simp add: CreateFloor_def)

lemma CreateFloor_udp_only: "udp_only (fst (CreateFloor e k s)) = udp_only s"
  by (rule udp_only_same_sessions) (simp_all add: CreateFloor_def Let_def split: option.splits)

text \<open>The session \<^verbatim>\<open>RegisterClient\<close> makes for a client that is not known.\<close>

lemma registerNew_ok:
  fixes v :: u8
  assumes "server_inv s" "udp_only s" "udp_RemoteAddr (sv_udp_at s t) = key" "lookup (sv_sessions s) key = None"
    and "newSession e None (Some t) u key s = (s2, sid)" "t < sv_fresh s"
  defines "s' \<equiv> register key sid (update_StateMachine sid (\<lambda>m. m\<lparr>ssm_ClientVersion := v\<rparr>) s2)"
  shows "server_inv s'" "udp_only s'" "floors_view s' = floors_view s"
proof -
  from newSession_ok [OF assms(1,5)] assms(6) have n2: "server_inv s2" "sid = sv_fresh s"
    "sv_fresh s2 = Suc sid" "floors_view s2 = floors_view s"
    "sv_session_at s2 = (sv_session_at s)(sid := sv_session_at s2 sid)"
    "se_UDPTransport (sv_session_at s2 sid) = Some t" by auto
  have fields: "sv_sessions s2 = sv_sessions s" "sv_udp_at s2 = sv_udp_at s"
    using assms(5) by (auto simp: newSession_def Let_def)
  let ?s3 = "update_StateMachine sid (\<lambda>m. m\<lparr>ssm_ClientVersion := v\<rparr>) s2"
  have f: "frame s2 ?s3" by simp
  have "peer ?s3 sid = Some key"
    using n2(6) peer_frame [OF f] by (simp add: peer_def fields assms(3))
  moreover have "sid < sv_fresh ?s3" using n2(3) frame_fields(11) [OF f] by simp
  ultimately show "server_inv s'"
    unfolding s'_def using server_inv_register server_inv_frame [OF f n2(1)] by blast
  have links: "se_UDPTransport (sv_session_at ?s3 x) = se_UDPTransport (sv_session_at s2 x)" for x
    using frame_fields(14) [OF f] .
  have "se_UDPTransport (sv_session_at s2 x) \<noteq> None" if "(r, x) \<in> set (sv_sessions s)" for r x
  proof (cases "x = sid")
    case False
    then have "sv_session_at s2 x = sv_session_at s x" using n2(5) by (metis fun_upd_other)
    with that assms(2) show ?thesis by (auto simp: udp_only_def)
  qed (simp add: n2(6))
  moreover have "sv_sessions (register key sid ?s3) = sv_sessions s @ [(key, sid)]"
    using frame_fields(5) [OF f] assms(4) by (simp add: register_def fields put_new)
  ultimately show "udp_only s'"
    by (auto simp: s'_def udp_only_def register_def links n2(6))
  show "floors_view s' = floors_view s"
    using floors_view_frame [OF f] n2(4) by (simp add: s'_def)
qed

lemma RegisterClient_ok:
  fixes e :: Env and resolve :: "string \<Rightarrow> string option" and addr :: string
    and u :: u16 and k :: u16 and v :: u8
  assumes "server_inv s" "udp_only s"
  defines "s' \<equiv> fst (RegisterClient e resolve addr u k v s)"
  shows "server_inv s'" "udp_only s'" "floors_view s' = floors_view s"
proof -
  have "server_inv s' \<and> udp_only s' \<and> floors_view s' = floors_view s"
  proof (cases "sv_udpListener s = None \<or> resolve addr = None")
    case True
    with assms show ?thesis by (auto simp: s'_def RegisterClient_def split: option.split)
  next
    case False
    then obtain l key where l: "sv_udpListener s = Some l" and key: "resolve addr = Some key" by auto
    obtain s1 t where g: "getOrCreateTransport l key s = (s1, t)"
      by (cases "getOrCreateTransport l key s")
    note ok = getOrCreateTransport_ok [OF assms(1) l g]
    have uo: "udp_only s1" using assms(2) by (simp add: udp_only_def ok)
    have send: "server_inv (sendFloorState e sid k st s2) \<and> udp_only (sendFloorState e sid k st s2) \<and>
        floors_view (sendFloorState e sid k st s2) = floors_view s"
      if "server_inv s2" "udp_only s2" "floors_view s2 = floors_view s" for sid st s2
      using that server_inv_frame udp_only_frame floors_view_frame frame_sendFloorState by metis
    show ?thesis
    proof (cases "lookup (sv_sessions s1) key")
      case (Some sid)
      with l key g send [OF ok(1) uo ok(2)] show ?thesis
        by (simp add: s'_def RegisterClient_def Let_def)
    next
      case None
      obtain s2 sid where n: "newSession e None (Some t) u key s1 = (s2, sid)"
        by (cases "newSession e None (Some t) u key s1")
      note R = registerNew_ok [OF ok(1) uo ok(4) None n ok(3), of v]
      show ?thesis
        using send [OF R(1,2)] R(3) ok(2) l key g None n
        by (simp add: s'_def RegisterClient_def Let_def register_def)
    qed
  qed
  then show "server_inv s'" "udp_only s'" "floors_view s' = floors_view s" by simp_all
qed

lemma server_inv_client_maps:
  assumes "server_inv s"
  shows "server_inv (s\<lparr>sv_client_at := h, sv_udpClients := cs\<rparr>)"
proof -
  have "peer (s\<lparr>sv_client_at := h, sv_udpClients := cs\<rparr>) = peer s"
    by (auto simp: peer_def fun_eq_iff split: option.splits)
  then show ?thesis
    using assms
    by (simp add: server_inv_def floors_ok_def sessions_ok_def listener_ok_def cong: option.case_cong)
qed

lemma udp_only_client_maps:
  "udp_only (s\<lparr>sv_client_at := h, sv_udpClients := cs\<rparr>) = udp_only s"
  by (simp add: udp_only_def)

lemma server_inv_uc_Close: "server_inv s \<Longrightarrow> server_inv (uc_Close c s)"
  using server_inv_client_maps by (simp add: uc_Close_def update_client_def Let_def)

lemma server_inv_fresh:
  assumes "server_inv s" "udp_only s"
  shows "server_inv (s\<lparr>sv_fresh := Suc (sv_fresh s)\<rparr>)" "udp_only (s\<lparr>sv_fresh := Suc (sv_fresh s)\<rparr>)"
proof -
  let ?s = "s\<lparr>sv_fresh := Suc (sv_fresh s)\<rparr>"
  have "peer ?s = peer s" by (auto simp: peer_def fun_eq_iff split: option.splits)
  moreover have "sessions_ok ?s"
    by (rule sessions_ok_grow [of s]) (use assms(1) calculation in \<open>simp_all add: server_inv_def\<close>)
  moreover have "listener_ok ?s"
    by (rule listener_ok_grow [of s]) (use assms(1) in \<open>simp_all add: server_inv_def\<close>)
  ultimately show "server_inv ?s"
    using assms(1) by (auto simp: server_inv_def floors_ok_def)
  show "udp_only ?s" using assms(2) by (simp add: udp_only_def)
qed

lemma NewUDPClient_ok:
  assumes "server_inv s" "udp_only s"
  shows "server_inv (fst (NewUDPClient resolve addr config s)) \<and>
    udp_only (fst (NewUDPClient resolve addr config s))"
proof (cases "sv_udpListener s")
  case None
  with assms show ?thesis by (simp add: NewUDPClient_def)
next
  case l: (Some l)
  show ?thesis
  proof (cases "resolve addr")
    case None
    with l assms show ?thesis by (simp add: NewUDPClient_def)
  next
    case (Some key)
    obtain s1 t where g: "getOrCreateTransport l key s = (s1, t)"
      by (cases "getOrCreateTransport l key s")
    note ok = getOrCreateTransport_ok [OF assms(1) l g]
    have "udp_only s1" using assms(2) by (simp add: udp_only_def ok)
    note fr = server_inv_fresh [OF ok(1) this]
    from server_inv_client_maps [OF fr(1)] udp_only_client_maps fr(2) l Some g show ?thesis
      by (simp add: NewUDPClient_def Let_def)
  qed
qed

lemma act_ok:
  assumes "env_ok e" "server_inv s" "udp_only s"
  shows "server_inv (act e a s)" "udp_only (act e a s)"
proof -
  have "server_inv (act e a s) \<and> udp_only (act e a s)"
  proof (cases a)
    case (Datagram remote data)
    with receiveDatagram_refines [OF assms, of remote data] show ?thesis by simp
  next
    case (ApiCreateFloor k)
    with CreateFloor_inv [OF assms(2)] CreateFloor_udp_only assms(3) show ?thesis by simp
  next
    case (ApiReleaseFloor k)
    with server_inv_ReleaseFloor [OF assms(2)] assms(3) show ?thesis
      by (simp add: udp_only_def ReleaseFloor_def)
  next
    case (ApiGrantFloor k u)
    have "udp_only (fst (GrantFloor e k u s)) = udp_only s"
      by (rule udp_only_same_sessions) (simp_all add: GrantFloor_def split_beta Let_def split: option.splits)
    with ApiGrantFloor GrantFloor_ok [OF assms(2)] assms(3) show ?thesis by simp
  next
    case (ApiOnFloor p oper)
    with server_inv_run_op [OF assms(2)] assms(3) show ?thesis by (simp add: udp_only_def)
  next
    case (ApiRegisterClient resolve addr u k v)
    with RegisterClient_ok [OF assms(2,3)] show ?thesis by simp
  next
    case (ApiBroadcastFloorStatus u k r st q)
    then show ?thesis
      using server_inv_frame [OF frame_BroadcastFloorStatus assms(2)]
        udp_only_frame [OF frame_BroadcastFloorStatus assms(3)] by simp
  next
    case (ApiBroadcastFloorState k b st)
    then show ?thesis
      using server_inv_frame [OF frame_BroadcastFloorState assms(2)]
        udp_only_frame [OF frame_BroadcastFloorState assms(3)] by simp
  next
    case (ApiNewUDPClient resolve addr config)
    with NewUDPClient_ok [OF assms(2,3)] show ?thesis by simp
  next
    case (ApiCloseUDPClient c)
    with server_inv_uc_Close [OF assms(2)] udp_only_client_maps assms(3) show ?thesis
      by (simp add: uc_Close_def update_client_def Let_def)
  qed
  then show "server_inv (act e a s)" "udp_only (act e a s)" by simp_all
qed

lemma reachable_ok:
  "reachable config callbacks s \<Longrightarrow> server_inv s \<and> udp_only s"
  by (induction rule: reachable.induct) (simp_all add: UDPServer_ok act_ok)

text \<open>The datagrams of a run, each with the environment it meets.\<close>

definition deliver :: "(Env \<times> string \<times> byte list) list \<Rightarrow> Server \<Rightarrow> Server" where
  "deliver = fold (\<lambda>(e, remote, data). receiveDatagram e remote data)"

definition all_datagrams :: "(message \<Rightarrow> bool) \<Rightarrow> (Env \<times> string \<times> byte list) list \<Rightarrow> bool" where
  "all_datagrams P ds \<longleftrightarrow>
     (\<forall>(e, remote, data) \<in> set ds. env_ok e \<and> (case Decode data of Ok m \<Rightarrow> P m | _ \<Rightarrow> True))"

text \<open>What no message of a run takes from a floor stays.\<close>

lemma deliver_keeps:
  assumes "server_inv s" "udp_only s" "all_datagrams P ds" "Q (floors_view s)"
    and "\<And>policy r m v v'. serves policy r m v v' \<Longrightarrow> P m \<Longrightarrow> Q v \<Longrightarrow> Q v'"
  shows "Q (floors_view (deliver ds s))"
  using assms(1-4)
proof (induction ds arbitrary: s)
  case (Cons d ds)
  obtain e remote data where d: "d = (e, remote, data)" by (cases d)
  let ?s = "receiveDatagram e remote data s"
  from Cons.prems(3) d have e: "env_ok e" "case Decode data of Ok m \<Rightarrow> P m | _ \<Rightarrow> True"
    and rest: "all_datagrams P ds" by (auto simp: all_datagrams_def)
  from receiveDatagram_refines [OF e(1) Cons.prems(1,2), of remote data] have
    inv: "server_inv ?s" "udp_only ?s" and
    q: "case Decode data of
       Ok m \<Rightarrow> if for_server remote s
               then serves (policy_of s) (next_request s) m (floors_view s) (floors_view ?s)
               else floors_view ?s = floors_view s
     | _ \<Rightarrow> floors_view ?s = floors_view s" by simp_all
  have "Q (floors_view ?s)"
    using q e(2) Cons.prems(4) assms(5) by (auto split: res.splits if_splits)
  from Cons.IH [OF inv rest this] show ?case by (simp add: d deliver_def)
qed (simp add: deliver_def)

definition reopens_floor :: "message \<Rightarrow> bool" where
  "reopens_floor m \<longleftrightarrow>
     UserID m = 0 \<and> Primitive m \<in> {PrimitiveFloorRelease, PrimitiveGoodbye}"

lemma serves_closed:
  assumes "serves policy r' m v v'" "v k = Some Closed" "\<not> reopens_floor m"
  shows "v' k = Some Closed"
  using assms(1)
  by (cases rule: serves_cases)
     (use assms(2,3) in \<open>auto simp: reopens_floor_def floor_or_free_def leave_def\<close>)

section \<open>Concrete runs\<close>

definition plain_env :: Env where
  "plain_env = \<lparr>env_now = 0, env_write = (\<lambda>_. True), env_floors = (\<lambda>_ m. m), env_sessions = (\<lambda>_ m. m)\<rparr>"

definition no_callbacks :: Callbacks where
  "no_callbacks = \<lparr>cb_OnFloorRequest = None, cb_OnFloorGranted = False, cb_OnFloorReleased = False,
     cb_OnFloorDenied = False, cb_OnClientConnect = False, cb_OnClientDisconnect = False,
     cb_OnMessageIn = False, cb_OnMessageOut = False\<rparr>"

text \<open>A version 2 FloorRequest of user 4 for floor 3 in conference 1.\<close>

definition request_bytes :: "byte list" where
  "request_bytes = [0x40, 1, 0, 1, 0, 0, 0, 1, 0, 9, 0, 4, 5, 4, 0, 3]"

definition requestMessage :: message where
  "requestMessage = \<lparr>Version = 2, Reserved = 0, Primitive = 1, PayloadLength = 1,
     ConferenceID = 1, TransactionID = 9, UserID = 4,
     Attributes = [\<lparr>Type = 2, Length = 2, Value = [0, 3], RawTLV = False\<rparr>]\<rparr>"

lemma Decode_request_bytes: "Decode request_bytes = Ok requestMessage"
  by code_simp

lemma plain_env_ok: "env_ok plain_env"
  by (simp add: env_ok_def plain_env_def)

lemma request_granted:
  "floors_view (receiveDatagram plain_env ''10.0.0.1:5070'' request_bytes
     (UDPServer (DefaultServerConfig 1) no_callbacks)) 3 = Some (Held 4 1)"
  by code_simp

section \<open>Properties\<close>



text \<open>C1. Refinement: a datagram that decodes to a message for the server acts on the floors
  exactly as the floor control specification allows: a request for a free floor is decided by
  the policy at once and a taken floor stays as it is; a release frees the floor it means if the
  sender owns it; a Goodbye frees the floors of its sender and no other; every other message,
  and every datagram that does not decode or belongs to a client role, changes nothing.\<close>
theorem datagram_refines_floor_control:
  assumes "reachable config callbacks s" "env_ok e"
  shows "case Decode data of
       Ok m \<Rightarrow> if for_server remote s
               then serves (policy_of s) (next_request s) m (floors_view s)
                      (floors_view (receiveDatagram e remote data s))
               else floors_view (receiveDatagram e remote data s) = floors_view s
     | _ \<Rightarrow> floors_view (receiveDatagram e remote data s) = floors_view s"
  using receiveDatagram_refines [OF assms(2)] reachable_ok [OF assms(1)] by simp

theorem datagram_refines_floor_control_witness:
  "serves (\<lambda>_ _ _. True) 1 requestMessage (\<lambda>_. None)
     (floors_view (receiveDatagram plain_env ''10.0.0.1:5070'' request_bytes
        (UDPServer (DefaultServerConfig 1) no_callbacks)))"
proof -
  let ?s = "UDPServer (DefaultServerConfig 1) no_callbacks"
  have "policy_of ?s = (\<lambda>_ _ _. True)" "next_request ?s = 1" "floors_view ?s = (\<lambda>_. None)"
    "for_server ''10.0.0.1:5070'' ?s"
    by (simp_all add: policy_of_def next_request_def floors_view_def for_server_def UDPServer_def
        NewServer_def DefaultServerConfig_def no_callbacks_def fun_eq_iff)
  with datagram_refines_floor_control [OF reachable.start [of "DefaultServerConfig 1" no_callbacks]
      plain_env_ok, where remote = "''10.0.0.1:5070''" and data = request_bytes]
  show ?thesis by (simp add: Decode_request_bytes)
qed

text \<open>C9. Mutual exclusion over the wire: a floor held by a user stays held by that user for that
  request through any run of datagrams, from any senders, among which there is no FloorRelease of
  that user or of user 0 and no Goodbye of that user.\<close>
theorem held_floor_survives_datagrams:
  assumes "reachable config callbacks s" "floors_view s k = Some (Held u r)"
    and "all_datagrams (\<lambda>m. \<not> gives_up u m) ds"
  shows "floors_view (deliver ds s) k = Some (Held u r)"
  using deliver_keeps [OF _ _ assms(3), of s "\<lambda>v. v k = Some (Held u r)"] serves_held
    reachable_ok [OF assms(1)] assms(2) by blast

theorem held_floor_survives_datagrams_witness:
  "floors_view (deliver [(plain_env, ''10.0.0.2:5070'', request_bytes[11 := 5])]
     (receiveDatagram plain_env ''10.0.0.1:5070'' request_bytes
        (UDPServer (DefaultServerConfig 1) no_callbacks))) 3 = Some (Held 4 1)"
proof (rule held_floor_survives_datagrams)
  show "reachable (DefaultServerConfig 1) no_callbacks (receiveDatagram plain_env ''10.0.0.1:5070''
      request_bytes (UDPServer (DefaultServerConfig 1) no_callbacks))"
    using reachable.step [OF reachable.start plain_env_ok,
      of "DefaultServerConfig 1" no_callbacks "Datagram ''10.0.0.1:5070'' request_bytes"] by simp
  have "Decode (request_bytes[11 := 5]) = Ok (requestMessage\<lparr>UserID := 5\<rparr>)" by code_simp
  then show "all_datagrams (\<lambda>m. \<not> gives_up 4 m) [(plain_env, ''10.0.0.2:5070'', request_bytes[11 := 5])]"
    by (simp add: all_datagrams_def plain_env_ok gives_up_def requestMessage_def)
qed (rule request_granted)

text \<open>C33. One refusal closes a floor for good: when the policy refuses a request for a free floor,
  no later run of datagrams of users other than user 0 makes the floor usable again, so every
  further request for it is refused although nobody holds it.\<close>
theorem refused_floor_stays_unusable:
  assumes "reachable config callbacks s" "env_ok e" "for_server remote s"
    and "Decode data = Ok m" "Primitive m = PrimitiveFloorRequest" "GetFloorID m = Some k"
    and "floor_or_free (floors_view s) k = Free" "\<not> policy_of s k (UserID m) (next_request s)"
    and "all_datagrams (\<lambda>m. \<not> reopens_floor m) ds"
  shows "floors_view (deliver ds (receiveDatagram e remote data s)) k = Some Closed"
proof -
  let ?s = "receiveDatagram e remote data s"
  have R: "server_inv ?s" "udp_only ?s"
    "serves (policy_of s) (next_request s) m (floors_view s) (floors_view ?s)"
    using receiveDatagram_refines [OF assms(2), of s remote data] reachable_ok [OF assms(1)] assms(3,4)
    by simp_all
  from R(3) have "floors_view ?s k = Some Closed"
    by (cases rule: serves_cases) (use assms(5-8) in auto)
  from deliver_keeps [OF R(1,2) assms(9), of "\<lambda>v. v k = Some Closed"] serves_closed this
  show ?thesis by blast
qed

theorem refused_floor_stays_unusable_witness:
  "floors_view (deliver [(plain_env, ''10.0.0.2:5070'', request_bytes[11 := 5])]
     (receiveDatagram plain_env ''10.0.0.1:5070'' request_bytes
        (UDPServer ((DefaultServerConfig 1)\<lparr>cfg_AutoGrant := False\<rparr>) no_callbacks))) 3 = Some Closed"
proof (rule refused_floor_stays_unusable [OF reachable.start plain_env_ok _ Decode_request_bytes])
  have "Decode (request_bytes[11 := 5]) = Ok (requestMessage\<lparr>UserID := 5\<rparr>)" by code_simp
  then show "all_datagrams (\<lambda>m. \<not> reopens_floor m) [(plain_env, ''10.0.0.2:5070'', request_bytes[11 := 5])]"
    by (simp add: all_datagrams_def plain_env_ok reopens_floor_def requestMessage_def)
  show "GetFloorID requestMessage = Some 3" by code_simp
qed (simp_all add: for_server_def UDPServer_def NewServer_def requestMessage_def floor_or_free_def
      floors_view_def policy_of_def DefaultServerConfig_def no_callbacks_def)

end
