(* ===== verification/Server_Responses.thy ===== *)
theory Server_Responses
  imports Server_Runs
begin

text \<open>
  What the UDP server sends: the datagrams of the event log, decoded as the peer decodes them.
  Every request is answered exactly once, to its sender and with its identifiers; the answer to
  a floor request reports the decision; a release is broadcast to every other session.
\<close>

section \<open>The outbox\<close>

fun sent_by :: "event \<Rightarrow> (string \<times> byte list) option" where
  "sent_by (Sent remote data) = Some (remote, data)"
| "sent_by _ = None"

definition outbox :: "Server \<Rightarrow> (string \<times> byte list) list" where
  "outbox s = List.map_filter sent_by (sv_log s)"

lemma map_filter_snoc: "List.map_filter f (xs @ [x]) = List.map_filter f xs @ (case f x of Some y \<Rightarrow> [y] | None \<Rightarrow> [])"
  by (induction xs) (auto simp: List.map_filter_def split: option.splits)

lemma outbox_emit: "outbox (emit ev s) = outbox s @ (case sent_by ev of Some x \<Rightarrow> [x] | None \<Rightarrow> [])"
  by (simp add: outbox_def emit_def map_filter_snoc)

lemma outbox_emit_if [simp]: "sent_by ev = None \<Longrightarrow> outbox (emit_if b ev s) = outbox s"
  by (simp add: emit_if_def outbox_emit)

lemma outbox_log: "sv_log s' = sv_log s \<Longrightarrow> outbox s' = outbox s"
  by (simp add: outbox_def)

lemma outbox_same [simp]:
  "outbox (tick s) = outbox s" "outbox (panic s) = outbox s"
  "outbox (update_floor p f s) = outbox s"
  "outbox (update_StateMachine sid g s) = outbox s" "outbox (fst (nextTxID_Add s)) = outbox s"
  "outbox (callMessageIn remote m s) = outbox s" "outbox (callMessageOut remote m s) = outbox s"
  "outbox (s\<lparr>sv_sessions := ss\<rparr>) = outbox s" "outbox (recordSupported sid m s) = outbox s"
  "outbox (fst (decideGrant k u r s)) = outbox s" "outbox (fst (CreateFloor e k s)) = outbox s"
  "outbox (fst (floorFor e k s)) = outbox s"
  by (simp_all add: outbox_def tick_def panic_def update_floor_def update_StateMachine_def
      nextTxID_Add_def Let_def recordSupported_def CreateFloor_def floorFor_def split: option.splits)
     (simp_all add: outbox_def [symmetric] callMessageIn_def callMessageOut_def decideGrant_def
        outbox_emit split: option.splits)

section \<open>One datagram\<close>

definition outgoing :: "u8 \<Rightarrow> message \<Rightarrow> message" where
  "outgoing v m = (let m = m\<lparr>Version := v\<rparr> in if v \<noteq> ProtocolVersionRFC8855 then SetResponse False m else m)"

definition sendable :: "message \<Rightarrow> bool" where
  "sendable m \<longleftrightarrow> Reserved m \<in> {0, 0x10} \<and> list_all wfAttr (Attributes m) \<and> payloadSize m < 4 * 65536"

definition supported :: "u8 \<Rightarrow> bool" where
  "supported v \<longleftrightarrow> v = ProtocolVersionRFC4582 \<or> v = ProtocolVersionRFC8855"

definition udp_open :: "Server \<Rightarrow> nat \<Rightarrow> bool" where
  "udp_open s sid \<longleftrightarrow>
     (case se_UDPTransport (sv_session_at s sid) of
        Some t \<Rightarrow> \<not> udp_closed (sv_udp_at s t) | None \<Rightarrow> False) \<and>
     supported (ProtocolVersion_of (sv_session_at s sid))"

definition writes_succeed :: "Env \<Rightarrow> bool" where
  "writes_succeed e \<longleftrightarrow> (\<forall>n. env_write e n)"

lemma outgoing_fields [simp]:
  "Version (outgoing v m) = v" "Primitive (outgoing v m) = Primitive m"
  "ConferenceID (outgoing v m) = ConferenceID m" "TransactionID (outgoing v m) = TransactionID m"
  "UserID (outgoing v m) = UserID m" "Attributes (outgoing v m) = Attributes m"
  "payloadSize (outgoing v m) = payloadSize m"
  by (simp_all add: outgoing_def SetResponse_def payloadSize_def Let_def)

lemma IsResponse_outgoing: "IsResponse (outgoing v m) = (v = ProtocolVersionRFC8855 \<and> IsResponse m)"
  using IsResponse_SetResponse [of False "m\<lparr>Version := v\<rparr>"]
  by (simp add: outgoing_def Let_def del: IsResponse_SetResponse) (simp add: IsResponse_def)

lemma wf_outgoing: "sendable m \<Longrightarrow> supported v \<Longrightarrow> wfMessage (outgoing v m)"
  by (auto simp: wfMessage_def sendable_def supported_def outgoing_def SetResponse_def Let_def
      payloadSize_def)

text \<open>Decoding drops nothing but the payload length and the pre-encoding.\<close>

lemma decodedMessage_fields [simp]:
  "Version (decodedMessage m) = Version m" "Primitive (decodedMessage m) = Primitive m"
  "ConferenceID (decodedMessage m) = ConferenceID m" "TransactionID (decodedMessage m) = TransactionID m"
  "UserID (decodedMessage m) = UserID m" "IsResponse (decodedMessage m) = IsResponse m"
  "Attributes (decodedMessage m) = map decodedAttr (Attributes m)"
  by (simp_all add: decodedMessage_def withPayloadLength_def IsResponse_def)

lemma sendUDP_sent:
  assumes "se_UDPTransport (sv_session_at s sid) = Some t" "udp_open s sid" "writes_succeed e" "sendable m"
  shows "\<exists>bs. outbox (sendUDP e sid m s) = outbox s @ [(udp_RemoteAddr (sv_udp_at s t), bs)] \<and>
    Decode bs = Ok (decodedMessage (outgoing (ProtocolVersion_of (sv_session_at s sid)) m))"
proof -
  let ?v = "ProtocolVersion_of (sv_session_at s sid)"
  have o: "\<not> udp_closed (sv_udp_at s t)" "supported ?v" using assms(1,2) by (auto simp: udp_open_def)
  from Decode_Encode_wf [OF wf_outgoing [OF assms(4) o(2)]] obtain bs where
    bs: "Encode (outgoing ?v m) = Ok (withPayloadLength (outgoing ?v m), bs)"
      "Decode bs = Ok (decodedMessage (outgoing ?v m))" by blast
  have "(if Version (m\<lparr>Version := ?v\<rparr>) \<noteq> ProtocolVersionRFC8855 then SetResponse False (m\<lparr>Version := ?v\<rparr>)
      else m\<lparr>Version := ?v\<rparr>) = outgoing ?v m"
    by (simp add: outgoing_def Let_def)
  with o assms(1,3) bs show ?thesis
    by (auto simp: sendUDP_def udp_SendMessage_def Let_def writes_succeed_def outbox_emit)
qed

section \<open>Who is written to\<close>

definition sends_to :: "string set \<Rightarrow> Server \<Rightarrow> Server \<Rightarrow> bool" where
  "sends_to R s s' \<longleftrightarrow> (\<exists>rest. outbox s' = outbox s @ rest \<and> fst ` set rest \<subseteq> R)"

lemma sends_to_same: "outbox s' = outbox s \<Longrightarrow> sends_to R s s'"
  by (simp add: sends_to_def)

lemma sends_to_trans: "sends_to R s t \<Longrightarrow> sends_to R t u \<Longrightarrow> sends_to R s u"
  by (fastforce simp: sends_to_def image_subset_iff)

lemma sends_to_mono: "sends_to R s s' \<Longrightarrow> R \<subseteq> R' \<Longrightarrow> sends_to R' s s'"
  by (auto simp: sends_to_def)

lemma sends_to_sendUDP: "sends_to {r. peer s sid = Some r} s (sendUDP e sid m s)"
  by (auto simp: sends_to_def sendUDP_def peer_def Let_def outbox_emit
      split: option.splits res.splits prod.splits)

lemma sends_to_notifySessionUDP:
  "sends_to {r. Some sid \<noteq> ex \<and> peer s sid = Some r} s (notifySessionUDP e ex u k r st sid s)"
proof (cases "Some sid = ex \<or> se_UDPTransport (sv_session_at s sid) = None")
  case True
  then show ?thesis by (auto simp: notifySessionUDP_def sends_to_same)
next
  case False
  let ?s = "fst (nextTxID_Add s)"
  have "peer ?s = peer s" by (rule ext) (rule peer_frame, simp)
  with False sends_to_sendUDP [of ?s sid] show ?thesis
    by (auto simp: notifySessionUDP_def split_beta Let_def sends_to_def)
qed

text \<open>A broadcast writes to the peers of the registered sessions other than the excepted one.\<close>

definition others :: "nat option \<Rightarrow> Server \<Rightarrow> string set" where
  "others ex s = {r. \<exists>x \<in> snd ` set (sv_sessions s). Some x \<noteq> ex \<and> peer s x = Some r}"

lemma sends_to_fold_notify:
  "sends_to {r. \<exists>x \<in> set xs. Some x \<noteq> ex \<and> peer s x = Some r} s
     (fold (notifySessionUDP e ex u k r st) xs s)"
proof (induction xs arbitrary: s)
  case (Cons x xs)
  let ?s = "notifySessionUDP e ex u k r st x s"
  have "peer ?s = peer s" by (rule ext) (rule peer_frame, simp)
  with Cons.IH [of ?s] have "sends_to {r. \<exists>y \<in> set (x # xs). Some y \<noteq> ex \<and> peer s y = Some r} ?s
      (fold (notifySessionUDP e ex u k r st) xs ?s)"
    by (auto elim: sends_to_mono)
  moreover have "sends_to {r. \<exists>y \<in> set (x # xs). Some y \<noteq> ex \<and> peer s y = Some r} s ?s"
    by (rule sends_to_mono [OF sends_to_notifySessionUDP]) auto
  ultimately show ?case using sends_to_trans by simp
qed (simp add: sends_to_same)

lemma sends_to_broadcastUDP:
  assumes "env_ok e"
  shows "sends_to (others ex s) s (broadcastFloorStatusUDP e ex u k r st q s)"
proof -
  have m: "set (range_sessions e s) = set (sv_sessions s)"
    using assms unfolding range_sessions_def env_ok_def by (metis mset_eq_setD)
  have "peer (tick s) = peer s" by (rule ext) (rule peer_frame, simp)
  then show ?thesis
    using sends_to_fold_notify [of "map snd (range_sessions e s)" ex "tick s"] m
    by (simp add: broadcastFloorStatusUDP_def others_def sends_to_def)
qed

section \<open>Answers\<close>

text \<open>
  The peer of the session gets exactly one datagram; it decodes to a message with the request's
  conference, transaction, user and version, flagged as a response in version 2.
\<close>

definition replies_to :: "message \<Rightarrow> message \<Rightarrow> bool" where
  "replies_to req m' \<longleftrightarrow>
     ConferenceID m' = ConferenceID req \<and> TransactionID m' = TransactionID req \<and>
     UserID m' = UserID req \<and> Version m' = Version req \<and>
     IsResponse m' = (Version req = ProtocolVersionRFC8855)"

definition answered :: "nat \<Rightarrow> message \<Rightarrow> (message \<Rightarrow> bool) \<Rightarrow> Server \<Rightarrow> Server \<Rightarrow> bool" where
  "answered sid req P s s' \<longleftrightarrow>
     (\<exists>r bs m' rest. peer s sid = Some r \<and> outbox s' = outbox s @ (r, bs) # rest \<and>
        r \<notin> fst ` set rest \<and> Decode bs = Ok m' \<and> replies_to req m' \<and> P m')"

lemma answered_prefix:
  "answered sid req P s s' \<Longrightarrow> outbox s0 = outbox s \<Longrightarrow> peer s0 sid = peer s sid \<Longrightarrow> answered sid req P s0 s'"
  by (simp add: answered_def)

lemma answered_suffix:
  assumes "answered sid req P s s'" "sends_to R s' s''" "\<And>r. peer s sid = Some r \<Longrightarrow> r \<notin> R"
  shows "answered sid req P s s''"
proof -
  from assms(1) obtain r bs m' rest where a: "peer s sid = Some r" "outbox s' = outbox s @ (r, bs) # rest"
    "r \<notin> fst ` set rest" "Decode bs = Ok m'" "replies_to req m'" "P m'" by (auto simp: answered_def)
  from assms(2) obtain more where "outbox s'' = outbox s' @ more" "fst ` set more \<subseteq> R"
    by (auto simp: sends_to_def)
  moreover have "r \<notin> R" using assms(3) a(1) .
  ultimately have "outbox s'' = outbox s @ (r, bs) # (rest @ more) \<and> r \<notin> fst ` set (rest @ more)"
    using a(2,3) by auto
  with a show ?thesis unfolding answered_def by blast
qed

lemma answered_mono: "answered sid req P s s' \<Longrightarrow> (\<And>m'. P m' \<Longrightarrow> Q m') \<Longrightarrow> answered sid req Q s s'"
  by (auto simp: answered_def)

definition request_ids :: "message \<Rightarrow> message \<Rightarrow> bool" where
  "request_ids req m \<longleftrightarrow> ConferenceID m = ConferenceID req \<and> TransactionID m = TransactionID req \<and>
     UserID m = UserID req \<and> IsResponse m"

text \<open>The session can answer the request: its transport is open and it speaks the version.\<close>

definition can_answer :: "Env \<Rightarrow> nat \<Rightarrow> message \<Rightarrow> Server \<Rightarrow> bool" where
  "can_answer e sid req s \<longleftrightarrow>
     writes_succeed e \<and> udp_open s sid \<and> ProtocolVersion_of (sv_session_at s sid) = Version req"

lemma answered_sendUDP:
  assumes "can_answer e sid req s" "sendable m" "request_ids req m"
  shows "answered sid req (\<lambda>m'. m' = decodedMessage (outgoing (Version req) m)) s (sendUDP e sid m s)"
proof -
  have "udp_open s sid" using assms(1) by (simp add: can_answer_def)
  then obtain t where t: "se_UDPTransport (sv_session_at s sid) = Some t"
    by (auto simp: udp_open_def split: option.splits)
  from sendUDP_sent [OF t] assms(1,2) obtain bs where
    "outbox (sendUDP e sid m s) = outbox s @ [(udp_RemoteAddr (sv_udp_at s t), bs)]"
    "Decode bs = Ok (decodedMessage (outgoing (Version req) m))"
    by (metis can_answer_def)
  with t assms(3) show ?thesis
    by (auto simp: answered_def replies_to_def peer_def request_ids_def IsResponse_outgoing)
qed

lemma can_answer_cong:
  assumes "can_answer e sid req s"
    and "se_UDPTransport (sv_session_at s' sid) = se_UDPTransport (sv_session_at s sid)"
    and "ssm_ClientVersion (se_StateMachine (sv_session_at s' sid))
      = ssm_ClientVersion (se_StateMachine (sv_session_at s sid))"
    and "sv_udp_at s' = sv_udp_at s"
  shows "can_answer e sid req s'"
proof -
  have "ProtocolVersion_of (sv_session_at s' sid) = ProtocolVersion_of (sv_session_at s sid)"
    by (simp add: ProtocolVersion_of_def assms(2,3))
  then show ?thesis
    using assms(1) by (auto simp: can_answer_def udp_open_def assms(2,4) split: option.splits)
qed

lemma can_answer_same:
  assumes "can_answer e sid req s" "sv_session_at s' sid = sv_session_at s sid" "sv_udp_at s' = sv_udp_at s"
  shows "can_answer e sid req s'"
  using assms by (auto intro: can_answer_cong)

section \<open>The messages the server sends\<close>

lemma NewMessage_fields [simp]:
  "Version (NewMessage p c t u) = ProtocolVersion" "Primitive (NewMessage p c t u) = p"
  "ConferenceID (NewMessage p c t u) = c" "TransactionID (NewMessage p c t u) = t"
  "UserID (NewMessage p c t u) = u" "Reserved (NewMessage p c t u) = 0" "Attributes (NewMessage p c t u) = []"
  by (simp_all add: NewMessage_def)

lemma SetResponse_True_fields [simp]:
  "Primitive (SetResponse b m) = Primitive m" "ConferenceID (SetResponse b m) = ConferenceID m"
  "TransactionID (SetResponse b m) = TransactionID m" "UserID (SetResponse b m) = UserID m"
  "Attributes (SetResponse b m) = Attributes m" "Version (SetResponse b m) = Version m"
  "Reserved (SetResponse True m) = Reserved m OR 0x10"
  by (simp_all add: SetResponse_def)

lemma AddAttribute_fields [simp]:
  "Primitive (AddAttribute t v m) = Primitive m" "ConferenceID (AddAttribute t v m) = ConferenceID m"
  "TransactionID (AddAttribute t v m) = TransactionID m" "UserID (AddAttribute t v m) = UserID m"
  "Reserved (AddAttribute t v m) = Reserved m" "IsResponse (AddAttribute t v m) = IsResponse m"
  "Attributes (AddAttribute t v m) =
     Attributes m @ [\<lparr>Type = t, Length = of_nat (length v), Value = v, RawTLV = False\<rparr>]"
  by (simp_all add: AddAttribute_def IsResponse_def)

definition plain :: "AttributeType \<Rightarrow> byte list \<Rightarrow> attribute" where
  "plain t v = \<lparr>Type = t, Length = of_nat (length v), Value = v, RawTLV = False\<rparr>"

lemma plain_wf: "length v \<le> 253 \<Longrightarrow> unat t < 128 \<Longrightarrow> wfAttr (plain t v)"
  by (simp add: wfAttr_def plain_def unat_of_nat)

lemma plain_decoded [simp]: "decodedAttr (plain t v) = plain t v"
  by (simp add: decodedAttr_def plain_def)

lemma plain_size: "length v \<le> 253 \<Longrightarrow> attrSize (plain t v) \<le> 258"
  by (auto simp: attrSize_def plain_def unat_of_nat Let_def)

definition statusResponse :: "message \<Rightarrow> u16 \<Rightarrow> u16 \<Rightarrow> RequestStatus \<Rightarrow> message" where
  "statusResponse req floorID requestID status =
     AddFloorRequestInformationRFC4582 requestID status floorID
       (SetResponse True (NewMessage PrimitiveFloorRequestStatus (ConferenceID req)
          (TransactionID req) (UserID req)))"

lemma statusResponse_fields:
  "Attributes (statusResponse req k r st) = [\<lparr>Type = AttrFloorRequestInfo, Length = 20,
      Value = floorReqInfoAttr r st k, RawTLV = True\<rparr>]"
  "Primitive (statusResponse req k r st) = PrimitiveFloorRequestStatus"
  "Reserved (statusResponse req k r st) = 0x10"
  "request_ids req (statusResponse req k r st)"
  by (simp_all add: statusResponse_def AddFloorRequestInformationRFC4582_def Let_def request_ids_def
      IsResponse_def)

lemma floorInfo_wf: "wfAttr \<lparr>Type = ty, Length = l, Value = floorReqInfoAttr r st k, RawTLV = True\<rparr>"
  by (simp add: wfAttr_def floorReqInfoAttr_bytes pad4_def)

lemma sendable_status: "sendable (statusResponse req k r st)"
  by (simp add: sendable_def statusResponse_fields floorInfo_wf payloadSize_def attrSize_def)

lemma decoded_floorInfo:
  "decodedAttr \<lparr>Type = ty, Length = l, Value = floorReqInfoAttr r st k, RawTLV = True\<rparr>
     = decodedInfoAttr r st k"
  by (simp add: decodedAttr_def decodedInfoAttr_def floorReqInfoAttr_bytes)

text \<open>A status answer, as its receiver reads it.\<close>

definition tells_status :: "u16 \<Rightarrow> u16 \<Rightarrow> RequestStatus \<Rightarrow> message \<Rightarrow> bool" where
  "tells_status floorID requestID status m' \<longleftrightarrow>
     Primitive m' = PrimitiveFloorRequestStatus \<and> GetFloorID m' = Some floorID \<and>
     GetFloorRequestID m' = Some requestID \<and> GetRequestStatus m' = Some (status, 0)"

lemma status_told: "tells_status k r st (decodedMessage (outgoing v (statusResponse req k r st)))"
  using accessors_decodedInfo [of "decodedMessage (outgoing v (statusResponse req k r st))" r st k]
  by (simp add: tells_status_def statusResponse_fields decoded_floorInfo)

text \<open>An error answer, as its receiver reads it.\<close>

definition tells_error :: "ErrorCode \<Rightarrow> string \<Rightarrow> message \<Rightarrow> bool" where
  "tells_error errorCode errorInfo m' \<longleftrightarrow>
     Primitive m' = PrimitiveError \<and> GetErrorCode m' = Some errorCode \<and> GetErrorInfo m' = Some errorInfo"

lemma errorMessage_fields:
  assumes "info \<noteq> []"
  shows "Attributes (errorMessage True req c info) = [plain AttrErrorCode [c], plain AttrErrorInfo (bytes_of info)]"
    "Primitive (errorMessage True req c info) = PrimitiveError"
    "Reserved (errorMessage True req c info) = 0x10"
    "request_ids req (errorMessage True req c info)"
  using assms by (simp_all add: errorMessage_def Let_def AddErrorCode_def AddErrorInfo_def plain_def request_ids_def)

lemma sendable_error:
  assumes "info \<noteq> []" "length info \<le> 253"
  shows "sendable (errorMessage True req c info)"
proof -
  have l: "length (bytes_of info) \<le> 253" using assms by (simp add: bytes_of_def)
  have "wfAttr (plain AttrErrorCode [c])" "wfAttr (plain AttrErrorInfo (bytes_of info))"
    using l by (intro plain_wf; simp)+
  moreover have "attrSize (plain AttrErrorCode [c]) \<le> 258"
    "attrSize (plain AttrErrorInfo (bytes_of info)) \<le> 258"
    using l by (intro plain_size; simp)+
  ultimately show ?thesis
    by (simp add: sendable_def errorMessage_fields [OF assms(1)] payloadSize_def)
qed

lemma string_of_bytes_of [simp]: "string_of (bytes_of info) = info"
proof -
  have "char_of (unat (of_char c :: byte)) = c" for c :: char
  proof -
    have "unat (of_char c :: byte) = (of_char c :: nat)"
      by (subst of_nat_of_char [symmetric]) (simp add: unat_of_nat)
    then show ?thesis by simp
  qed
  then show ?thesis by (simp add: string_of_def bytes_of_def map_idI comp_def)
qed

lemma error_told:
  assumes "info \<noteq> []"
  shows "tells_error c info (decodedMessage (outgoing v (errorMessage True req c info)))"
  by (simp add: tells_error_def errorMessage_fields [OF assms] GetErrorCode_def GetErrorInfo_def
      GetAttribute_def) (simp add: plain_def)

section \<open>The handlers answer\<close>

lemma fmt_d_length: "n < 10 ^ Suc k \<Longrightarrow> length (fmt_d n) \<le> Suc k"
proof (induction k arbitrary: n)
  case (Suc k)
  then have "n div 10 < 10 ^ Suc k" by (simp add: less_mult_imp_div_less)
  from Suc.IH [OF this] show ?case by (simp add: fmt_d.simps [of n])
qed (simp add: fmt_d.simps)

lemma fmt_d_u16: "length (fmt_d (unat (w :: u16))) \<le> 5"
  by (rule fmt_d_length [of _ 4, simplified]) (use u16_bound [of w] in linarith)

lemma fmt_d_short: "5 \<le> n \<Longrightarrow> length (fmt_d (unat (w :: u16))) \<le> n"
  using fmt_d_u16 [of w] by linarith

lemma fmt_d_u8: "length (fmt_d (unat (w :: u8))) \<le> 5"
  by (rule fmt_d_length [of _ 4, simplified]) (use u8_bound [of w] in linarith)

lemma RequestStatus_String_length: "length (RequestStatus_String st) \<le> 20"
  using fmt_d_u8 [of st] by (simp add: RequestStatus_String_def)

lemma floor_error_text: "floor_error_Error err \<noteq> []" "length (floor_error_Error err) \<le> 253"
proof -
  show "floor_error_Error err \<noteq> []" by (cases err) simp_all
  show "length (floor_error_Error err) \<le> 253"
  proof (cases err)
    case (AlreadyInUse k u)
    then show ?thesis using fmt_d_u16 [of k] fmt_d_u16 [of u] by simp
  next
    case (InvalidFloorState st)
    then show ?thesis using RequestStatus_String_length [of st] by simp
  next
    case (CannotGrant st)
    then show ?thesis using RequestStatus_String_length [of st] by simp
  next
    case (CannotDeny st)
    then show ?thesis using RequestStatus_String_length [of st] by simp
  next
    case (NotOwner u k v)
    then show ?thesis using fmt_d_u16 [of u] fmt_d_u16 [of k] fmt_d_u16 [of v] by simp
  qed simp
qed

lemma answered_error:
  assumes "can_answer e sid req s" "info \<noteq> []" "length info \<le> 253"
  shows "answered sid req (tells_error c info) s (sendUDPError e sid req c info s)"
proof -
  have "answered sid req (tells_error c info) s (sendUDP e sid (errorMessage True req c info) s)"
    by (rule answered_mono [OF answered_sendUDP [OF assms(1) sendable_error [OF assms(2,3)]
          errorMessage_fields(4) [OF assms(2)]]]) (simp add: error_told [OF assms(2)])
  then show ?thesis by (simp add: sendUDPError_def Let_def answered_def)
qed

lemma answered_status:
  assumes "can_answer e sid req s"
  shows "answered sid req (tells_status k r st) s (sendUDPFloorStatusResponse e sid req k r st s)"
  unfolding sendUDPFloorStatusResponse_def statusResponse_def [symmetric]
  by (rule answered_mono [OF answered_sendUDP [OF assms sendable_status statusResponse_fields(4)]])
     (simp add: status_told)

lemma sends_to_emit_if: "sent_by ev = None \<Longrightarrow> sends_to R s (emit_if b ev s)"
  by (simp add: sends_to_same)

lemma answered_after_error:
  "answered sid req P s s' \<Longrightarrow> sent_by ev = None \<Longrightarrow> answered sid req P s (emit_if b ev s')"
  by (simp add: answered_def)

lemma answered_after_update:
  "answered sid req P s s' \<Longrightarrow> answered sid req P s (update_StateMachine x g s')"
  by (simp add: answered_def)

definition tells_decision ::
    "bool \<Rightarrow> u16 \<Rightarrow> u16 \<Rightarrow> floor \<Rightarrow> message \<Rightarrow> bool" where
  "tells_decision grant k r a m' =
     (if a = Free
      then tells_status k r (if grant then RequestStatusGranted else RequestStatusDenied) m'
      else \<exists>info. tells_error ErrorUnauthorizedOperation info m')"

lemma answered_answerUDPFloorRequest:
  assumes "can_answer e sid m s" "floor_inv (sv_floor_at s p)"
  shows "answered sid m (tells_decision g k r (floor_abs (sv_floor_at s p))) s
           (answerUDPFloorRequest e sid m p k r g s)"
proof -
  let ?a = "floor_abs (sv_floor_at s p)"
  obtain f status err where R: "Request (UserID m) r (requestPriority m) (sv_floor_at s p) = (f, status, err)"
    by (cases "Request (UserID m) r (requestPriority m) (sv_floor_at s p)") auto
  have can: "can_answer e sid m (update_floor q h s)" for q h
    using assms(1) by (rule can_answer_same) simp_all
  have pre: "answered sid m P (update_floor q h s) s' \<Longrightarrow> answered sid m P s s'" for q h P s'
    by (erule answered_prefix) (simp_all add: peer_def)
  show ?thesis
  proof (cases err)
    case (Some x)
    with R have "?a \<noteq> Free" using Request_error_iff [of "UserID m" r "requestPriority m" "sv_floor_at s p"] by auto
    then have "tells_error ErrorUnauthorizedOperation i m' \<Longrightarrow> tells_decision g k r ?a m'" for i m'
      by (auto simp: tells_decision_def)
    then have "answered sid m (tells_decision g k r ?a) (update_floor p f s)
        (sendUDPError e sid m ErrorUnauthorizedOperation (floor_error_Error x) (update_floor p f s))"
      using answered_mono [OF answered_error [OF can floor_error_text]] by blast
    then have "answered sid m (tells_decision g k r ?a) s
        (emit_if b (FloorDenied k (UserID m) r)
          (sendUDPError e sid m ErrorUnauthorizedOperation (floor_error_Error x) (update_floor p f s)))" for b
      by (intro answered_after_error pre) simp_all
    then show ?thesis by (simp only: answerUDPFloorRequest_def R Some Let_def prod.case option.case)
  next
    case None
    with R have free: "?a = Free" using Request_error_iff [of "UserID m" r "requestPriority m" "sv_floor_at s p"] by simp
    from R None have st: "status = RequestStatusPending" "snd (Grant (env_now e) f) = None" "snd (Deny f) = None"
      using Request_ok_pending Grant_pending Deny_pending by metis+
    have yes: "answered sid m (tells_decision g k r ?a) s
        (emit_if b ev (update_StateMachine sid h (sendUDPFloorStatusResponse e sid m k r
          (if g then RequestStatusGranted else RequestStatusDenied) (update_floor p q s))))"
      if "sent_by ev = None" for b ev h q
      using answered_status [OF can, of k r "if g then RequestStatusGranted else RequestStatusDenied" p q]
      by (intro answered_after_error answered_after_update pre [of _ p q] that)
         (auto elim!: answered_mono simp: tells_decision_def free)
    show ?thesis
      using yes [of "FloorGranted k (UserID m) r"] yes [of "FloorDenied k (UserID m) r"] st R None
      by (cases g) (simp_all add: answerUDPFloorRequest_def split_beta Let_def)
  qed
qed

end
