(* ===== verification/Server_Answers.thy ===== *)
theory Server_Answers
  imports Server_Responses
begin

text \<open>
  The right answer to each request, and that the UDP server gives it: once, to the sender, and
  nothing else to that sender. What is not a request gets no answer.
\<close>

section \<open>The right answers\<close>

fun status_of :: "floor \<Rightarrow> RequestStatus" where
  "status_of Free = RequestStatusReleased"
| "status_of (Asked u r) = RequestStatusPending"
| "status_of (Held u r) = RequestStatusGranted"
| "status_of Closed = RequestStatusDenied"

lemma status_of_abs: "floor_inv f \<Longrightarrow> status_of (floor_abs f) = fsm_CurrentState f"
  by (auto simp: floor_inv_def floor_abs_def)

definition tells_floor :: "u16 \<Rightarrow> floor \<Rightarrow> message \<Rightarrow> bool" where
  "tells_floor k a m' \<longleftrightarrow>
     Primitive m' = PrimitiveFloorStatus \<and> GetFloorID m' = Some k \<and>
     GetFloorRequestID m' = Some (request_of a) \<and> GetRequestStatus m' = Some (status_of a, 0)"

definition tells_release :: "message \<Rightarrow> (u16 \<Rightarrow> floor option) \<Rightarrow> message \<Rightarrow> bool" where
  "tells_release m v m' \<longleftrightarrow>
     (if \<exists>k. release_target m v k then
        \<exists>k. release_target m v k \<and>
          (if UserID m = owner_of (the (v k)) \<or> UserID m = 0
           then tells_status k (case GetFloorRequestID m of Some r \<Rightarrow> r | None \<Rightarrow> 0)
                  RequestStatusReleased m'
           else \<exists>info. tells_error ErrorFloorReleaseDenied info m')
      else \<exists>c info. tells_error c info m')"

definition right_answer ::
    "(u16 \<Rightarrow> u16 \<Rightarrow> u16 \<Rightarrow> bool) \<Rightarrow> u16 \<Rightarrow> message \<Rightarrow> (u16 \<Rightarrow> floor option) \<Rightarrow> message \<Rightarrow> bool" where
  "right_answer policy r m v m' =
     (if Primitive m = PrimitiveHello then Primitive m' = PrimitiveHelloAck
      else if Primitive m = PrimitiveFloorRequest then
        (case GetFloorID m of
           None \<Rightarrow> \<exists>info. tells_error ErrorInvalidFloorID info m'
         | Some k \<Rightarrow> tells_decision (policy k (UserID m) r) k r (floor_or_free v k) m')
      else if Primitive m = PrimitiveFloorRelease then tells_release m v m'
      else
        (case GetFloorID m of
           None \<Rightarrow> \<exists>info. tells_error ErrorUnknownMandatoryAttribute info m'
         | Some k \<Rightarrow>
             (case v k of
                None \<Rightarrow> \<exists>info. tells_error ErrorInvalidFloorID info m'
              | Some a \<Rightarrow> tells_floor k a m')))"

definition is_request :: "message \<Rightarrow> bool" where
  "is_request m \<longleftrightarrow> Primitive m \<in>
     {PrimitiveHello, PrimitiveFloorRequest, PrimitiveFloorRelease, PrimitiveFloorQuery}"

section \<open>Handlers\<close>

lemma peer_same:
  "sv_session_at s' sid = sv_session_at s sid \<Longrightarrow> sv_udp_at s' = sv_udp_at s \<Longrightarrow>
   sv_transport_at s' = sv_transport_at s \<Longrightarrow> peer s' sid = peer s sid"
  by (simp add: peer_def cong: option.case_cong)

lemma answered_handleUDPFloorRequest:
  assumes "can_answer e sid m s" "server_inv s"
  shows "case GetFloorID m of
      None \<Rightarrow> answered sid m (tells_error ErrorInvalidFloorID ''No floor ID in request'') s
                (handleUDPFloorRequest e sid m s)
    | Some k \<Rightarrow> answered sid m
        (tells_decision (policy_of s k (UserID m) (next_request s)) k (next_request s)
           (floor_or_free (floors_view s) k)) s (handleUDPFloorRequest e sid m s)"
proof (cases "GetFloorID m")
  case None
  then show ?thesis using answered_error [OF assms(1)] by (simp add: handleUDPFloorRequest_def)
next
  case (Some k)
  obtain s1 p where F: "floorFor e k s = (s1, p)" by (cases "floorFor e k s")
  note ok = floorFor_ok [OF assms(2) F] and fs = floorFor_fields [OF F]
  define r where "r = next_request s"
  define s3 where "s3 = fst (decideGrant k (UserID m) r (fst (nextTxID_Add s1)))"
  define g where "g = policy_of s k (UserID m) r"
  have f: "frame s1 s3"
    unfolding s3_def by (rule frame_trans [OF frame_nextTxID frame_decideGrant])
  have same: "sv_session_at s3 = sv_session_at s1" "sv_nextTxID s1 + 1 = sv_nextTxID s + 1"
    by (simp_all add: s3_def decideGrant_def nextTxID_Add_def emit_def Let_def fs split: option.splits)
  have s': "handleUDPFloorRequest e sid m s = answerUDPFloorRequest e sid m p k r g s3"
    using Some F
    by (simp add: handleUDPFloorRequest_def s3_def g_def r_def nextTxID_Add_def Let_def split_beta
        next_request_def fs decideGrant_policy)
       (simp add: policy_of_def fs cong: option.case_cong)
  have at: "sv_floor_at s3 p = sv_floor_at s1 p" "sv_udp_at s3 = sv_udp_at s"
    "sv_transport_at s3 = sv_transport_at s"
    using frame_fields [OF f] fs by simp_all
  have "can_answer e sid m s3"
    by (rule can_answer_same [OF assms(1)]) (simp_all add: same fs at)
  from answered_answerUDPFloorRequest [OF this server_inv_floor [OF server_inv_frame [OF f ok(1)]], of g k r p]
  have "answered sid m (tells_decision g k r (floor_or_free (floors_view s) k)) s3
      (handleUDPFloorRequest e sid m s)"
    by (simp add: s' at ok(3) floor_or_free_def)
  moreover have "outbox s = outbox s3"
    using outbox_log [OF fs(11)] by (simp add: s3_def)
  moreover have "peer s sid = peer s3 sid"
    by (rule peer_same) (simp_all add: same fs at)
  ultimately show ?thesis
    using Some answered_prefix by (simp add: g_def r_def)
qed

text \<open>No other registered session has the sender's address.\<close>

definition only_session :: "nat \<Rightarrow> Server \<Rightarrow> bool" where
  "only_session sid s \<longleftrightarrow> (\<forall>r. peer s sid = Some r \<longrightarrow> r \<notin> others (Some sid) s)"

lemma others_frame: "frame s s' \<Longrightarrow> others ex s' = others ex s"
  using frame_fields(5) [of s s'] peer_frame [of s s'] by (simp add: others_def)

lemma others_update_floor [simp]: "others ex (update_floor p f s) = others ex s"
  by (simp add: others_def)

lemma outbox_floorToRelease: "outbox (fst (floorToRelease e m s)) = outbox s"
  by (simp add: floorToRelease_def GetFloorByRequestID_def floorOwnedBy_def split: option.splits)

lemma floorToRelease_session: "sv_session_at (fst (floorToRelease e m s)) = sv_session_at s"
  by (simp add: floorToRelease_def GetFloorByRequestID_def floorOwnedBy_def tick_def split: option.splits)

lemma floorToRelease_text:
  "snd (floorToRelease e m s) = Fail (c, info) \<Longrightarrow> info \<noteq> [] \<and> length info \<le> 253"
  by (auto simp: floorToRelease_def GetFloorByRequestID_def floorOwnedBy_def split: option.splits
      intro!: fmt_d_short)

text \<open>A release that is found: its sender is told, and then the others.\<close>

lemma answered_release_done:
  assumes "can_answer e sid m s" "env_ok e" "only_session sid s"
    and "floorToRelease e m s = (s1, Ok (p, k))" "Release (UserID m) (sv_floor_at s1 p) = (g, None)"
  defines "rid \<equiv> (case GetFloorRequestID m of Some r \<Rightarrow> r | None \<Rightarrow> 0)"
  shows "answered sid m (tells_status k rid RequestStatusReleased) s1 (handleUDPFloorRelease e sid m s)"
proof -
  have f: "frame s s1" using floorToRelease_frame [of s e m] assms(4) by simp
  have same: "sv_session_at s1 = sv_session_at s" using floorToRelease_session [of e m s] assms(4) by simp
  have can: "can_answer e sid m s1"
    by (rule can_answer_same [OF assms(1)]) (simp_all add: same frame_fields [OF f])
  let ?s2 = "update_floor p g s1"
  let ?s3 = "sendUDPFloorStatusResponse e sid m k rid RequestStatusReleased ?s2"
  let ?s4 = "emit_if (cb_OnFloorReleased (sv_callbacks s1)) (FloorReleased k (UserID m))
      (update_StateMachine sid (SetState (env_now e) StateFloorReleased) ?s3)"
  have cb: "sv_callbacks (update_StateMachine y h ?s3) = sv_callbacks s1" for y h
  proof -
    have "frame ?s2 (update_StateMachine y h ?s3)" by (intro frame_intros frame_refl)
    from frame_fields(2) [OF this] show ?thesis by simp
  qed
  have s': "handleUDPFloorRelease e sid m s
      = broadcastFloorStatusUDP e (Some sid) (UserID m) k rid RequestStatusReleased 0 ?s4"
    unfolding cb [symmetric, of sid "SetState (env_now e) StateFloorReleased"] rid_def
    by (simp add: handleUDPFloorRelease_def assms(4,5) Let_def)
  have "can_answer e sid m ?s2" by (rule can_answer_same [OF can]) simp_all
  from answered_status [OF this]
  have a: "answered sid m (tells_status k rid RequestStatusReleased) ?s2 ?s4"
    by (intro answered_after_error answered_after_update) simp_all
  have o: "others (Some sid) ?s4 = others (Some sid) s"
  proof -
    have "frame ?s2 ?s4" by (intro frame_intros frame_refl)
    from others_frame [OF this] others_frame [OF f] show ?thesis by simp
  qed
  have p: "peer ?s2 sid = peer s sid" using peer_frame [OF f] by simp
  have "answered sid m (tells_status k rid RequestStatusReleased) ?s2 (handleUDPFloorRelease e sid m s)"
    unfolding s'
    by (rule answered_suffix [OF a sends_to_broadcastUDP [OF assms(2)]])
       (use assms(3) o p in \<open>auto simp only: only_session_def\<close>)
  then show ?thesis by (auto intro: answered_prefix)
qed

lemma answered_handleUDPFloorRelease:
  assumes "can_answer e sid m s" "server_inv s" "env_ok e" "only_session sid s"
  shows "answered sid m (tells_release m (floors_view s)) s (handleUDPFloorRelease e sid m s)"
proof -
  obtain s1 x where R: "floorToRelease e m s = (s1, x)" by (cases "floorToRelease e m s")
  have f: "frame s s1" using floorToRelease_frame [of s e m] R by simp
  note ff = frame_fields [OF f]
  have same: "sv_session_at s1 = sv_session_at s" "outbox s = outbox s1"
    using floorToRelease_session [of e m s] outbox_floorToRelease [of e m s] R by simp_all
  have can: "can_answer e sid m s1" by (rule can_answer_same [OF assms(1)]) (simp_all add: same ff)
  have pre: "answered sid m P s1 s' \<Longrightarrow> answered sid m P s s'" for P s'
    using answered_prefix same(2) peer_frame [OF f] by metis
  show ?thesis
  proof (cases x)
    case (Ok pk)
    obtain p k where pk: "pk = (p, k)" by (cases pk)
    from floorToRelease_Ok [OF assms(3,2), of m p k] R Ok pk have t: "(k, p) \<in> set (sv_floors s)"
      "release_target m (floors_view s) k" by auto
    note iv = in_floors_view [OF assms(2) t(1)]
    have inv: "floor_inv (sv_floor_at s p)" using server_inv_floor [OF assms(2)] .
    have "answered sid m (\<lambda>m'. if UserID m = owner_of (the (floors_view s k)) \<or> UserID m = 0
           then tells_status k (case GetFloorRequestID m of Some r \<Rightarrow> r | None \<Rightarrow> 0) RequestStatusReleased m'
           else \<exists>info. tells_error ErrorFloorReleaseDenied info m') s (handleUDPFloorRelease e sid m s)"
    proof (cases "UserID m = owner_of (floor_abs (sv_floor_at s p)) \<or> UserID m = 0")
      case True
      then obtain g where "Release (UserID m) (sv_floor_at s1 p) = (g, None)"
        using fsm.release_by_owner [OF inv True] ff(7) by auto
      from pre [OF answered_release_done [OF assms(1,3,4) R [unfolded Ok pk] this]] True iv(1)
      show ?thesis by auto
    next
      case False
      then obtain g err where G: "Release (UserID m) (sv_floor_at s1 p) = (g, Some err)"
        using fsm.release_by_other [OF inv, of "UserID m"] ff(7) by auto
      then have "handleUDPFloorRelease e sid m s
          = sendUDPError e sid m ErrorFloorReleaseDenied (floor_error_Error err) s1"
        by (simp add: handleUDPFloorRelease_def R Ok pk)
      moreover have "answered sid m (\<lambda>m'. \<exists>info. tells_error ErrorFloorReleaseDenied info m') s
          (sendUDPError e sid m ErrorFloorReleaseDenied (floor_error_Error err) s1)"
        by (rule answered_mono [OF pre [OF answered_error [OF can floor_error_text]]]) blast
      ultimately show ?thesis using False iv(1) by simp
    qed
    then show ?thesis
      by (rule answered_mono) (use t(2) in \<open>auto simp: tells_release_def\<close>)
  next
    case (Fail err)
    obtain c info where ci: "err = (c, info)" by (cases err)
    have short: "info \<noteq> []" "length info \<le> 253" using floorToRelease_text R Fail ci by (metis snd_conv)+
    have "\<not> release_target m (floors_view s) k" for k
      using floorToRelease_Fail [OF assms(3,2)] R Fail by simp
    then have "tells_error c info m' \<Longrightarrow> tells_release m (floors_view s) m'" for m'
      by (auto simp: tells_release_def)
    moreover have "handleUDPFloorRelease e sid m s = sendUDPError e sid m c info s1"
      by (simp add: handleUDPFloorRelease_def R Fail ci)
    ultimately show ?thesis
      using answered_mono [OF pre [OF answered_error [OF can short, of c]]] by simp
  next
    case Panic
    then show ?thesis using floorToRelease_no_panic [of e m s] R by simp
  qed
qed

lemma answered_handleUDPFloorQuery:
  assumes "can_answer e sid m s" "server_inv s"
  shows "case GetFloorID m of
      None \<Rightarrow> answered sid m (tells_error ErrorUnknownMandatoryAttribute ''Missing FLOOR-ID attribute'') s
                (handleUDPFloorQuery e sid m s)
    | Some k \<Rightarrow>
        (case floors_view s k of
           None \<Rightarrow> answered sid m (\<lambda>m'. \<exists>info. tells_error ErrorInvalidFloorID info m') s
                     (handleUDPFloorQuery e sid m s)
         | Some a \<Rightarrow> answered sid m (tells_floor k a) s (handleUDPFloorQuery e sid m s))"
proof (cases "GetFloorID m")
  case None
  then show ?thesis using answered_error [OF assms(1)] by (simp add: handleUDPFloorQuery_def)
next
  case k: (Some k)
  show ?thesis
  proof (cases "lookup (sv_floors s) k")
    case None
    let ?info = "''Floor '' @ fmt_d (unat k) @ '' does not exist''"
    have "answered sid m (tells_error ErrorInvalidFloorID ?info) s (handleUDPFloorQuery e sid m s)"
      using answered_error [OF assms(1), of ?info ErrorInvalidFloorID] fmt_d_u16 [of k] k None
      by (simp add: handleUDPFloorQuery_def GetFloor_def)
    then show ?thesis using k None by (auto simp: floors_view_def elim!: answered_mono)
  next
    case (Some p)
    let ?f = "sv_floor_at s p"
    have inv: "floor_inv ?f" using assms(2) by (rule server_inv_floor)
    define resp where "resp = AddRequestStatus (GetState ?f) 0 (AddFloorRequestID (fsm_GetFloorRequestID ?f)
        (AddFloorID k (SetResponse True (NewMessage PrimitiveFloorStatus (ConferenceID m)
          (TransactionID m) (UserID m)))))"
    have attrs: "Attributes resp = [plain AttrFloorID (PutUint16 k),
        plain AttrFloorRequestID (PutUint16 (fsm_FloorRequestID ?f)),
        plain AttrRequestStatus [fsm_CurrentState ?f, 0]]"
      by (simp add: resp_def AddRequestStatus_def AddFloorRequestID_def AddFloorID_def plain_def
          fsm_GetFloorRequestID_def GetState_def)
    have hdr: "Reserved resp = 0x10" "request_ids m resp" "Primitive resp = PrimitiveFloorStatus"
      by (simp_all add: resp_def AddRequestStatus_def AddFloorRequestID_def AddFloorID_def request_ids_def)
    have "wfAttr (plain AttrFloorID (PutUint16 k))" "wfAttr (plain AttrRequestStatus [x, 0])"
      "wfAttr (plain AttrFloorRequestID (PutUint16 r))" for x r
      by (intro plain_wf; simp)+
    then have "sendable resp"
      unfolding sendable_def attrs hdr payloadSize_def by (simp add: attrSize_def plain_def)
    from answered_sendUDP [OF assms(1) this hdr(2)]
    have a: "answered sid m (\<lambda>m'. m' = decodedMessage (outgoing (Version m) resp)) s
        (handleUDPFloorQuery e sid m s)"
      using k Some by (simp add: handleUDPFloorQuery_def GetFloor_def Let_def resp_def)
    have "tells_floor k (floor_abs ?f) (decodedMessage (outgoing (Version m) resp))"
      unfolding tells_floor_def decodedMessage_fields outgoing_fields hdr
      by (simp add: GetFloorID_def GetFloorRequestID_def GetRequestStatus_def GetAttribute_def attrs
          attrUint16_def request_of_abs [OF inv] status_of_abs [OF inv])
         (simp add: plain_def)
    with answered_mono [OF a] k Some show ?thesis by (auto simp: floors_view_def)
  qed
qed

lemma answered_handleUDPHello:
  assumes "can_answer e sid m s"
  shows "answered sid m (\<lambda>m'. Primitive m' = PrimitiveHelloAck) s (handleUDPHello e sid m s)"
proof -
  from assms obtain t where t: "se_UDPTransport (sv_session_at s sid) = Some t"
    by (auto simp: can_answer_def udp_open_def split: option.splits)
  let ?s1 = "update_StateMachine sid (\<lambda>st. st\<lparr>ssm_ConferenceID := ConferenceID m, ssm_UserID := UserID m\<rparr>) s"
  let ?r = "udp_RemoteAddr (sv_udp_at s t)"
  let ?s2 = "recordSupported sid m (?s1\<lparr>sv_sessions := put ?r sid (sv_sessions ?s1)\<rparr>)"
  define resp where "resp = AddSupportedAttributes helloAttributes (AddSupportedPrimitives helloPrimitives
      (SetResponse True (NewMessage PrimitiveHelloAck (ConferenceID m) (TransactionID m) (UserID m))))"
  have links: "se_UDPTransport (sv_session_at ?s1 sid) = Some t" "sv_udp_at ?s1 = sv_udp_at s"
    using frame_fields [OF frame_update_StateMachine] t by simp_all
  have ver: "ssm_ClientVersion (se_StateMachine (sv_session_at ?s2 sid))
      = ssm_ClientVersion (se_StateMachine (sv_session_at s sid))"
    "se_UDPTransport (sv_session_at ?s2 sid) = Some t" "sv_udp_at ?s2 = sv_udp_at s"
    "sv_transport_at ?s2 = sv_transport_at s" "outbox ?s2 = outbox s"
    using t
    by (auto simp: recordSupported_def update_StateMachine_def Let_def SetSupportedPrimitives_def
        SetSupportedAttributes_def outbox_def split: option.splits)
  have can: "can_answer e sid m ?s2"
    using t ver by (intro can_answer_cong [OF assms]) simp_all
  have peer: "peer s sid = peer ?s2 sid" using t ver by (simp add: peer_def)
  have attrs: "Attributes resp = [plain AttrSupportedPrimitives helloPrimitives,
      plain AttrSupportedAttributes helloAttributes]"
    by (simp add: resp_def AddSupportedAttributes_def AddSupportedPrimitives_def plain_def)
  have hdr: "Reserved resp = 0x10" "request_ids m resp" "Primitive resp = PrimitiveHelloAck"
    by (simp_all add: resp_def AddSupportedAttributes_def AddSupportedPrimitives_def request_ids_def)
  have "wfAttr (plain AttrSupportedPrimitives helloPrimitives)"
    "wfAttr (plain AttrSupportedAttributes helloAttributes)"
    by (intro plain_wf; simp add: helloPrimitives_def helloAttributes_def)+
  then have "sendable resp"
    unfolding sendable_def attrs hdr payloadSize_def
    by (simp add: attrSize_def plain_def helloPrimitives_def helloAttributes_def)
  from answered_sendUDP [OF can this hdr(2)]
  have "answered sid m (\<lambda>m'. Primitive m' = PrimitiveHelloAck) ?s2 (sendUDP e sid resp ?s2)"
    by (rule answered_mono) (simp add: hdr)
  then have "answered sid m (\<lambda>m'. Primitive m' = PrimitiveHelloAck) s
      (emit_if b (ClientConnect ?r (UserID m)) (update_StateMachine sid h (sendUDP e sid resp ?s2)))" for b h
    by (intro answered_after_error answered_after_update) (auto intro: answered_prefix simp: ver peer)
  then show ?thesis
    by (simp only: handleUDPHello_def Let_def links option.case resp_def)
qed

section \<open>The datagram\<close>

lemma answered_session_handleUDPMessage:
  assumes "can_answer e sid m (update_StateMachine sid (\<lambda>st. st\<lparr>ssm_ClientVersion := Version m\<rparr>) s)"
    and "server_inv s" "env_ok e" "only_session sid s" "is_request m"
  shows "answered sid m (right_answer (policy_of s) (next_request s) m (floors_view s)) s
           (session_handleUDPMessage e sid m s)"
proof -
  define s0 where "s0 = update_StateMachine sid (\<lambda>st. st\<lparr>ssm_ClientVersion := Version m\<rparr>)
      (update_StateMachine sid (UpdateActivity (env_now e)) s)"
  define s1 where "s1 = callMessageIn (case se_UDPTransport (sv_session_at s0 sid) of
      Some t \<Rightarrow> udp_RemoteAddr (sv_udp_at s0 t) | None \<Rightarrow> []) m s0"
  have f: "frame s s1" unfolding s1_def s0_def by (intro frame_intros frame_refl)
  note ff = frame_fields [OF f]
  have "sv_nextTxID s1 = sv_nextTxID s"
    by (simp add: s1_def s0_def callMessageIn_def emit_if_def emit_def update_StateMachine_def)
  then have pol: "policy_of s1 = policy_of s" "next_request s1 = next_request s"
    by (simp_all add: policy_of_def next_request_def fun_eq_iff ff cong: option.case_cong)
  have inv: "server_inv s1" "floors_view s1 = floors_view s"
    using server_inv_frame [OF f] floors_view_frame [OF f] assms by auto
  have ver: "ssm_ClientVersion (se_StateMachine (sv_session_at s1 sid)) = Version m"
    by (simp add: s1_def s0_def callMessageIn_def emit_if_def emit_def update_StateMachine_def)
  have can: "can_answer e sid m s1"
    using assms(1) ver ff
    by (auto simp: can_answer_def udp_open_def ProtocolVersion_of_def update_StateMachine_def
        split: option.splits if_splits)
  have one: "only_session sid s1"
    using assms(4) peer_frame [OF f] others_frame [OF f] by (simp add: only_session_def)
  have disp: "session_handleUDPMessage e sid m s =
      (if Primitive m = PrimitiveHello then handleUDPHello e sid m s1
         else if Primitive m = PrimitiveFloorRequest then handleUDPFloorRequest e sid m s1
         else if Primitive m = PrimitiveFloorRelease then handleUDPFloorRelease e sid m s1
         else handleUDPFloorQuery e sid m s1)"
    unfolding session_handleUDPMessage_def Let_def s0_def [symmetric] s1_def [symmetric]
    using assms(5) by (auto simp: is_request_def)
  have "answered sid m (right_answer (policy_of s) (next_request s) m (floors_view s)) s1
           (session_handleUDPMessage e sid m s)"
    using answered_handleUDPHello [OF can] answered_handleUDPFloorRequest [OF can inv(1)]
      answered_handleUDPFloorRelease [OF can inv(1) assms(3) one]
      answered_handleUDPFloorQuery [OF can inv(1)]
    unfolding disp pol inv(2)
    by (auto simp: right_answer_def elim!: answered_mono split: option.splits)
  moreover have "outbox s1 = outbox s" by (simp add: s1_def s0_def)
  ultimately show ?thesis using answered_prefix peer_frame [OF f] by metis
qed

lemma only_session_registered:
  assumes "sessions_ok s" "lookup (sv_sessions s) r = Some sid"
  shows "only_session sid s"
proof -
  have in_set: "(r', x) \<in> set (sv_sessions s) \<longleftrightarrow> lookup (sv_sessions s) r' = Some x" for r' x
    using assms(1) by (simp add: sessions_ok_def in_set_lookup)
  have "peer s x = Some r'" if "(r', x) \<in> set (sv_sessions s)" for r' x
    using that assms(1) by (auto simp: sessions_ok_def)
  with in_set assms(2) show ?thesis by (fastforce simp: only_session_def others_def)
qed

lemma only_session_unregistered:
  assumes "sessions_ok s" "lookup (sv_sessions s) r = None" "peer s sid = Some r"
  shows "only_session sid s"
proof -
  have in_set: "(r', x) \<in> set (sv_sessions s) \<longleftrightarrow> lookup (sv_sessions s) r' = Some x" for r' x
    using assms(1) by (simp add: sessions_ok_def in_set_lookup)
  have "peer s x = Some r'" if "(r', x) \<in> set (sv_sessions s)" for r' x
    using that assms(1) by (auto simp: sessions_ok_def)
  with in_set assms(2,3) show ?thesis by (fastforce simp: only_session_def others_def)
qed

text \<open>The transports of an address are open: the listener has not been closed.\<close>

definition open_to :: "string \<Rightarrow> Server \<Rightarrow> bool" where
  "open_to remote s \<longleftrightarrow> (\<forall>t. udp_RemoteAddr (sv_udp_at s t) = remote \<longrightarrow> \<not> udp_closed (sv_udp_at s t))"

lemma can_answer_version:
  assumes "writes_succeed e" "se_UDPTransport (sv_session_at s sid) = Some t"
    "\<not> udp_closed (sv_udp_at s t)" "supported (Version m)"
  shows "can_answer e sid m (update_StateMachine sid (\<lambda>st. st\<lparr>ssm_ClientVersion := Version m\<rparr>) s)"
  using assms
  by (auto simp: can_answer_def udp_open_def update_StateMachine_def ProtocolVersion_of_def supported_def)

lemma handleUDPMessage_answers:
  assumes "env_ok e" "writes_succeed e" "server_inv s" "udp_only s" "t < sv_fresh s"
    and "lookup (sv_udpClients s) (udp_RemoteAddr (sv_udp_at s t)) = None"
    and "open_to (udp_RemoteAddr (sv_udp_at s t)) s" "supported (Version m)" "is_request m"
  shows "\<exists>bs m' rest. outbox (handleUDPMessage e t m s)
        = outbox s @ (udp_RemoteAddr (sv_udp_at s t), bs) # rest \<and>
      udp_RemoteAddr (sv_udp_at s t) \<notin> fst ` set rest \<and> Decode bs = Ok m' \<and> replies_to m m' \<and>
      right_answer (policy_of s) (next_request s) m (floors_view s) m'"
proof -
  let ?r = "udp_RemoteAddr (sv_udp_at s t)"
  have so: "sessions_ok s" using assms(3) by (simp add: server_inv_def)
  show ?thesis
  proof (cases "lookup (sv_sessions s) ?r")
    case (Some sid)
    have sid: "peer s sid = Some ?r" "se_UDPTransport (sv_session_at s sid) \<noteq> None"
      using lookup_in_set [OF Some] so assms(4) by (auto simp: sessions_ok_def udp_only_def)
    then obtain t' where t': "se_UDPTransport (sv_session_at s sid) = Some t'"
      "udp_RemoteAddr (sv_udp_at s t') = ?r" by (auto simp: peer_def)
    then have "\<not> udp_closed (sv_udp_at s t')" using assms(7) by (simp add: open_to_def)
    note can = can_answer_version [OF assms(2) t'(1) this assms(8)]
    from answered_session_handleUDPMessage [OF can assms(3,1) only_session_registered [OF so Some] assms(9)]
    show ?thesis
      using assms(6) Some sid(1) by (simp add: handleUDPMessage_def answered_def)
  next
    case None
    obtain s1 sid where n: "newSession e None (Some t) 0 ?r s = (s1, sid)"
      by (cases "newSession e None (Some t) 0 ?r s")
    from newSession_ok [OF assms(3) n] assms(5) have ok: "server_inv s1" "floors_view s1 = floors_view s"
      "se_UDPTransport (sv_session_at s1 sid) = Some t" by auto
    have fields: "sv_sessions s1 = sv_sessions s" "sv_config s1 = sv_config s" "sv_udp_at s1 = sv_udp_at s"
      "sv_callbacks s1 = sv_callbacks s" "sv_nextTxID s1 = sv_nextTxID s" "outbox s1 = outbox s"
      using n by (auto simp: newSession_def Let_def outbox_def)
    have pol: "policy_of s1 = policy_of s" "next_request s1 = next_request s"
      by (simp_all add: policy_of_def next_request_def fun_eq_iff fields cong: option.case_cong)
    have peer: "peer s1 sid = Some ?r" using ok(3) by (simp add: peer_def fields)
    have "\<not> udp_closed (sv_udp_at s1 t)" using assms(7) by (simp add: open_to_def fields)
    note can = can_answer_version [OF assms(2) ok(3) this assms(8)]
    have "only_session sid s1"
      by (rule only_session_unregistered [OF _ _ peer])
         (use ok(1) None fields in \<open>simp_all add: server_inv_def\<close>)
    from answered_session_handleUDPMessage [OF can ok(1) assms(1) this assms(9)]
    show ?thesis
      using assms(6) None n peer
      by (simp add: handleUDPMessage_def answered_def pol ok(2) fields)
  qed
qed

lemma receiveDatagram_answers:
  assumes "env_ok e" "writes_succeed e" "server_inv s" "udp_only s" "for_server remote s"
    and "open_to remote s" "Decode data = Ok m" "is_request m"
  shows "\<exists>bs m' rest. outbox (receiveDatagram e remote data s) = outbox s @ (remote, bs) # rest \<and>
      remote \<notin> fst ` set rest \<and> Decode bs = Ok m' \<and> replies_to m m' \<and>
      right_answer (policy_of s) (next_request s) m (floors_view s) m'"
proof -
  from assms(5) obtain l where l: "sv_udpListener s = Some l" by (auto simp: for_server_def)
  obtain s1 t where g: "getOrCreateTransport l remote s = (s1, t)"
    by (cases "getOrCreateTransport l remote s")
  note ok = getOrCreateTransport_ok [OF assms(3) l g]
  have uo: "udp_only s1" using assms(4) by (simp add: udp_only_def ok)
  have pol: "policy_of s1 = policy_of s" "next_request s1 = next_request s"
    by (simp_all add: policy_of_def next_request_def fun_eq_iff ok cong: option.case_cong)
  have "open_to remote s1"
    using assms(6) g
    by (auto simp: getOrCreateTransport_def Let_def open_to_def NewUDPTransport_def
        split: option.splits if_splits)
  moreover have "supported (Version m)"
    using Decode_accepts(1) [OF assms(7)] by (simp add: wfMessage_def supported_def)
  ultimately show ?thesis
    using handleUDPMessage_answers [OF assms(1,2) ok(1) uo ok(3), of m] assms(5,7,8) l g
    by (simp add: receiveDatagram_def ok pol for_server_def outbox_log [OF ok(11)])
qed

section \<open>Properties\<close>

text \<open>C4. Every request is answered exactly once: when a Hello, FloorRequest, FloorRelease or
  FloorQuery arrives at a listening UDP server in a reachable state, the sender gets one
  datagram and no other; it decodes to a message with the request's conference, transaction and
  user identifiers and version, flagged as a response in version 2, and says what the floor
  control specification says: the decision and its floor request identifier for a free floor, an
  error for a taken one, the release or why it is refused, the state of the floor.\<close>
theorem request_answered_once:
  assumes "reachable config callbacks s" "env_ok e" "writes_succeed e" "for_server remote s"
    and "open_to remote s" "Decode data = Ok m" "is_request m"
  shows "\<exists>bs m' rest. outbox (receiveDatagram e remote data s) = outbox s @ (remote, bs) # rest \<and>
      remote \<notin> fst ` set rest \<and> Decode bs = Ok m' \<and> replies_to m m' \<and>
      right_answer (policy_of s) (next_request s) m (floors_view s) m'"
  using receiveDatagram_answers [OF assms(2,3) _ _ assms(4-7)] reachable_ok [OF assms(1)] by simp

theorem request_answered_once_witness:
  "\<exists>bs m' rest. outbox (receiveDatagram plain_env ''10.0.0.1:5070'' request_bytes
        (UDPServer (DefaultServerConfig 1) no_callbacks)) = [(''10.0.0.1:5070'', bs)] @ rest \<and>
      Decode bs = Ok m' \<and> tells_status 3 1 RequestStatusGranted m'"
proof -
  let ?s = "UDPServer (DefaultServerConfig 1) no_callbacks"
  have "\<exists>bs m' rest. outbox (receiveDatagram plain_env ''10.0.0.1:5070'' request_bytes ?s)
        = outbox ?s @ (''10.0.0.1:5070'', bs) # rest \<and> ''10.0.0.1:5070'' \<notin> fst ` set rest \<and>
      Decode bs = Ok m' \<and> replies_to requestMessage m' \<and>
      right_answer (policy_of ?s) (next_request ?s) requestMessage (floors_view ?s) m'"
    by (rule request_answered_once [OF reachable.start plain_env_ok _ _ _ Decode_request_bytes])
       (simp_all add: writes_succeed_def plain_env_def for_server_def open_to_def UDPServer_def
         NewServer_def NewUDPTransport_def is_request_def requestMessage_def)
  moreover have "outbox ?s = []" "floors_view ?s 3 = None" "next_request ?s = 1"
    "policy_of ?s 3 4 1" "GetFloorID requestMessage = Some 3"
    by code_simp+
  ultimately show ?thesis
    by (auto simp: right_answer_def requestMessage_def tells_decision_def floor_or_free_def)
qed

end
