(* ===== verification/UDP_Transactions.thy ===== *)
theory UDP_Transactions
  imports Server_Answers
begin

text \<open>
  The transactions of the client role of \<^verbatim>\<open>udpclient.go\<close>: \<^verbatim>\<open>transact\<close> sends a request, waits on
  a channel of its own until the response, \<^verbatim>\<open>Close\<close> or the timer, and retransmits with a doubled
  timer a bounded number of times. While it waits the rest of the program runs: the read loop,
  the application, other transactions of this or another client role. What happens meanwhile is
  an arbitrary schedule of such steps, and so is the case that \<^verbatim>\<open>select\<close> takes.
\<close>

section \<open>The steps of a transaction\<close>

datatype client_error =
    ClientClosed
  | ClosedWaiting Primitive
  | SendFailed Primitive send_error
  | NoResponse Primitive string int
  | ErrorResponse string
  | ExpectedResponse Primitive Primitive
  | MissingFloorRequestID
  | MissingRequestStatus
  | NoActiveRequest u16

text \<open>Up to the loop: the channel of the transaction is made and registered.\<close>

definition beginTransact :: "nat \<Rightarrow> message \<Rightarrow> Server \<Rightarrow> Server \<times> (client_error, nat) res" where
  "beginTransact c msg s =
     (let client = sv_client_at s c in
      if uc_closed client then (s, Fail ClientClosed)
      else
        let ch = uc_fresh_chan client;
            client = client\<lparr>uc_fresh_chan := Suc ch, uc_chan_at := (uc_chan_at client)(ch := None),
                            uc_pending := put (TransactionID msg) ch (uc_pending client)\<rparr>
        in (update_client c client s, Ok ch))"

text \<open>The deferred function.\<close>

definition endTransact :: "nat \<Rightarrow> message \<Rightarrow> Server \<Rightarrow> Server" where
  "endTransact c msg s =
     (let client = sv_client_at s c in
      update_client c (client\<lparr>uc_pending := del (TransactionID msg) (uc_pending client)\<rparr>) s)"

text \<open>
  \<^verbatim>\<open>select\<close>: any case that is ready may be taken, and the timer always gets ready. The choice is
  an argument; a choice that is not ready stands for waiting until the timer.
\<close>

datatype select_case = CaseResponse | CaseDone | CaseTimer

definition selectCase ::
    "select_case \<Rightarrow> nat \<Rightarrow> message \<Rightarrow> nat \<Rightarrow> Server \<Rightarrow> Server \<times> (client_error, message) res option" where
  "selectCase choice c msg ch s =
     (let client = sv_client_at s c in
      case choice of
        CaseResponse \<Rightarrow>
          (case uc_chan_at client ch of
             Some response \<Rightarrow>
               (update_client c (client\<lparr>uc_chan_at := (uc_chan_at client)(ch := None)\<rparr>) s,
                Some (Ok response))
           | None \<Rightarrow> (s, None))
      | CaseDone \<Rightarrow>
          (s, if uc_closed client then Some (Fail (ClosedWaiting (Primitive msg))) else None)
      | CaseTimer \<Rightarrow> (s, None))"

section \<open>What happens meanwhile\<close>

text \<open>
  Steps of the server's read loop and of the application (\<open>Action\<close>), and the steps of other
  transactions of any client role: begin, send, take a response, end.
\<close>

datatype interference =
    Action action
  | OtherBegin nat message
  | OtherSend nat message
  | OtherSelect select_case nat message nat
  | OtherEnd nat message

fun interfere :: "Env \<times> interference \<Rightarrow> Server \<Rightarrow> Server" where
  "interfere (e, Action a) s = act e a s"
| "interfere (e, OtherBegin c msg) s = fst (beginTransact c msg s)"
| "interfere (e, OtherSend c msg) s = fst (uc_send e c msg s)"
| "interfere (e, OtherSelect choice c msg ch) s = fst (selectCase choice c msg ch s)"
| "interfere (e, OtherEnd c msg) s = endTransact c msg s"

text \<open>For each attempt and each duration of its timer: the steps until the select, its choice.\<close>

type_synonym schedule = "nat \<Rightarrow> int \<Rightarrow> (Env \<times> interference) list \<times> select_case"

section \<open>transact\<close>

text \<open>\<^verbatim>\<open>time.Duration\<close> is a 64-bit signed integer; \<^verbatim>\<open>wait *= 2\<close> wraps.\<close>

definition int64 :: "int \<Rightarrow> int" where
  "int64 n = (n + 2 ^ 63) mod 2 ^ 64 - 2 ^ 63"

text \<open>
  The loop over the attempts that are left. The third result is not in the code: the
  durations of the timers that fired, in order.
\<close>

fun transactLoop ::
    "Env \<Rightarrow> schedule \<Rightarrow> nat \<Rightarrow> message \<Rightarrow> nat \<Rightarrow> int \<Rightarrow> nat list \<Rightarrow> Server \<Rightarrow>
     Server \<times> (client_error, message) res \<times> int list" where
  "transactLoop e sched c msg ch wait [] s =
     (s, Fail (NoResponse (Primitive msg) (uc_remote (sv_client_at s c))
                 (ucc_MaxRetries (uc_config (sv_client_at s c)))), [])"
| "transactLoop e sched c msg ch wait (attempt # attempts) s =
     (case uc_send e c msg s of
        (s, Some err) \<Rightarrow> (s, Fail (SendFailed (Primitive msg) err), [])
      | (s, None) \<Rightarrow>
          let s = fold interfere (fst (sched attempt wait)) s in
          (case selectCase (snd (sched attempt wait)) c msg ch s of
             (s, Some r) \<Rightarrow> (s, r, [])
           | (s, None) \<Rightarrow>
               let (s, r, waits) =
                     transactLoop e sched c msg ch (int64 (wait * 2)) attempts s
               in (s, r, wait # waits)))"

definition transact ::
    "Env \<Rightarrow> schedule \<Rightarrow> nat \<Rightarrow> message \<Rightarrow> Server \<Rightarrow>
     Server \<times> (client_error, message) res \<times> int list" where
  "transact e sched c msg s =
     (case beginTransact c msg s of
        (s, Ok ch) \<Rightarrow>
          let config = uc_config (sv_client_at s c);
              (s, r, waits) = transactLoop e sched c msg ch (ucc_T1 config)
                                [1..<Suc (nat (ucc_MaxRetries config))] s
          in (endTransact c msg s, r, waits)
      | (s, Fail err) \<Rightarrow> (s, Fail err, [])
      | (s, Panic) \<Rightarrow> (s, Panic, []))"

section \<open>The operations of the client\<close>

definition freshTxID :: "nat \<Rightarrow> Server \<Rightarrow> Server \<times> u16" where
  "freshTxID c s =
     (let (client, txID) = uc_nextTransactionID (sv_client_at s c) in (update_client c client s, txID))"

definition newRequest :: "nat \<Rightarrow> Primitive \<Rightarrow> u16 \<Rightarrow> Server \<Rightarrow> message" where
  "newRequest c primitive txID s =
     (let config = uc_config (sv_client_at s c)
      in NewMessage primitive (ucc_ConferenceID config) txID (ucc_UserID config))"

definition clientPrimitives :: "Primitive list" where
  "clientPrimitives =
     [PrimitiveFloorRequest, PrimitiveFloorRelease, PrimitiveFloorRequestQuery,
      PrimitiveFloorRequestStatus, PrimitiveFloorQuery, PrimitiveFloorStatus, PrimitiveHello,
      PrimitiveHelloAck, PrimitiveError, PrimitiveFloorRequestStatusAck, PrimitiveFloorStatusAck,
      PrimitiveGoodbye, PrimitiveGoodbyeAck]"

definition clientAttributes :: "AttributeType list" where
  "clientAttributes =
     [AttrBeneficiaryID, AttrFloorID, AttrFloorRequestID, AttrPriority, AttrRequestStatus,
      AttrErrorCode, AttrErrorInfo, AttrSupportedAttributes, AttrSupportedPrimitives,
      AttrBeneficiaryInfo, AttrFloorRequestInfo, AttrRequestedByInfo, AttrFloorRequestStatus,
      AttrOverallRequestStatus]"

definition uc_Hello :: "Env \<Rightarrow> schedule \<Rightarrow> nat \<Rightarrow> Server \<Rightarrow> Server \<times> client_error option" where
  "uc_Hello e sched c s =
     (let (s, txID) = freshTxID c s;
          msg = newRequest c PrimitiveHello txID s;
          msg = AddSupportedPrimitives clientPrimitives msg;
          msg = AddSupportedAttributes clientAttributes msg
      in case transact e sched c msg s of
           (s, Ok response, _) \<Rightarrow>
             (s, if Primitive response = PrimitiveError
                 then Some (ErrorResponse (responseError response))
                 else if Primitive response \<noteq> PrimitiveHelloAck
                 then Some (ExpectedResponse PrimitiveHelloAck (Primitive response))
                 else None)
         | (s, Fail err, _) \<Rightarrow> (s, Some err)
         | (s, Panic, _) \<Rightarrow> (panic s, None))"

text \<open>What \<^verbatim>\<open>RequestFloor\<close> does with the response.\<close>

definition requestAnswered ::
    "Env \<Rightarrow> nat \<Rightarrow> u16 \<Rightarrow> message \<Rightarrow> Server \<Rightarrow> Server \<times> (client_error, u16) res" where
  "requestAnswered e c floorID response s =
     (if Primitive response = PrimitiveError
      then (s, Fail (ErrorResponse (responseError response)))
      else if Primitive response \<noteq> PrimitiveFloorRequestStatus
      then (s, Fail (ExpectedResponse PrimitiveFloorRequestStatus (Primitive response)))
      else
        case GetFloorRequestID response of
          None \<Rightarrow> (s, Fail MissingFloorRequestID)
        | Some requestID \<Rightarrow>
            (case GetRequestStatus response of
               None \<Rightarrow> (s, Fail MissingRequestStatus)
             | Some (status, _) \<Rightarrow>
                 let client = sv_client_at s c;
                     req = \<lparr>afr_FloorID = floorID, afr_FloorRequestID = requestID,
                            afr_BeneficiaryID = ucc_UserID (uc_config client), afr_Priority = 0,
                            afr_Status = status, afr_RequestedAt = env_now e,
                            afr_GrantedAt = None\<rparr>;
                     s = update_client c (client\<lparr>uc_activeRequests :=
                           put floorID req (uc_activeRequests client)\<rparr>) s
                 in (applyOwnStatus e c floorID requestID status s, Ok requestID)))"

definition uc_RequestFloor ::
    "Env \<Rightarrow> schedule \<Rightarrow> nat \<Rightarrow> u16 \<Rightarrow> Server \<Rightarrow> Server \<times> (client_error, u16) res" where
  "uc_RequestFloor e sched c floorID s =
     (let (s, txID) = freshTxID c s;
          msg = AddFloorID floorID (newRequest c PrimitiveFloorRequest txID s)
      in case transact e sched c msg s of
           (s, Ok response, _) \<Rightarrow> requestAnswered e c floorID response s
         | (s, Fail err, _) \<Rightarrow> (s, Fail err)
         | (s, Panic, _) \<Rightarrow> (s, Panic))"

definition uc_ReleaseFloor ::
    "Env \<Rightarrow> schedule \<Rightarrow> nat \<Rightarrow> u16 \<Rightarrow> Server \<Rightarrow> Server \<times> client_error option" where
  "uc_ReleaseFloor e sched c floorID s =
     (case lookup (uc_activeRequests (sv_client_at s c)) floorID of
        None \<Rightarrow> (s, Some (NoActiveRequest floorID))
      | Some req \<Rightarrow>
          let (s, txID) = freshTxID c s;
              msg = AddFloorRequestID (afr_FloorRequestID req)
                      (newRequest c PrimitiveFloorRelease txID s)
          in case transact e sched c msg s of
               (s, Ok response, _) \<Rightarrow>
                 if Primitive response = PrimitiveError
                 then (s, Some (ErrorResponse (responseError response)))
                 else
                   let client = sv_client_at s c;
                       s = update_client c (client\<lparr>uc_activeRequests :=
                             del floorID (uc_activeRequests client)\<rparr>) s
                   in (emit_if (uc_OnFloorReleased client)
                         (OwnReleased (uc_remote client) floorID) s, None)
             | (s, Fail err, _) \<Rightarrow> (s, Some err)
             | (s, Panic, _) \<Rightarrow> (panic s, None))"

text \<open>\<^verbatim>\<open>Goodbye\<close> only logs a failed transaction.\<close>

definition uc_Goodbye :: "Env \<Rightarrow> schedule \<Rightarrow> nat \<Rightarrow> Server \<Rightarrow> Server" where
  "uc_Goodbye e sched c s =
     (let (s, txID) = freshTxID c s;
          msg = newRequest c PrimitiveGoodbye txID s
      in fst (transact e sched c msg s))"

definition uc_HasFloor :: "nat \<Rightarrow> u16 \<Rightarrow> Server \<Rightarrow> bool" where
  "uc_HasFloor c floorID s \<longleftrightarrow>
     (case lookup (uc_activeRequests (sv_client_at s c)) floorID of
        Some req \<Rightarrow> afr_Status req = RequestStatusGranted
      | None \<Rightarrow> False)"


section \<open>The rest of the program leaves a client role alone\<close>

text \<open>It also keeps the listener and closes no transport.\<close>

definition keeps_roles :: "Server \<Rightarrow> Server \<Rightarrow> bool" where
  "keeps_roles s s' \<longleftrightarrow>
     sv_client_at s' = sv_client_at s \<and> sv_fresh s \<le> sv_fresh s' \<and>
     sv_udpClients s' = sv_udpClients s \<and>
     map_option ul_closed (sv_udpListener s') = map_option ul_closed (sv_udpListener s) \<and>
     (\<forall>t. udp_closed (sv_udp_at s' t) \<longrightarrow> sv_udp_at s' t = sv_udp_at s t)"

named_theorems roles

lemma keeps_roles_refl [roles]: "keeps_roles s s"
  by (simp add: keeps_roles_def)

lemma keeps_roles_trans: "keeps_roles s t \<Longrightarrow> keeps_roles t u \<Longrightarrow> keeps_roles s u"
  by (auto simp: keeps_roles_def)

lemma keeps_roles_frame: "frame s s' \<Longrightarrow> keeps_roles s s'"
  by (simp add: keeps_roles_def frame_fields)

lemma keeps_roles_fold:
  assumes "\<And>x s. keeps_roles s (f x s)"
  shows "keeps_roles s (fold f xs s)"
  by (induction xs arbitrary: s) (auto intro: keeps_roles_trans assms roles)

lemma keeps_roles_panic [roles]: "keeps_roles s t \<Longrightarrow> keeps_roles s (panic t)"
  by (simp add: keeps_roles_def panic_def)

lemma keeps_roles_framed [roles]:
  "keeps_roles s t \<Longrightarrow> keeps_roles s (emit_if b ev t)"
  "keeps_roles s t \<Longrightarrow> keeps_roles s (emit ev t)"
  "keeps_roles s t \<Longrightarrow> keeps_roles s (tick t)"
  "keeps_roles s t \<Longrightarrow> keeps_roles s (callMessageIn remote m t)"
  "keeps_roles s t \<Longrightarrow> keeps_roles s (update_StateMachine sid g t)"
  "keeps_roles s t \<Longrightarrow> keeps_roles s (sendUDP e sid m t)"
  "keeps_roles s t \<Longrightarrow> keeps_roles s (sendUDPFloorStatusResponse e sid m k r st t)"
  "keeps_roles s t \<Longrightarrow> keeps_roles s (broadcastFloorStatusUDP e ex u k r st q t)"
  "keeps_roles s t \<Longrightarrow> keeps_roles s (sendFloorState e sid k st t)"
  "keeps_roles s t \<Longrightarrow> keeps_roles s (fst (uc_send e c m t))"
  "keeps_roles s t \<Longrightarrow> keeps_roles s (fst (nextTxID_Add t))"
  using keeps_roles_trans [OF _ keeps_roles_frame, of s t] by simp_all

lemma keeps_roles_direct [roles]:
  "keeps_roles s t \<Longrightarrow> keeps_roles s (update_floor p f t)"
  "keeps_roles s t \<Longrightarrow> keeps_roles s (t\<lparr>sv_sessions := ss\<rparr>)"
  by (simp_all add: keeps_roles_def update_floor_def)

lemma keeps_roles_sendUDPError [roles]: "keeps_roles s t \<Longrightarrow> keeps_roles s (sendUDPError e sid m c i t)"
  by (simp add: sendUDPError_def Let_def roles)

lemma keeps_roles_recordSupported [roles]:
  "keeps_roles s t \<Longrightarrow> keeps_roles s (recordSupported sid m t)"
  by (simp add: recordSupported_def Let_def roles split: option.splits)

lemma keeps_roles_CreateFloor [roles]: "keeps_roles s t \<Longrightarrow> keeps_roles s (fst (CreateFloor e k t))"
  by (auto simp: CreateFloor_def Let_def keeps_roles_def update_floor_def split: option.splits)

lemma keeps_roles_floorFor [roles]: "keeps_roles s t \<Longrightarrow> keeps_roles s (fst (floorFor e k t))"
  by (simp add: floorFor_def roles split: option.splits)

lemma keeps_roles_decideGrant [roles]:
  "keeps_roles s t \<Longrightarrow> keeps_roles s (fst (decideGrant k u r t))"
  by (simp add: decideGrant_def roles split: option.splits)

lemma keeps_roles_newSession [roles]:
  "keeps_roles s t \<Longrightarrow> keeps_roles s (fst (newSession e tr ut u remote t))"
  by (simp add: newSession_def Let_def keeps_roles_def)

lemma keeps_roles_getOrCreateTransport [roles]:
  "sv_udpListener t = Some l \<Longrightarrow> keeps_roles s t \<Longrightarrow>
     keeps_roles s (fst (getOrCreateTransport l remote t))"
  by (auto simp: getOrCreateTransport_def Let_def keeps_roles_def NewUDPTransport_def
      split: option.splits)

lemma keeps_roles_Hello: "keeps_roles s (handleUDPHello e sid m s)"
  by (simp add: handleUDPHello_def Let_def roles split: option.splits)

lemma keeps_roles_FloorRequest: "keeps_roles s (handleUDPFloorRequest e sid m s)"
  by (simp add: handleUDPFloorRequest_def answerUDPFloorRequest_def Let_def split_beta roles
      split: option.splits)

lemma keeps_roles_FloorRelease: "keeps_roles s (handleUDPFloorRelease e sid m s)"
proof -
  obtain t r where F: "floorToRelease e m s = (t, r)" by (cases "floorToRelease e m s")
  with floorToRelease_frame [of s e m] have t: "keeps_roles s t" by (simp add: keeps_roles_frame)
  show ?thesis
  proof (cases r)
    case (Ok x)
    then obtain p k where "r = Ok (p, k)" by (cases x) auto
    moreover obtain f err where "Release (UserID m) (sv_floor_at t p) = (f, err)"
      by (cases "Release (UserID m) (sv_floor_at t p)")
    ultimately show ?thesis using F t
      by (cases err) (simp_all add: handleUDPFloorRelease_def Let_def roles)
  next
    case (Fail x)
    with F t show ?thesis by (cases x) (simp add: handleUDPFloorRelease_def roles)
  next
    case Panic
    with F t show ?thesis by (simp add: handleUDPFloorRelease_def roles)
  qed
qed

lemma keeps_roles_FloorQuery: "keeps_roles s (handleUDPFloorQuery e sid m s)"
  by (simp add: handleUDPFloorQuery_def Let_def roles split: option.splits)

lemma keeps_roles_goodbyeFloorUDP: "keeps_roles s (goodbyeFloorUDP e sid m p s)"
  by (simp add: goodbyeFloorUDP_def Let_def split_beta roles split: option.splits)

lemma keeps_roles_Goodbye: "keeps_roles s (handleUDPGoodbye e sid m s)"
proof -
  have "keeps_roles s (fold (goodbyeFloorUDP e sid m) ps (tick s))" for ps
    by (rule keeps_roles_trans [OF _ keeps_roles_fold [of "goodbyeFloorUDP e sid m", OF keeps_roles_goodbyeFloorUDP]])
       (simp add: roles)
  then show ?thesis
    by (simp add: handleUDPGoodbye_def floorsOwnedBy_def Let_def split_beta roles)
qed

lemma keeps_roles_session: "keeps_roles s (session_handleUDPMessage e sid m s)"
proof -
  let ?t = "update_StateMachine sid (\<lambda>st. st\<lparr>ssm_ClientVersion := Version m\<rparr>)
    (update_StateMachine sid (UpdateActivity (env_now e)) s)"
  have t: "keeps_roles s (callMessageIn r m ?t)" for r by (simp add: roles)
  show ?thesis
    unfolding session_handleUDPMessage_def Let_def
    using keeps_roles_trans [OF t keeps_roles_Hello] keeps_roles_trans [OF t keeps_roles_FloorRequest]
      keeps_roles_trans [OF t keeps_roles_FloorRelease] keeps_roles_trans [OF t keeps_roles_FloorQuery]
      keeps_roles_trans [OF t keeps_roles_Goodbye] t
    by simp
qed

lemma keeps_roles_server_message:
  assumes "lookup (sv_udpClients s) (udp_RemoteAddr (sv_udp_at s t)) = None"
  shows "keeps_roles s (handleUDPMessage e t m s)"
proof -
  obtain s1 sid where n: "newSession e None (Some t) 0 (udp_RemoteAddr (sv_udp_at s t)) s = (s1, sid)"
    by (cases "newSession e None (Some t) 0 (udp_RemoteAddr (sv_udp_at s t)) s")
  then have "keeps_roles s s1"
    using keeps_roles_newSession [OF keeps_roles_refl, of s e None "Some t" 0] by (metis fst_conv)
  from keeps_roles_trans [OF this keeps_roles_session] show ?thesis
    using assms n keeps_roles_session by (simp add: handleUDPMessage_def Let_def split: option.splits)
qed

lemma keeps_roles_receiveDatagram:
  assumes "server_inv s" "lookup (sv_udpClients s) remote = None"
  shows "keeps_roles s (receiveDatagram e remote data s)"
proof (cases "sv_udpListener s")
  case (Some l)
  obtain s1 t where g: "getOrCreateTransport l remote s = (s1, t)"
    by (cases "getOrCreateTransport l remote s")
  note ok = getOrCreateTransport_ok [OF assms(1) Some g]
  have "keeps_roles s s1"
    using keeps_roles_getOrCreateTransport [OF Some keeps_roles_refl, of remote] g by simp
  moreover have "keeps_roles s1 (handleUDPMessage e t m s1)" for m
    by (rule keeps_roles_server_message) (simp add: ok assms(2))
  ultimately show ?thesis
    using Some g
    by (auto simp: receiveDatagram_def roles intro: keeps_roles_trans split: res.splits)
qed (simp add: receiveDatagram_def roles)

lemma receiveDatagram_listening:
  assumes "server_inv s" "for_server remote s" "open_to remote s"
  shows "for_server remote (receiveDatagram e remote data s)"
    "open_to remote (receiveDatagram e remote data s)"
proof -
  have k: "keeps_roles s (receiveDatagram e remote data s)"
    using keeps_roles_receiveDatagram [OF assms(1)] assms(2) by (simp add: for_server_def)
  with assms(2) show "for_server remote (receiveDatagram e remote data s)"
    by (auto simp: for_server_def keeps_roles_def)
  from k assms(3) show "open_to remote (receiveDatagram e remote data s)"
    by (auto simp: open_to_def keeps_roles_def)
qed

section \<open>A transaction that waits\<close>

text \<open>
  The channel of the transaction is registered under its identifier, no other identifier leads to
  it, and what it holds is a message with this identifier.
\<close>

definition awaiting :: "u16 \<Rightarrow> nat \<Rightarrow> UDPClient \<Rightarrow> bool" where
  "awaiting tx ch client \<longleftrightarrow>
     lookup (uc_pending client) tx = Some ch \<and> ch < uc_fresh_chan client \<and>
     (\<forall>tx'. lookup (uc_pending client) tx' = Some ch \<longrightarrow> tx' = tx) \<and>
     (\<forall>m. uc_chan_at client ch = Some m \<longrightarrow> TransactionID m = tx)"

definition same_setup :: "UDPClient \<Rightarrow> UDPClient \<Rightarrow> bool" where
  "same_setup client client' \<longleftrightarrow>
     uc_config client' = uc_config client \<and> uc_remote client' = uc_remote client \<and>
     uc_transport client' = uc_transport client"

definition stays :: "nat \<Rightarrow> u16 \<Rightarrow> nat \<Rightarrow> Server \<Rightarrow> Server \<Rightarrow> bool" where
  "stays c tx ch s s' \<longleftrightarrow>
     sv_fresh s \<le> sv_fresh s' \<and> same_setup (sv_client_at s c) (sv_client_at s' c) \<and>
     (awaiting tx ch (sv_client_at s c) \<longrightarrow> awaiting tx ch (sv_client_at s' c))"

lemma stays_roles: "keeps_roles s s' \<Longrightarrow> stays c tx ch s s'"
  by (simp add: stays_def same_setup_def keeps_roles_def)

lemma stays_trans: "stays c tx ch s t \<Longrightarrow> stays c tx ch t u \<Longrightarrow> stays c tx ch s u"
  by (auto simp: stays_def same_setup_def)

lemma stays_fold:
  assumes "\<And>x s. stays c tx ch s (f x s)"
  shows "stays c tx ch s (fold f xs s)"
proof (induction xs arbitrary: s)
  case (Cons x xs)
  then show ?case using stays_trans [OF assms [of s x]] by simp
qed (simp add: stays_roles keeps_roles_refl)

lemma stays_update:
  assumes "same_setup (sv_client_at s c') client"
    and "c' = c \<Longrightarrow> awaiting tx ch (sv_client_at s c') \<Longrightarrow> awaiting tx ch client"
  shows "stays c tx ch s (update_client c' client s)"
  using assms by (auto simp: stays_def same_setup_def update_client_def)

lemma stays_applyOwnStatus: "stays c tx ch s (applyOwnStatus e c' k r st s)"
proof -
  let ?cl = "\<lambda>s. (sv_client_at s c')\<lparr>uc_activeRequests :=
      updateActive (env_now e) k st (uc_activeRequests (sv_client_at s c'))\<rparr>"
  have u: "stays c tx ch s (update_client c' (?cl s) s)"
    by (rule stays_update) (simp_all add: same_setup_def awaiting_def)
  note t = stays_trans [OF u stays_roles [OF keeps_roles_framed(1) [OF keeps_roles_refl]]]
  show ?thesis
    unfolding applyOwnStatus_def Let_def if_split [of "stays c tx ch s"] by (intro conjI impI t u)
qed

lemma stays_notify: "stays c tx ch s (handleNotification e c' m s)"
proof -
  have "stays c tx ch s (notifyFloor e c' r b st fl s)" for r b st fl s
    by (simp add: notifyFloor_def Let_def stays_applyOwnStatus stays_roles roles)
  then have "stays c tx ch s (fold (notifyFloor e c' r b st) fls s)" for r b st fls s
    by (rule stays_fold)
  then have "stays c tx ch s (notifyInfo e c' info s)" for info s
    by (simp add: notifyInfo_def Let_def stays_roles roles split: option.splits)
  then have "stays c tx ch s (fold (notifyInfo e c') infos s)" for infos
    by (rule stays_fold)
  then show ?thesis
    by (simp add: handleNotification_def Let_def stays_roles roles split: option.splits)
qed

lemma stays_handleMessage: "stays c tx ch s (uc_handleMessage e c' m s)"
proof (cases "lookup (uc_pending (sv_client_at s c')) (TransactionID m)")
  case (Some ch')
  let ?cl = "sv_client_at s c'"
  have "stays c tx ch s (update_client c' (?cl\<lparr>uc_chan_at := (uc_chan_at ?cl)(ch' := Some m)\<rparr>) s)"
    by (rule stays_update) (use Some in \<open>auto simp: same_setup_def awaiting_def\<close>)
  with Some show ?thesis
    by (simp add: uc_handleMessage_def Let_def stays_roles roles split: option.splits)
next
  case None
  have a: "stays c tx ch s (ack e c' m p s)" for p s
    by (simp add: ack_def Let_def stays_roles roles)
  from None stays_trans [OF stays_notify a] a show ?thesis
    by (simp add: uc_handleMessage_def Let_def stays_roles roles split: option.splits)
qed

lemma stays_receiveDatagram: "stays c tx ch s (receiveDatagram e remote data s)"
proof (cases "sv_udpListener s")
  case (Some l)
  show ?thesis
  proof (cases "Decode data")
    case (Ok m)
    obtain s1 t where g: "getOrCreateTransport l remote s = (s1, t)"
      by (cases "getOrCreateTransport l remote s")
    have s1: "stays c tx ch s s1"
      using keeps_roles_getOrCreateTransport [OF Some keeps_roles_refl, of remote] g
      by (simp add: stays_roles)
    have "stays c tx ch s1 (handleUDPMessage e t m s1)"
    proof (cases "lookup (sv_udpClients s1) (udp_RemoteAddr (sv_udp_at s1 t))")
      case None
      then show ?thesis by (rule stays_roles [OF keeps_roles_server_message])
    next
      case (Some c')
      have "stays c tx ch s1 (callMessageIn r m s1)" for r by (simp add: stays_roles roles)
      from stays_trans [OF this stays_handleMessage] Some show ?thesis
        by (simp add: handleUDPMessage_def Let_def)
    qed
    from stays_trans [OF s1 this] Ok Some g show ?thesis by (simp add: receiveDatagram_def)
  qed (use Some in \<open>simp_all add: receiveDatagram_def stays_roles roles\<close>)
qed (simp add: receiveDatagram_def stays_roles roles)

text \<open>Every step of the rest of the program that is not this transaction's own.\<close>

fun foreign :: "nat \<Rightarrow> u16 \<Rightarrow> nat \<Rightarrow> interference \<Rightarrow> bool" where
  "foreign c tx ch (Action a) = True"
| "foreign c tx ch (OtherBegin c' msg) = (c' \<noteq> c \<or> TransactionID msg \<noteq> tx)"
| "foreign c tx ch (OtherSend c' msg) = True"
| "foreign c tx ch (OtherSelect choice c' msg ch') = (c' \<noteq> c \<or> ch' \<noteq> ch)"
| "foreign c tx ch (OtherEnd c' msg) = (c' \<noteq> c \<or> TransactionID msg \<noteq> tx)"

lemma stays_NewUDPClient:
  assumes "c < sv_fresh s"
  shows "stays c tx ch s (fst (NewUDPClient resolve addr config s))"
proof -
  have "sv_fresh s \<le> sv_fresh (fst (getOrCreateTransport l a s))"
    "sv_client_at (fst (getOrCreateTransport l a s)) = sv_client_at s" for l a
    by (simp_all add: getOrCreateTransport_def Let_def split: option.splits)
  with assms show ?thesis
    by (auto simp: NewUDPClient_def Let_def split_beta stays_def same_setup_def le_Suc_eq
        split: option.splits)
       (metis leD)+
qed

lemma stays_Close: "stays c tx ch s (uc_Close c' s)"
  by (auto simp: uc_Close_def Let_def stays_def same_setup_def awaiting_def update_client_def)

lemma stays_act: "c < sv_fresh s \<Longrightarrow> stays c tx ch s (act e a s)"
proof (cases a)
  case (ApiRegisterClient resolve addr u k v)
  have "keeps_roles s (fst (RegisterClient e resolve addr u k v s))"
    by (auto simp: RegisterClient_def Let_def split_beta roles split: option.splits)
  with ApiRegisterClient show ?thesis by (simp add: stays_roles)
next
  case (ApiGrantFloor k u)
  then show ?thesis by (simp add: GrantFloor_def Let_def split_beta stays_roles roles split: option.splits)
next
  case (ApiReleaseFloor k)
  then show ?thesis by (simp add: ReleaseFloor_def stays_def same_setup_def)
qed (simp_all add: stays_receiveDatagram stays_NewUDPClient stays_Close stays_roles roles keeps_roles_frame)

lemma stays_interfere:
  assumes "c < sv_fresh s" "foreign c tx ch i"
  shows "stays c tx ch s (interfere (e, i) s)"
proof (cases i)
  case (OtherBegin c' msg)
  with assms(2) show ?thesis
    by (auto simp: beginTransact_def Let_def stays_roles roles awaiting_def same_setup_def
        intro!: stays_update)
next
  case (OtherEnd c' msg)
  with assms(2) show ?thesis
    by (auto simp: endTransact_def Let_def awaiting_def same_setup_def intro!: stays_update
        split: if_splits)
next
  case (OtherSelect choice c' msg ch')
  with assms(2) show ?thesis
    by (auto simp: selectCase_def Let_def stays_roles roles awaiting_def same_setup_def
        intro!: stays_update split: select_case.splits option.splits)
qed (use assms in \<open>simp_all add: stays_act stays_roles roles\<close>)

lemma stays_schedule:
  assumes "c < sv_fresh s" "list_all (foreign c tx ch \<circ> snd) steps"
  shows "stays c tx ch s (fold interfere steps s)"
  using assms
proof (induction steps arbitrary: s)
  case (Cons x steps)
  obtain e i where x: "x = (e, i)" by (cases x)
  with Cons.prems have "stays c tx ch s (interfere x s)" by (simp add: stays_interfere)
  moreover from this Cons.prems have "stays c tx ch (interfere x s) (fold interfere steps (interfere x s))"
    by (intro Cons.IH) (auto simp: stays_def)
  ultimately show ?case using stays_trans by simp
qed (simp add: stays_roles roles)

section \<open>Results of a transaction\<close>

definition role_ok :: "nat \<Rightarrow> Server \<Rightarrow> bool" where
  "role_ok c s \<longleftrightarrow> c < sv_fresh s \<and>
     (\<forall>tx ch. lookup (uc_pending (sv_client_at s c)) tx = Some ch \<longrightarrow>
        ch < uc_fresh_chan (sv_client_at s c))"

lemma uc_send_no_panic_result: "snd (uc_send e c m s) = None \<or> (\<exists>err. snd (uc_send e c m s) = Some err)"
  by (cases "snd (uc_send e c m s)") auto

lemma role_beginTransact:
  assumes "role_ok c s" "beginTransact c msg s = (s', Ok ch)"
  shows "ch = uc_fresh_chan (sv_client_at s c)" "c < sv_fresh s'"
    "awaiting (TransactionID msg) ch (sv_client_at s' c)"
    "same_setup (sv_client_at s c) (sv_client_at s' c)"
  using assms
  by (auto simp: beginTransact_def Let_def role_ok_def update_client_def awaiting_def same_setup_def
      split: if_splits) (metis less_irrefl)

lemma selectCase_awaiting:
  assumes "awaiting tx ch (sv_client_at s c)" "selectCase choice c msg ch s = (s', x)"
  shows "awaiting tx ch (sv_client_at s' c) \<and> same_setup (sv_client_at s c) (sv_client_at s' c) \<and>
    sv_fresh s' = sv_fresh s \<and> (\<forall>r. x = Some r \<longrightarrow> r \<noteq> Panic) \<and>
    (\<forall>m. x = Some (Ok m) \<longrightarrow> TransactionID m = tx) \<and>
    (\<forall>p remote n. x \<noteq> Some (Fail (NoResponse p remote n)))"
proof (cases choice)
  case CaseResponse
  show ?thesis
  proof (cases "uc_chan_at (sv_client_at s c) ch")
    case (Some m)
    let ?cl = "(sv_client_at s c)\<lparr>uc_chan_at := (uc_chan_at (sv_client_at s c))(ch := None)\<rparr>"
    have "s' = update_client c ?cl s" "x = Some (Ok m)"
      using assms(2) CaseResponse Some by (auto simp: selectCase_def Let_def)
    moreover have "awaiting tx ch ?cl" "same_setup (sv_client_at s c) ?cl" "TransactionID m = tx"
      using assms(1) Some by (simp_all add: awaiting_def same_setup_def)
    ultimately show ?thesis by (simp add: update_client_def)
  qed (use assms CaseResponse in \<open>simp add: selectCase_def Let_def same_setup_def\<close>)
qed (use assms in \<open>auto simp: selectCase_def Let_def same_setup_def split: if_splits\<close>)

lemma transactLoop_result:
  assumes "c < sv_fresh s" "awaiting (TransactionID msg) ch (sv_client_at s c)"
    and "\<And>k w. list_all (foreign c (TransactionID msg) ch \<circ> snd) (fst (sched k w))"
    and "transactLoop e sched c msg ch wait attempts s = (s', r, waits)"
  shows "c < sv_fresh s' \<and> awaiting (TransactionID msg) ch (sv_client_at s' c) \<and>
    same_setup (sv_client_at s c) (sv_client_at s' c) \<and> r \<noteq> Panic \<and>
    (\<forall>m. r = Ok m \<longrightarrow> TransactionID m = TransactionID msg)"
  using assms(1,2,4)
proof (induction attempts arbitrary: wait s s' r waits)
  case Nil
  then show ?case by (auto simp: same_setup_def)
next
  case (Cons attempt attempts)
  let ?tx = "TransactionID msg"
  obtain s1 err where send: "uc_send e c msg s = (s1, err)" by (cases "uc_send e c msg s")
  have s1: "stays c ?tx ch s s1"
    using keeps_roles_framed(10) [OF keeps_roles_refl, of s e c msg] send by (simp add: stays_roles)
  show ?case
  proof (cases err)
    case (Some x)
    with Cons.prems send s1 show ?thesis by (auto simp: stays_def)
  next
    case None
    let ?s2 = "fold interfere (fst (sched attempt wait)) s1"
    have "stays c ?tx ch s1 ?s2"
      by (rule stays_schedule [OF _ assms(3)]) (use s1 Cons.prems(1) in \<open>simp add: stays_def\<close>)
    with s1 have s2: "stays c ?tx ch s ?s2" by (rule stays_trans)
    then have aw: "awaiting ?tx ch (sv_client_at ?s2 c)" using Cons.prems(2) by (simp add: stays_def)
    obtain s3 x where sel: "selectCase (snd (sched attempt wait)) c msg ch ?s2 = (s3, x)"
      by (cases "selectCase (snd (sched attempt wait)) c msg ch ?s2")
    note sel' = selectCase_awaiting [OF aw sel]
    have s3: "c < sv_fresh s3" "awaiting ?tx ch (sv_client_at s3 c)"
      "same_setup (sv_client_at s c) (sv_client_at s3 c)"
      using s2 sel' Cons.prems(1) by (auto simp: stays_def same_setup_def)
    show ?thesis
    proof (cases x)
      case (Some y)
      with Cons.prems(3) send None sel sel' s3 show ?thesis by auto
    next
      case None': None
      obtain s4 r4 w4 where rec: "transactLoop e sched c msg ch (int64 (wait * 2)) attempts s3 = (s4, r4, w4)"
        by (cases "transactLoop e sched c msg ch (int64 (wait * 2)) attempts s3")
      with Cons.prems(3) send None sel None' have "s' = s4" "r = r4" by simp_all
      with Cons.IH [OF s3(1,2) rec] s3(3) show ?thesis by (auto simp: same_setup_def)
    qed
  qed
qed

text \<open>The timers double, at most one fires per attempt, and every attempt's does when no answer comes.\<close>

lemma int64_id: "0 \<le> n \<Longrightarrow> n < 2 ^ 63 \<Longrightarrow> int64 n = n"
  by (simp add: int64_def)

lemma transactLoop_waits:
  assumes "transactLoop e sched c msg ch wait attempts s = (s', r, waits)"
    and "0 \<le> wait" "wait * 2 ^ length attempts < 2 ^ 63"
  shows "length waits \<le> length attempts \<and> waits = map (\<lambda>k. wait * 2 ^ k) [0..<length waits] \<and>
    ((\<exists>p remote n. r = Fail (NoResponse p remote n)) \<longrightarrow> length waits = length attempts)"
  using assms
proof (induction attempts arbitrary: wait s s' r waits)
  case Nil
  then show ?case by simp
next
  case (Cons attempt attempts)
  obtain s1 err where send: "uc_send e c msg s = (s1, err)" by (cases "uc_send e c msg s")
  show ?case
  proof (cases err)
    case (Some x)
    with Cons.prems send show ?thesis by auto
  next
    case None
    let ?s2 = "fold interfere (fst (sched attempt wait)) s1"
    obtain s3 x where sel: "selectCase (snd (sched attempt wait)) c msg ch ?s2 = (s3, x)"
      by (cases "selectCase (snd (sched attempt wait)) c msg ch ?s2")
    show ?thesis
    proof (cases x)
      case (Some y)
      have "y \<noteq> Fail (NoResponse p remote n)" for p remote n
        using sel Some
        by (auto simp: selectCase_def Let_def split: select_case.splits option.splits if_splits)
      with Cons.prems(1) send None sel Some show ?thesis by auto
    next
      case None': None
      obtain s4 r4 w4 where rec: "transactLoop e sched c msg ch (int64 (wait * 2)) attempts s3 = (s4, r4, w4)"
        by (cases "transactLoop e sched c msg ch (int64 (wait * 2)) attempts s3")
      have less: "wait * 2 * 2 ^ length attempts < 2 ^ 63" using Cons.prems(3) by (simp add: mult.assoc)
      have "wait * 2 * 1 \<le> wait * 2 * 2 ^ length attempts"
        using Cons.prems(2) by (intro mult_left_mono) simp_all
      with less have "int64 (wait * 2) = wait * 2"
        using Cons.prems(2) by (intro int64_id) linarith+
      with Cons.IH [of "wait * 2" s3 s4 r4 w4] rec Cons.prems(2) less
      have IH: "length w4 \<le> length attempts" "w4 = map (\<lambda>k. wait * 2 * 2 ^ k) [0..<length w4]"
        "(\<exists>p remote n. r4 = Fail (NoResponse p remote n)) \<longrightarrow> length w4 = length attempts"
        by (simp_all add: mult.assoc)
      have res: "r = r4" "waits = wait # w4" using Cons.prems(1) send None sel None' rec by simp_all
      have "waits = map (\<lambda>k. wait * 2 ^ k) [0..<length waits]"
        unfolding res using IH(2)
        by (simp add: upt_conv_Cons map_Suc_upt [symmetric] comp_def mult.assoc del: upt_Suc)
      with IH(1,3) res show ?thesis by simp
    qed
  qed
qed

lemma role_ok_NewUDPClient:
  assumes "NewUDPClient resolve addr config s = (s', Ok c)"
  shows "role_ok c s'"
  using assms
  by (auto simp: NewUDPClient_def Let_def role_ok_def placeholder_client_def split: option.splits prod.splits)

lemma transact_unfold:
  assumes "transact e sched c msg s = (s', r, waits)"
  obtains (closed) "r = Fail ClientClosed" "s' = s" "waits = []" "uc_closed (sv_client_at s c)"
    | (run) s1 ch s2 where "beginTransact c msg s = (s1, Ok ch)"
        "transactLoop e sched c msg ch (ucc_T1 (uc_config (sv_client_at s1 c)))
           [1..<Suc (nat (ucc_MaxRetries (uc_config (sv_client_at s1 c))))] s1 = (s2, r, waits)"
        "s' = endTransact c msg s2"
proof (cases "uc_closed (sv_client_at s c)")
  case True
  with assms show ?thesis by (intro closed) (auto simp: transact_def beginTransact_def)
next
  case False
  obtain s1 ch where b: "beginTransact c msg s = (s1, Ok ch)"
    using False by (simp add: beginTransact_def Let_def)
  obtain s2 r2 w2 where l: "transactLoop e sched c msg ch (ucc_T1 (uc_config (sv_client_at s1 c)))
      [1..<Suc (nat (ucc_MaxRetries (uc_config (sv_client_at s1 c))))] s1 = (s2, r2, w2)"
    by (cases "transactLoop e sched c msg ch (ucc_T1 (uc_config (sv_client_at s1 c)))
      [1..<Suc (nat (ucc_MaxRetries (uc_config (sv_client_at s1 c))))] s1")
  from assms b l have "r = r2" "waits = w2" "s' = endTransact c msg s2"
    by (simp_all add: transact_def Let_def del: upt_Suc)
  with b l show ?thesis by (intro run) simp_all
qed

section \<open>Properties\<close>

text \<open>A client role on a server of its own, for the witnesses.\<close>

definition role_config :: UDPClientConfig where
  "role_config = \<lparr>ucc_ConferenceID = 1, ucc_UserID = 4, ucc_Version = 0, ucc_T1 = 0, ucc_MaxRetries = 0\<rparr>"

definition role_host :: Server where
  "role_host = fst (NewUDPClient Some ''10.0.0.9:5070'' role_config
                      (UDPServer (DefaultServerConfig 1) no_callbacks))"

definition quiet :: schedule where
  "quiet = (\<lambda>_ _. ([], CaseTimer))"

lemma role_host_client:
  "NewUDPClient Some ''10.0.0.9:5070'' role_config (UDPServer (DefaultServerConfig 1) no_callbacks)
     = (role_host, Ok 1)"
  by (simp add: role_host_def NewUDPClient_def UDPServer_def NewServer_def getOrCreateTransport_def Let_def)

lemma role_host_setup:
  "role_ok 1 role_host" "uc_pending (sv_client_at role_host 1) = []"
  "ucc_T1 (uc_config (sv_client_at role_host 1)) = 500 * 1000000"
  "ucc_MaxRetries (uc_config (sv_client_at role_host 1)) = 4"
  by (rule role_ok_NewUDPClient [OF role_host_client])
     (simp_all add: role_host_def NewUDPClient_def UDPServer_def NewServer_def
       getOrCreateTransport_def Let_def fillDefaults_def role_config_def placeholder_client_def)





end
