(* ===== verification/End_To_End.thy ===== *)
theory End_To_End
  imports UDP_Transactions
begin

text \<open>
  A client role on one server and the floor control server it talks to, composed: the datagrams
  the client role sends are received by the other server, whose answers come back, or get lost
  on either way. A lost request is retransmitted until the floor is granted; a lost answer is not
  made up for, since the server takes the retransmission for a new request.
\<close>

section \<open>Two servers and a network that loses datagrams\<close>

definition role_ready :: "nat \<Rightarrow> Server \<Rightarrow> bool" where
  "role_ready c s \<longleftrightarrow>
     (let client = sv_client_at s c in
      role_ok c s \<and> \<not> uc_closed client \<and> sv_udpListener s \<noteq> None \<and>
      lookup (sv_udpClients s) (uc_remote client) = Some c \<and>
      \<not> udp_closed (sv_udp_at s (uc_transport client)) \<and>
      supported (ucc_Version (uc_config client)))"

definition floorRequestOf :: "nat \<Rightarrow> u16 \<Rightarrow> Server \<Rightarrow> message" where
  "floorRequestOf c floorID s =
     AddFloorID floorID (newRequest c PrimitiveFloorRequest (snd (freshTxID c s)) s)"

definition datagramOf :: "nat \<Rightarrow> message \<Rightarrow> Server \<Rightarrow> byte list" where
  "datagramOf c msg s =
     (case Encode (msg\<lparr>Version := ucc_Version (uc_config (sv_client_at s c))\<rparr>) of
        Ok (_, bs) \<Rightarrow> bs | _ \<Rightarrow> [])"

text \<open>
  The peer over the attempts of a transaction: each datagram, unless it is lost, is received; the
  first datagram the peer sends back to the address \<open>from\<close> is the answer, unless it is lost too.
\<close>

definition answer_to :: "string \<Rightarrow> Server \<Rightarrow> Server \<Rightarrow> byte list option" where
  "answer_to from b b' =
     map_option snd (List.find (\<lambda>d. fst d = from) (drop (length (outbox b)) (outbox b')))"

fun peerRun ::
    "Env \<Rightarrow> string \<Rightarrow> byte list \<Rightarrow> (bool \<times> bool) list \<Rightarrow> Server \<Rightarrow> Server \<times> byte list option list" where
  "peerRun e from data [] b = (b, [])"
| "peerRun e from data ((request_lost, answer_lost) # links) b =
     (let b1 = (if request_lost then b else receiveDatagram e from data b);
          reply = (if request_lost \<or> answer_lost then None else answer_to from b b1);
          (b', replies) = peerRun e from data links b1
      in (b', reply # replies))"

text \<open>What the client role sees: the answer to an attempt arrives, or its timer fires.\<close>

definition arriving :: "Env \<Rightarrow> string \<Rightarrow> byte list option list \<Rightarrow> schedule" where
  "arriving e remote replies = (\<lambda>attempt wait.
     (case (if attempt - 1 < length replies then replies ! (attempt - 1) else None) of
        Some data \<Rightarrow> ([(e, Action (Datagram remote data))], CaseResponse)
      | None \<Rightarrow> ([], CaseTimer)))"

section \<open>The client's side\<close>

lemma role_ready_frame: "frame s s' \<Longrightarrow> role_ready c s \<Longrightarrow> role_ready c s'"
  by (simp add: role_ready_def role_ok_def frame_fields(3,6,9,10,11) Let_def)

lemma uc_send_ready:
  assumes "role_ready c s" "writes_succeed e" "sendable msg"
  shows "snd (uc_send e c msg s) = None" "frame s (fst (uc_send e c msg s))"
proof -
  let ?m = "msg\<lparr>Version := ucc_Version (uc_config (sv_client_at s c))\<rparr>"
  have "wfMessage ?m"
    using assms(1,3)
    by (auto simp: role_ready_def Let_def wfMessage_def sendable_def supported_def payloadSize_def)
  from Decode_Encode_wf [OF this] assms show "snd (uc_send e c msg s) = None"
    by (auto simp: uc_send_def Let_def udp_SendMessage_def role_ready_def writes_succeed_def)
qed simp

lemma datagramOf_decodes:
  assumes "supported (ucc_Version (uc_config (sv_client_at s c)))" "sendable msg"
  shows "Decode (datagramOf c msg s)
    = Ok (decodedMessage (msg\<lparr>Version := ucc_Version (uc_config (sv_client_at s c))\<rparr>))"
proof -
  have "wfMessage (msg\<lparr>Version := ucc_Version (uc_config (sv_client_at s c))\<rparr>)"
    using assms by (auto simp: wfMessage_def sendable_def supported_def payloadSize_def)
  from Decode_Encode_wf [OF this] show ?thesis by (auto simp: datagramOf_def)
qed

text \<open>Attempts whose datagram or answer is lost.\<close>

lemma transactLoop_lost:
  assumes "role_ready c s" "writes_succeed e" "sendable msg"
    and "\<And>k w. k \<in> set lost \<Longrightarrow> sched k w = ([], CaseTimer)"
  shows "\<exists>s1 w1 ws. frame s s1 \<and>
    transactLoop e sched c msg ch w (lost @ attempts) s =
      (case transactLoop e sched c msg ch w1 attempts s1 of (s', r, ws') \<Rightarrow> (s', r, ws @ ws'))"
  using assms(1,4)
proof (induction lost arbitrary: s w)
  case Nil
  show ?case by (rule exI [of _ s], rule exI [of _ w], rule exI [of _ "[]"]) (simp split: prod.splits)
next
  case (Cons k lost)
  obtain s1 where s1: "uc_send e c msg s = (s1, None)" "frame s s1"
    using uc_send_ready [OF Cons.prems(1) assms(2,3)] by (cases "uc_send e c msg s") auto
  have sk: "sched k w = ([], CaseTimer)" using Cons.prems(2) by simp
  from Cons.IH [OF role_ready_frame [OF s1(2) Cons.prems(1)], of "int64 (w * 2)"] Cons.prems(2)
  obtain s2 w2 ws where IH: "frame s1 s2"
    "transactLoop e sched c msg ch (int64 (w * 2)) (lost @ attempts) s1 =
      (case transactLoop e sched c msg ch w2 attempts s2 of (s', r, ws') \<Rightarrow> (s', r, ws @ ws'))" by auto
  have "transactLoop e sched c msg ch w ((k # lost) @ attempts) s =
      (case transactLoop e sched c msg ch w2 attempts s2 of (s', r, ws') \<Rightarrow> (s', r, (w # ws) @ ws'))"
    using s1(1) sk IH(2) by (simp add: selectCase_def split: prod.splits)
  with frame_trans [OF s1(2) IH(1)] show ?case by blast
qed

text \<open>A datagram of the peer that answers the transaction.\<close>

lemma receive_response:
  assumes "server_inv s" "sv_udpListener s = Some l" "Decode data = Ok m"
    and "lookup (sv_udpClients s) remote = Some c"
    and "lookup (uc_pending (sv_client_at s c)) (TransactionID m) = Some ch"
    and "uc_chan_at (sv_client_at s c) ch = None"
  shows "sv_client_at (receiveDatagram e remote data s) c
    = (sv_client_at s c)\<lparr>uc_chan_at := (uc_chan_at (sv_client_at s c))(ch := Some m)\<rparr>"
proof -
  obtain s1 t where g: "getOrCreateTransport l remote s = (s1, t)"
    by (cases "getOrCreateTransport l remote s")
  note ok = getOrCreateTransport_ok [OF assms(1,2) g]
  have cl: "sv_client_at s1 = sv_client_at s"
    using keeps_roles_getOrCreateTransport [OF assms(2) keeps_roles_refl, of remote] g
    by (simp add: keeps_roles_def)
  have "sv_client_at (callMessageIn r m s1) = sv_client_at s" for r
    using frame_fields(10) [OF frame_callMessageIn] cl by simp
  with assms g ok show ?thesis
    by (simp add: receiveDatagram_def handleUDPMessage_def uc_handleMessage_def Let_def
        update_client_def)
qed

lemma transactLoop_answered:
  assumes "role_ready c s" "server_inv s" "writes_succeed e" "sendable msg"
    and "sched k w = ([(e, Action (Datagram (uc_remote (sv_client_at s c)) data))], CaseResponse)"
    and "Decode data = Ok m" "TransactionID m = TransactionID msg"
    and "lookup (uc_pending (sv_client_at s c)) (TransactionID msg) = Some ch"
    and "uc_chan_at (sv_client_at s c) ch = None"
  shows "\<exists>s'. transactLoop e sched c msg ch w (k # attempts) s = (s', Ok m, []) \<and>
    sv_client_at s' c = sv_client_at s c"
proof -
  obtain s1 where s1: "uc_send e c msg s = (s1, None)" "frame s s1"
    using uc_send_ready [OF assms(1,3,4)] by (cases "uc_send e c msg s") auto
  have cl: "sv_client_at s1 = sv_client_at s" using frame_fields(10) [OF s1(2)] .
  obtain l where l: "sv_udpListener s1 = Some l"
    using assms(1) frame_fields(3) [OF s1(2)] by (auto simp: role_ready_def Let_def)
  let ?r = "uc_remote (sv_client_at s c)"
  have "lookup (sv_udpClients s1) ?r = Some c"
    using assms(1) frame_fields(6) [OF s1(2)] by (simp add: role_ready_def Let_def)
  from receive_response [OF server_inv_frame [OF s1(2) assms(2)] l assms(6) this, of ch e] assms(7-9)
  have "sv_client_at (receiveDatagram e ?r data s1) c
      = (sv_client_at s c)\<lparr>uc_chan_at := (uc_chan_at (sv_client_at s c))(ch := Some m)\<rparr>"
    by (simp add: cl)
  moreover have "(uc_chan_at (sv_client_at s c))(ch := None) = uc_chan_at (sv_client_at s c)"
    using assms(9) by (simp add: fun_upd_idem)
  ultimately show ?thesis
    using s1(1) assms(5) by (simp add: selectCase_def update_client_def Let_def)
qed

lemma role_ready_client:
  assumes "role_ready c s"
    and "role_ok c (update_client c client s)" "same_setup (sv_client_at s c) client"
    and "uc_closed client = uc_closed (sv_client_at s c)"
  shows "role_ready c (update_client c client s)"
  using assms by (simp add: role_ready_def Let_def update_client_def same_setup_def)

lemma transact_arriving:
  assumes "role_ready c s" "server_inv s" "udp_only s" "writes_succeed e" "sendable msg"
    and "Decode data = Ok m" "TransactionID m = TransactionID msg"
    and "lost < nat (ucc_MaxRetries (uc_config (sv_client_at s c)))"
    and "replies = replicate lost None @ Some data # later"
  shows "\<exists>s' waits. transact e (arriving e (uc_remote (sv_client_at s c)) replies) c msg s
      = (s', Ok m, waits) \<and>
    uc_activeRequests (sv_client_at s' c) = uc_activeRequests (sv_client_at s c) \<and>
    uc_config (sv_client_at s' c) = uc_config (sv_client_at s c)"
proof -
  let ?cl = "sv_client_at s c" and ?n = "nat (ucc_MaxRetries (uc_config (sv_client_at s c)))"
  let ?sched = "arriving e (uc_remote ?cl) replies"
  let ?client = "?cl\<lparr>uc_fresh_chan := Suc (uc_fresh_chan ?cl),
      uc_chan_at := (uc_chan_at ?cl)(uc_fresh_chan ?cl := None),
      uc_pending := put (TransactionID msg) (uc_fresh_chan ?cl) (uc_pending ?cl)\<rparr>"
  let ?ch = "uc_fresh_chan ?cl" and ?s1 = "update_client c ?client s"
  have b: "beginTransact c msg s = (?s1, Ok ?ch)"
    using assms(1) by (simp add: beginTransact_def role_ready_def Let_def)
  have "role_ok c ?s1"
    using assms(1) by (auto simp: role_ready_def role_ok_def Let_def update_client_def less_Suc_eq)
  then have ready: "role_ready c ?s1" by (rule role_ready_client [OF assms(1)]) (simp_all add: same_setup_def)
  have inv: "server_inv ?s1" by (rule frame_client_inv [OF frame_client_update assms(2,3)])
  have cl1: "sv_client_at ?s1 c = ?client" by (simp add: update_client_def)
  have split: "[1..<Suc ?n] = [1..<Suc lost] @ Suc lost # [Suc (Suc lost)..<Suc ?n]"
    using assms(8) upt_add_eq_append [of 1 "Suc lost" "?n - lost"]
    by (simp add: upt_conv_Cons del: upt_Suc)
  have quiet: "?sched k w = ([], CaseTimer)" if "k \<in> set [1..<Suc lost]" for k w
  proof -
    have "k - 1 < lost" using that by auto
    then show ?thesis by (simp add: arriving_def assms(9) nth_append)
  qed
  from transactLoop_lost [OF ready assms(4,5), where sched = ?sched and lost = "[1..<Suc lost]"
      and ch = ?ch and w = "ucc_T1 (uc_config ?cl)"
      and attempts = "Suc lost # [Suc (Suc lost)..<Suc ?n]", OF quiet] obtain s2 w1 ws where s2: "frame ?s1 s2"
    "transactLoop e ?sched c msg ?ch (ucc_T1 (uc_config ?cl)) ([1..<Suc lost] @ Suc lost # [Suc (Suc lost)..<Suc ?n]) ?s1 =
      (case transactLoop e ?sched c msg ?ch w1 (Suc lost # [Suc (Suc lost)..<Suc ?n]) s2 of
         (s', r, ws') \<Rightarrow> (s', r, ws @ ws'))" by blast
  have cl2: "sv_client_at s2 c = ?client" using frame_fields(10) [OF s2(1)] cl1 by simp
  have "?sched (Suc lost) w1 = ([(e, Action (Datagram (uc_remote (sv_client_at s2 c)) data))], CaseResponse)"
    by (simp add: arriving_def assms(9) nth_append cl2)
  from transactLoop_answered [OF role_ready_frame [OF s2(1) ready] server_inv_frame [OF s2(1) inv] assms(4,5),
      where sched = ?sched, OF this assms(6,7)]
  obtain s3 where s3: "transactLoop e ?sched c msg ?ch w1 (Suc lost # [Suc (Suc lost)..<Suc ?n]) s2 = (s3, Ok m, [])"
    "sv_client_at s3 c = ?client" by (auto simp: cl2)
  have "transact e ?sched c msg s = (endTransact c msg s3, Ok m, ws)"
    by (simp add: transact_def b Let_def cl1 split s2(2) s3(1) del: upt_Suc One_nat_def transactLoop.simps)
  moreover have "uc_activeRequests (sv_client_at (endTransact c msg s3) c) = uc_activeRequests ?cl"
    "uc_config (sv_client_at (endTransact c msg s3) c) = uc_config ?cl"
    by (simp_all add: endTransact_def Let_def update_client_def s3(2))
  ultimately show ?thesis by blast
qed

lemma floorRequestOf_fields:
  "sendable (floorRequestOf c k s)" "is_request (decodedMessage (floorRequestOf c k s\<lparr>Version := v\<rparr>))"
  "Primitive (floorRequestOf c k s) = PrimitiveFloorRequest"
  "UserID (floorRequestOf c k s) = ucc_UserID (uc_config (sv_client_at s c))"
  "Version (floorRequestOf c k s\<lparr>Version := v\<rparr>) = v"
  "GetFloorID (decodedMessage (floorRequestOf c k s\<lparr>Version := v\<rparr>)) = Some k"
proof -
  have a: "Attributes (floorRequestOf c k s) = [plain AttrFloorID (PutUint16 k)]"
    by (simp add: floorRequestOf_def AddFloorID_def AddAttribute_def newRequest_def NewMessage_def
        plain_def Let_def)
  then show "GetFloorID (decodedMessage (floorRequestOf c k s\<lparr>Version := v\<rparr>)) = Some k"
    using GetAttribute_single [of "decodedMessage (floorRequestOf c k s\<lparr>Version := v\<rparr>)"]
    by (simp add: GetFloorID_def attrUint16_def plain_def decodedAttr_def)
  show "sendable (floorRequestOf c k s)"
    using a plain_wf [of "PutUint16 k" AttrFloorID] plain_size [of "PutUint16 k" AttrFloorID]
    by (simp add: sendable_def payloadSize_def)
       (simp add: floorRequestOf_def AddFloorID_def newRequest_def NewMessage_def Let_def)
  show "is_request (decodedMessage (floorRequestOf c k s\<lparr>Version := v\<rparr>))"
    "Primitive (floorRequestOf c k s) = PrimitiveFloorRequest"
    "UserID (floorRequestOf c k s) = ucc_UserID (uc_config (sv_client_at s c))"
    "Version (floorRequestOf c k s\<lparr>Version := v\<rparr>) = v"
    by (simp_all add: is_request_def floorRequestOf_def AddFloorID_def newRequest_def Let_def)
qed

lemma freshTxID_ready:
  assumes "role_ready c s" "server_inv s" "udp_only s"
  shows "role_ready c (fst (freshTxID c s))" "server_inv (fst (freshTxID c s))"
    "udp_only (fst (freshTxID c s))"
    "uc_config (sv_client_at (fst (freshTxID c s)) c) = uc_config (sv_client_at s c)"
    "uc_remote (sv_client_at (fst (freshTxID c s)) c) = uc_remote (sv_client_at s c)"
    "uc_activeRequests (sv_client_at (fst (freshTxID c s)) c) = uc_activeRequests (sv_client_at s c)"
proof -
  obtain client txID where n: "uc_nextTransactionID (sv_client_at s c) = (client, txID)"
    by (cases "uc_nextTransactionID (sv_client_at s c)")
  then have cl: "\<exists>x. client = (sv_client_at s c)\<lparr>uc_nextTxID := x\<rparr>"
    by (auto simp: uc_nextTransactionID_def Let_def split: if_splits)
  have f: "fst (freshTxID c s) = update_client c client s" by (simp add: freshTxID_def n)
  have "role_ok c (update_client c client s)"
    using assms(1) cl by (auto simp: role_ready_def role_ok_def Let_def update_client_def)
  then show "role_ready c (fst (freshTxID c s))"
    unfolding f by (rule role_ready_client [OF assms(1)]) (use cl in \<open>auto simp: same_setup_def\<close>)
  show "server_inv (fst (freshTxID c s))" "udp_only (fst (freshTxID c s))"
    unfolding f by (rule frame_client_inv [OF frame_client_update assms(2,3)])+
  show "uc_config (sv_client_at (fst (freshTxID c s)) c) = uc_config (sv_client_at s c)"
    "uc_remote (sv_client_at (fst (freshTxID c s)) c) = uc_remote (sv_client_at s c)"
    "uc_activeRequests (sv_client_at (fst (freshTxID c s)) c) = uc_activeRequests (sv_client_at s c)"
    using cl by (auto simp: f update_client_def)
qed

text \<open>A floor request whose first answer that arrives is the message \<open>m\<close>.\<close>

lemma RequestFloor_arriving:
  assumes "role_ready c s" "server_inv s" "udp_only s" "writes_succeed e"
    and "Decode data = Ok m" "TransactionID m = TransactionID (floorRequestOf c k s)"
    and "lost < nat (ucc_MaxRetries (uc_config (sv_client_at s c)))"
    and "replies = replicate lost None @ Some data # later"
  shows "\<exists>s'. uc_RequestFloor e (arriving e (uc_remote (sv_client_at s c)) replies) c k s
      = requestAnswered e c k m s' \<and>
    uc_activeRequests (sv_client_at s' c) = uc_activeRequests (sv_client_at s c)"
proof -
  obtain s1 txID where f: "freshTxID c s = (s1, txID)" by (cases "freshTxID c s")
  note ok = freshTxID_ready [OF assms(1-3), unfolded f fst_conv]
  have msg: "AddFloorID k (newRequest c PrimitiveFloorRequest txID s1) = floorRequestOf c k s"
    by (simp add: floorRequestOf_def f newRequest_def ok(4))
  from transact_arriving [OF ok(1-3) assms(4) floorRequestOf_fields(1) assms(5,6), of lost replies later]
    assms(7,8) ok(4-6)
  obtain s' waits where "transact e (arriving e (uc_remote (sv_client_at s c)) replies) c (floorRequestOf c k s) s1
      = (s', Ok m, waits)" "uc_activeRequests (sv_client_at s' c) = uc_activeRequests (sv_client_at s c)"
    by auto
  moreover have "uc_RequestFloor e sched c k s =
      (case transact e sched c (floorRequestOf c k s) s1 of
         (s, Ok response, _) \<Rightarrow> requestAnswered e c k response s
       | (s, Fail err, _) \<Rightarrow> (s, Fail err)
       | (s, Panic, _) \<Rightarrow> (s, Panic))" for sched
    unfolding uc_RequestFloor_def f Let_def prod.case msg ..
  ultimately show ?thesis by auto
qed

lemma requestAnswered_granted:
  assumes "tells_status k r RequestStatusGranted m"
  shows "snd (requestAnswered e c k m s) = Ok r" "uc_HasFloor c k (fst (requestAnswered e c k m s))"
proof -
  show "snd (requestAnswered e c k m s) = Ok r"
    using assms by (simp add: requestAnswered_def tells_status_def Let_def)
  have "sv_client_at (emit_if b ev t) = sv_client_at t" for b ev t
    using frame_fields(10) [OF frame_emit_if] .
  then show "uc_HasFloor c k (fst (requestAnswered e c k m s))"
    using assms
    by (simp add: requestAnswered_def tells_status_def Let_def applyOwnStatus_def uc_HasFloor_def
        update_client_def updateActive_def endsRequest_def)
qed

lemma requestAnswered_error:
  assumes "Primitive m = PrimitiveError"
  shows "requestAnswered e c k m s = (s, Fail (ErrorResponse (responseError m)))"
  using assms by (simp add: requestAnswered_def)

section \<open>The peer's side\<close>

lemma answer_to_first:
  "outbox b' = outbox b @ (from, bs) # rest \<Longrightarrow> answer_to from b b' = Some bs"
  by (simp add: answer_to_def)

lemma peerRun_lost:
  "peerRun e from data (replicate n (True, x) @ links) b =
     (case peerRun e from data links b of (b', replies) \<Rightarrow> (b', replicate n None @ replies))"
  by (induction n) (simp_all split: prod.splits)

lemma serves_request:
  assumes "serves policy r m v v'" "Primitive m = PrimitiveFloorRequest" "GetFloorID m = Some k"
  shows "v' k = Some (decide (policy k (UserID m) r) (UserID m) r (floor_or_free v k))"
  using assms(1) by (cases rule: serves_cases) (use assms(2,3) in auto)

text \<open>The request of the client role at its peer: the floor and the answer.\<close>

lemma peer_answers_request:
  fixes k :: u16
  assumes "supported (ucc_Version (uc_config (sv_client_at s c)))"
    and "server_inv b" "udp_only b" "env_ok e" "writes_succeed e" "for_server from b" "open_to from b"
  defines "data \<equiv> datagramOf c (floorRequestOf c k s) s"
    and "u \<equiv> ucc_UserID (uc_config (sv_client_at s c))"
  shows "\<exists>bs m'. answer_to from b (receiveDatagram e from data b) = Some bs \<and> Decode bs = Ok m' \<and>
      TransactionID m' = TransactionID (floorRequestOf c k s) \<and>
      tells_decision (policy_of b k u (next_request b)) k (next_request b)
        (floor_or_free (floors_view b) k) m' \<and>
      floors_view (receiveDatagram e from data b) k
        = Some (decide (policy_of b k u (next_request b)) u (next_request b)
                  (floor_or_free (floors_view b) k))"
proof -
  let ?m = "decodedMessage (floorRequestOf c k s\<lparr>Version := ucc_Version (uc_config (sv_client_at s c))\<rparr>)"
  have d: "Decode data = Ok ?m"
    unfolding data_def by (rule datagramOf_decodes [OF assms(1) floorRequestOf_fields(1)])
  have m: "Primitive ?m = PrimitiveFloorRequest" "UserID ?m = u" "GetFloorID ?m = Some k"
    "TransactionID ?m = TransactionID (floorRequestOf c k s)"
    by (simp_all add: floorRequestOf_fields u_def)
  from receiveDatagram_answers [OF assms(4,5,2,3,6,7) d floorRequestOf_fields(2)]
  obtain bs m' rest where a: "outbox (receiveDatagram e from data b) = outbox b @ (from, bs) # rest"
    "Decode bs = Ok m'" "replies_to ?m m'"
    "right_answer (policy_of b) (next_request b) ?m (floors_view b) m'" by auto
  have "tells_decision (policy_of b k u (next_request b)) k (next_request b) (floor_or_free (floors_view b) k) m'"
    using a(4) m by (simp add: right_answer_def)
  moreover have "serves (policy_of b) (next_request b) ?m (floors_view b)
      (floors_view (receiveDatagram e from data b))"
    using receiveDatagram_refines [OF assms(4,2,3), where remote = "from" and data = data] d assms(6) by simp
  from serves_request [OF this m(1,3)] m(2) have "floors_view (receiveDatagram e from data b) k
      = Some (decide (policy_of b k u (next_request b)) u (next_request b) (floor_or_free (floors_view b) k))"
    by simp
  moreover have "TransactionID m' = TransactionID (floorRequestOf c k s)"
    using a(3) m(4) by (simp add: replies_to_def)
  ultimately show ?thesis using answer_to_first [OF a(1)] a(2) by blast
qed

section \<open>Properties\<close>

text \<open>The hosts of the witnesses.\<close>

definition floor_host :: Server where
  "floor_host = UDPServer (DefaultServerConfig 1) no_callbacks"

lemma role_host_facts:
  "server_inv role_host" "udp_only role_host" "role_ready 1 role_host"
  "uc_remote (sv_client_at role_host 1) = ''10.0.0.9:5070''"
  "ucc_UserID (uc_config (sv_client_at role_host 1)) = 4"
  "uc_activeRequests (sv_client_at role_host 1) = []"
proof -
  have "reachable (DefaultServerConfig 1) no_callbacks role_host"
    using reachable.step [OF reachable.start plain_env_ok, of "DefaultServerConfig 1" no_callbacks
        "ApiNewUDPClient Some ''10.0.0.9:5070'' role_config"]
    by (simp add: role_host_def)
  from reachable_ok [OF this] show "server_inv role_host" "udp_only role_host" by simp_all
  show "role_ready 1 role_host"
    using role_host_setup(1) unfolding role_ready_def Let_def
    by (simp add: role_host_def NewUDPClient_def UDPServer_def NewServer_def NewUDPTransport_def
        getOrCreateTransport_def Let_def fillDefaults_def role_config_def placeholder_client_def
        supported_def)
  show "uc_remote (sv_client_at role_host 1) = ''10.0.0.9:5070''"
    "ucc_UserID (uc_config (sv_client_at role_host 1)) = 4"
    "uc_activeRequests (sv_client_at role_host 1) = []"
    by (simp_all add: role_host_def NewUDPClient_def UDPServer_def NewServer_def
        getOrCreateTransport_def Let_def fillDefaults_def role_config_def placeholder_client_def)
qed

lemma floor_host_facts:
  "server_inv floor_host" "udp_only floor_host" "for_server r floor_host" "open_to r floor_host"
  "floor_or_free (floors_view floor_host) k = Free" "policy_of floor_host k u n"
  "next_request floor_host = 1" "writes_succeed plain_env"
  using reachable_ok [OF reachable.start [of "DefaultServerConfig 1" no_callbacks]]
  by (simp_all add: floor_host_def for_server_def open_to_def UDPServer_def NewServer_def
      NewUDPTransport_def floor_or_free_def floors_view_def policy_of_def no_callbacks_def
      DefaultServerConfig_def next_request_def writes_succeed_def plain_env_def)





end
