(* ===== verification/TCP_Refinement.thy ===== *)
theory TCP_Refinement
  imports Server_Runs
begin

text \<open>
  The TCP handlers against the specification of floor control: every message handled on a
  connection, and every handler that wakes, keeps the server's invariant and the identity of its
  objects, and acts on the floors as specified.
\<close>

section \<open>What every step keeps\<close>

text \<open>
  Objects keep their identity: a floor its identifier, a session its transport, a transport its
  peer; a floor of the map stays in the map and a closed transport stays closed.
\<close>

definition grows :: "Server \<Rightarrow> Server \<Rightarrow> bool" where
  "grows s s' \<longleftrightarrow>
     sv_fresh s \<le> sv_fresh s' \<and> sv_udpListener s' = sv_udpListener s \<and>
     (\<forall>k p. lookup (sv_floors s) k = Some p \<longrightarrow> lookup (sv_floors s') k = Some p) \<and>
     (\<forall>p < sv_fresh s. fsm_FloorID (sv_floor_at s' p) = fsm_FloorID (sv_floor_at s p)) \<and>
     (\<forall>t < sv_fresh s.
        tr_RemoteAddr (sv_transport_at s' t) = tr_RemoteAddr (sv_transport_at s t) \<and>
        (tr_closed (sv_transport_at s t) \<longrightarrow> tr_closed (sv_transport_at s' t))) \<and>
     (\<forall>i < sv_fresh s. se_Transport (sv_session_at s' i) = se_Transport (sv_session_at s i) \<and>
        se_UDPTransport (sv_session_at s' i) = se_UDPTransport (sv_session_at s i))"

named_theorems grow

lemma grows_refl [simp, grow]: "grows s s"
  by (simp add: grows_def)

lemma grows_trans [trans]: "grows s t \<Longrightarrow> grows t u \<Longrightarrow> grows s u"
  by (simp add: grows_def)

lemma grows_frame [grow]: "frame s s' \<Longrightarrow> grows s s'"
  by (simp add: grows_def frame_fields)

lemma grows_update_floor [grow]:
  "fsm_FloorID f = fsm_FloorID (sv_floor_at s p) \<Longrightarrow> grows s (update_floor p f s)"
  by (simp add: grows_def)

lemma grows_after_floor:
  "frame (update_floor p f s) s' \<Longrightarrow> fsm_FloorID f = fsm_FloorID (sv_floor_at s p) \<Longrightarrow> grows s s'"
  using grows_trans [OF grows_update_floor grows_frame] by blast

lemma grows_update_transport [grow]:
  "tr_RemoteAddr tr = tr_RemoteAddr (sv_transport_at s t) \<Longrightarrow>
   (tr_closed (sv_transport_at s t) \<Longrightarrow> tr_closed tr) \<Longrightarrow> grows s (update_transport t tr s)"
  by (simp add: grows_def update_transport_def)

lemma grows_register [grow]: "grows s (register r sid s)"
  by (simp add: grows_def register_def)

lemma grows_CreateFloor [grow]: "grows s (fst (CreateFloor e k s))"
  by (auto simp: grows_def CreateFloor_def Let_def split: option.splits)

lemma grows_floorFor: "floorFor e k s = (s1, p) \<Longrightarrow> grows s s1"
  using grows_CreateFloor [of s e k] by (auto simp: floorFor_def split: option.splits)

lemma grows_newSession: "newSession e tr utr u r s = (s1, sid) \<Longrightarrow> grows s s1"
  by (auto simp: grows_def newSession_def Let_def)

lemma grows_releaseAll [grow]: "grows s (releaseAll u ps s)"
proof (induction ps arbitrary: s)
  case (Cons p ps)
  have "grows s (update_floor p (fst (Release u (sv_floor_at s p))) s)" by (rule grows_update_floor) simp
  from grows_trans [OF this Cons.IH] show ?case by (simp add: releaseAll_def)
qed (simp add: releaseAll_def)

lemma server_inv_update_transport:
  assumes "server_inv s" "tr_RemoteAddr tr = tr_RemoteAddr (sv_transport_at s t)"
  shows "server_inv (update_transport t tr s)"
proof -
  have "peer (update_transport t tr s) = peer s"
    using assms(2)
    by (auto simp: peer_def update_transport_def fun_eq_iff split: option.splits intro!: option.map_cong0)
  then show ?thesis
    using assms(1)
    by (simp add: server_inv_def floors_ok_def sessions_ok_def listener_ok_def update_transport_def
        cong: option.case_cong)
qed

lemma floors_view_update_transport [simp]: "floors_view (update_transport t tr s) = floors_view s"
  by (simp add: floors_view_def update_transport_def fun_eq_iff)

lemma tr_RemoteAddr_keeps [simp]:
  "tr_RemoteAddr (tr_Close t) = tr_RemoteAddr t"
  "tr_RemoteAddr (StartKeepalive (EnableKeepalive b t)) = tr_RemoteAddr t"
  "tr_closed (tr_Close t)" "tr_closed (StartKeepalive (EnableKeepalive b t)) = tr_closed t"
  by (simp_all add: tr_Close_def StartKeepalive_def EnableKeepalive_def)

text \<open>A session of the TCP server.\<close>

definition tcp_session :: "Server \<Rightarrow> nat \<Rightarrow> bool" where
  "tcp_session s sid \<longleftrightarrow>
     sid < sv_fresh s \<and> se_Transport (sv_session_at s sid) \<noteq> None \<and>
     se_UDPTransport (sv_session_at s sid) = None"

lemma tcp_session_grows: "grows s s' \<Longrightarrow> tcp_session s sid \<Longrightarrow> tcp_session s' sid"
  by (auto simp: grows_def tcp_session_def)

lemma tcp_peer:
  "tcp_session s sid \<Longrightarrow> se_Transport (sv_session_at s sid) = Some t \<Longrightarrow>
     peer s sid = Some (tr_RemoteAddr (sv_transport_at s t))"
  by (simp add: peer_def tcp_session_def)

section \<open>Messages\<close>

text \<open>
  A request that will be granted leaves the floor asked for. Everything else acts on the floors
  at once, as over UDP.
\<close>

definition tcp_serves ::
    "(u16 \<Rightarrow> u16 \<Rightarrow> u16 \<Rightarrow> bool) \<Rightarrow> u16 \<Rightarrow> message \<Rightarrow>
     (u16 \<Rightarrow> floor option) \<Rightarrow> (u16 \<Rightarrow> floor option) \<Rightarrow> bool" where
  "tcp_serves policy r m v v' \<longleftrightarrow>
     (if Primitive m = PrimitiveFloorRequest then
        (case GetFloorID m of
           None \<Rightarrow> v' = v
         | Some k \<Rightarrow> v' = v(k \<mapsto> decide_ask (policy k (UserID m) r) (UserID m) r (floor_or_free v k)))
      else serves policy r m v v')"

text \<open>A request that the policy grants for a free floor puts its handler to sleep.\<close>

lemma TCPFloorRequest_sleeps:
  assumes "server_inv s" "GetFloorID m = Some k" "floor_or_free (floors_view s) k = Free"
    and "policy_of s k (UserID m) (next_request s)"
  shows "snd (handleFloorRequest e sid m s) \<noteq> None"
proof -
  obtain s1 p where F: "floorFor e k s = (s1, p)" by (cases "floorFor e k s")
  note ok = floorFor_ok [OF assms(1) F] and fs = floorFor_fields [OF F]
  have fi: "floor_inv (sv_floor_at s1 p)" using ok(1) by (rule server_inv_floor)
  have pol: "policy_of s1 = policy_of s" "next_request s1 = next_request s"
    by (simp_all add: policy_of_def next_request_def fun_eq_iff fs cong: option.case_cong)
  define s2 where "s2 = fst (decideGrant k (UserID m) (next_request s) (fst (nextTxID_Add s1)))"
  have f2: "frame s1 s2"
    unfolding s2_def by (rule frame_trans [OF frame_nextTxID frame_decideGrant])
  have "floor_abs (sv_floor_at s1 p) = Free"
    using ok(3) assms(3) by (simp add: floor_or_free_def)
  then obtain f where
    "Request (UserID m) (next_request s) (requestPriority m) (sv_floor_at s1 p) =
       (f, RequestStatusPending, None)"
    using fsm.request_free [OF fi] by blast
  then have "snd (answerFloorRequest e sid m p k (next_request s) True s2) \<noteq> None"
    using frame_fields(7) [OF f2] by (simp add: answerFloorRequest_def Let_def)
  moreover have "handleFloorRequest e sid m s = answerFloorRequest e sid m p k (next_request s) True s2"
  proof -
    have "policy_of (fst (nextTxID_Add s1)) = policy_of s1"
      using frame_fields(1,2) [OF frame_nextTxID [of s1]]
      by (simp add: policy_of_def fun_eq_iff cong: option.case_cong)
    with assms(4) pol have "snd (decideGrant k (UserID m) (next_request s) (fst (nextTxID_Add s1)))"
      by (simp add: decideGrant_policy)
    then have d: "decideGrant k (UserID m) (next_request s) (fst (nextTxID_Add s1)) = (s2, True)"
      by (simp add: s2_def prod_eq_iff)
    have "nextTxID_Add s1 = (fst (nextTxID_Add s1), next_request s)"
      using pol by (simp add: nextTxID_Add_def Let_def next_request_def)
    with d F assms(2) show ?thesis
      by (simp add: handleFloorRequest_def split: prod.splits) (metis fst_conv snd_conv)
  qed
  ultimately show ?thesis by simp
qed

lemma TCPFloorRequest_refines:
  fixes e :: Env and m :: message
  assumes "server_inv s" "tcp_session s sid" "GetFloorID m = Some k"
  defines "s' \<equiv> fst (handleFloorRequest e sid m s)"
  shows "server_inv s'" "grows s s'"
    "floors_view s' = (floors_view s)
       (k \<mapsto> decide_ask (policy_of s k (UserID m) (next_request s)) (UserID m) (next_request s)
               (floor_or_free (floors_view s) k))"
    "snd (handleFloorRequest e sid m s) = Some x \<Longrightarrow>
       floor_or_free (floors_view s) k = Free \<and>
       (\<exists>p. x = (p, k, next_request s) \<and> lookup (sv_floors s') k = Some p \<and>
         floors_view s' k = Some (Asked (UserID m) (next_request s)))"
    "floor_or_free (floors_view s) k = Free \<Longrightarrow> policy_of s k (UserID m) (next_request s) \<Longrightarrow>
       snd (handleFloorRequest e sid m s) \<noteq> None"
proof -
  obtain s1 p where F: "floorFor e k s = (s1, p)" by (cases "floorFor e k s")
  note ok = floorFor_ok [OF assms(1) F] and fs = floorFor_fields [OF F]
  let ?g = "policy_of s k (UserID m) (next_request s)"
  let ?f = "ask ?g (UserID m) (next_request s) (requestPriority m) (sv_floor_at s1 p)"
  have fi: "floor_inv (sv_floor_at s1 p)" using ok(1) by (rule server_inv_floor)
  have pol: "policy_of s1 = policy_of s" "next_request s1 = next_request s"
    by (simp_all add: policy_of_def next_request_def fun_eq_iff fs cong: option.case_cong)
  have tr: "se_Transport (sv_session_at s1 sid) \<noteq> None"
    using assms(2) fs by (simp add: tcp_session_def)
  note pol' = pol [unfolded next_request_def]
  have fr: "frame (update_floor p ?f s1) s'"
    using frame_handleFloorRequest(1) [OF assms(3) F tr] pol'
    by (simp add: s'_def decideGrant_policy next_request_def)
  have "server_inv (update_floor p ?f s1)"
    by (rule server_inv_update_floor [OF ok(1) floor_inv_ask [OF fi]]) simp
  with fr show "server_inv s'" by (rule server_inv_frame)
  show "grows s s'"
    by (rule grows_trans [OF grows_floorFor [OF F] grows_after_floor [OF fr]]) simp
  have "floors_view (update_floor p ?f s1) = (floors_view s1)(k \<mapsto> floor_abs ?f)"
    using ok(1) fs by (intro floors_view_update_floor) (simp_all add: server_inv_def)
  then show view: "floors_view s' = (floors_view s)
       (k \<mapsto> decide_ask ?g (UserID m) (next_request s) (floor_or_free (floors_view s) k))"
    using floors_view_frame [OF fr] ok by (simp add: floor_abs_ask [OF fi] floor_or_free_def)
  show "floor_or_free (floors_view s) k = Free \<and>
       (\<exists>p. x = (p, k, next_request s) \<and> lookup (sv_floors s') k = Some p \<and>
         floors_view s' k = Some (Asked (UserID m) (next_request s)))"
    if "snd (handleFloorRequest e sid m s) = Some x"
  proof -
    from frame_handleFloorRequest(2) [OF assms(3) F tr that] have
      "x = (p, k, next_request s)" "floor_abs (sv_floor_at s1 p) = Free" ?g
      using pol' by (simp_all add: decideGrant_policy next_request_def)
    then show ?thesis
      using view ok(3) fs frame_fields(4) [OF fr] by (simp add: floor_or_free_def)
  qed
  show "floor_or_free (floors_view s) k = Free \<Longrightarrow> ?g \<Longrightarrow> snd (handleFloorRequest e sid m s) \<noteq> None"
    by (rule TCPFloorRequest_sleeps [OF assms(1,3)])
qed

lemma handleFloorRelease_frame:
  "tcp_session s sid \<Longrightarrow> release_frame e m s (handleFloorRelease e sid m s)"
  unfolding release_frame_def tcp_session_def by (rule frame_handleFloorRelease) simp

lemma grows_release: "release_frame e m s s' \<Longrightarrow> grows s s'"
  by (erule release_frame_floor) (simp_all add: grows_after_floor grows_frame)

lemma TCPGoodbye_refines:
  fixes e :: Env and m :: message
  assumes "env_ok e" "server_inv s" "tcp_session s sid"
  defines "s' \<equiv> handleGoodbye e sid m s"
  shows "server_inv s'" "floors_view s' = (\<lambda>k. map_option (leave (UserID m)) (floors_view s k))"
    "grows s s'"
proof -
  obtain t where t: "se_Transport (sv_session_at s sid) = Some t"
    using assms(3) by (auto simp: tcp_session_def)
  let ?s = "releaseAll (UserID m) (snd (floorsOwnedBy e (UserID m) s)) s"
  note fr = frame_handleGoodbye [OF t, of m e, folded s'_def]
  have "server_inv (update_transport t (tr_Close (sv_transport_at s t)) ?s)"
    by (rule server_inv_update_transport [OF server_inv_releaseAll [OF assms(2)]]) simp
  with fr show "server_inv s'" by (rule server_inv_frame)
  show "floors_view s' = (\<lambda>k. map_option (leave (UserID m)) (floors_view s k))"
    using floors_view_frame [OF fr] floors_view_goodbye [OF assms(1,2)] by simp
  show "grows s s'"
    by (rule grows_trans [OF grows_trans [OF grows_releaseAll grows_update_transport] grows_frame [OF fr]]) simp_all
qed

lemma TCPHello_refines:
  fixes e :: Env and m :: message
  assumes "server_inv s" "tcp_session s sid"
  defines "s' \<equiv> handleHello e sid m s"
  shows "server_inv s'" "floors_view s' = floors_view s" "grows s s'"
proof -
  obtain t where t: "se_Transport (sv_session_at s sid) = Some t"
    using assms(2) by (auto simp: tcp_session_def)
  let ?tr = "StartKeepalive (EnableKeepalive True (sv_transport_at s t))"
  let ?s = "register (tr_RemoteAddr (sv_transport_at s t)) sid s"
  note fr = frame_handleHello [OF t, of e m, folded s'_def]
  have "server_inv ?s"
    using assms(2) server_inv_register [OF assms(1) _ tcp_peer [OF assms(2) t]]
    by (simp add: tcp_session_def)
  then have "server_inv (update_transport t ?tr ?s)"
    by (rule server_inv_update_transport) (simp add: register_def)
  with fr show "server_inv s'" by (rule server_inv_frame)
  show "floors_view s' = floors_view s" using floors_view_frame [OF fr] by simp
  show "grows s s'"
    by (rule grows_trans [OF grows_trans [OF grows_register grows_update_transport] grows_frame [OF fr]])
       (simp_all add: register_def)
qed

text \<open>The state in which the handler of a message runs.\<close>

definition received_TCP :: "Env \<Rightarrow> nat \<Rightarrow> message \<Rightarrow> Server \<Rightarrow> Server" where
  "received_TCP e sid m s =
     (let s = update_StateMachine sid (\<lambda>st. st\<lparr>ssm_ClientVersion := Version m\<rparr>)
                (update_StateMachine sid (UpdateActivity (env_now e)) s)
      in case se_Transport (sv_session_at s sid) of
           Some t \<Rightarrow> callMessageIn (tr_RemoteAddr (sv_transport_at s t)) m s
         | None \<Rightarrow> s)"

lemma received_TCP_frame [simp]: "frame s (received_TCP e sid m s)"
  unfolding received_TCP_def Let_def by (auto intro!: frame_intros frame_refl split: option.split)

lemma received_TCP_policy:
  "policy_of (received_TCP e sid m s) = policy_of s"
  "next_request (received_TCP e sid m s) = next_request s"
proof -
  have "sv_nextTxID (received_TCP e sid m s) = sv_nextTxID s"
    by (simp add: received_TCP_def Let_def callMessageIn_def emit_if_def emit_def update_StateMachine_def
        split: option.split)
  then show "policy_of (received_TCP e sid m s) = policy_of s"
    "next_request (received_TCP e sid m s) = next_request s"
    using frame_fields [OF received_TCP_frame]
    by (simp_all add: policy_of_def next_request_def fun_eq_iff cong: option.case_cong)
qed

lemma received_TCP_dispatch:
  assumes "tcp_session s sid"
  shows "handleMessage e sid m s =
    (let s = received_TCP e sid m s in
     if Primitive m = PrimitiveHello then (handleHello e sid m s, None)
     else if Primitive m = PrimitiveFloorRequest then handleFloorRequest e sid m s
     else if Primitive m = PrimitiveFloorRelease then (handleFloorRelease e sid m s, None)
     else if Primitive m = PrimitiveFloorQuery then (handleFloorQuery e sid m s, None)
     else if Primitive m = PrimitiveGoodbye then (handleGoodbye e sid m s, None)
     else (s, None))"
proof -
  let ?s2 = "update_StateMachine sid (\<lambda>st. st\<lparr>ssm_ClientVersion := Version m\<rparr>)
      (update_StateMachine sid (UpdateActivity (env_now e)) s)"
  have f2: "frame s ?s2" by (intro frame_intros frame_refl)
  obtain t where "se_Transport (sv_session_at s sid) = Some t" using assms by (auto simp: tcp_session_def)
  then have "se_Transport (sv_session_at ?s2 sid) = Some t" using frame_fields(13) [OF f2, of sid] by simp
  then show ?thesis by (simp add: handleMessage_def received_TCP_def Let_def)
qed

text \<open>What a message does to the floors, and when its handler sleeps.\<close>

definition handled ::
    "Server \<Rightarrow> message \<Rightarrow> Server \<times> (nat \<times> u16 \<times> u16) option \<Rightarrow> bool" where
  "handled s m x \<longleftrightarrow>
     server_inv (fst x) \<and> grows s (fst x) \<and>
     tcp_serves (policy_of s) (next_request s) m (floors_view s) (floors_view (fst x)) \<and>
     (\<forall>g. snd x = Some g \<longrightarrow>
        Primitive m = PrimitiveFloorRequest \<and>
        (\<exists>p k. g = (p, k, next_request s) \<and> lookup (sv_floors (fst x)) k = Some p \<and>
           GetFloorID m = Some k \<and> floors_view (fst x) k = Some (Asked (UserID m) (next_request s)) \<and>
           floor_or_free (floors_view s) k = Free)) \<and>
     (\<forall>k. Primitive m = PrimitiveFloorRequest \<longrightarrow> GetFloorID m = Some k \<longrightarrow>
        floor_or_free (floors_view s) k = Free \<longrightarrow> policy_of s k (UserID m) (next_request s) \<longrightarrow>
        snd x \<noteq> None)"

lemma handled_quiet:
  assumes "Primitive m \<notin> {PrimitiveFloorRequest, PrimitiveFloorRelease, PrimitiveGoodbye}"
    and "server_inv s'" "grows s s'" "floors_view s' = floors_view s"
  shows "handled s m (s', None)"
  using assms serves.other [OF assms(1)] by (auto simp: handled_def tcp_serves_def)

lemma TCPFloorRequest_handled:
  assumes "server_inv s" "tcp_session s sid" "Primitive m = PrimitiveFloorRequest"
  shows "handled s m (handleFloorRequest e sid m s)"
proof (cases "GetFloorID m")
  case None
  have tr: "se_Transport (sv_session_at s sid) \<noteq> None" using assms(2) by (simp add: tcp_session_def)
  from None have h: "handleFloorRequest e sid m s =
      (sendError e sid m ErrorInvalidFloorID ''No floor ID in request'' s, None)"
    by (simp add: handleFloorRequest_def)
  have fr: "frame s (fst (handleFloorRequest e sid m s))" using frame_sendError [OF tr] by (simp add: h)
  show ?thesis
    using server_inv_frame [OF fr assms(1)] floors_view_frame [OF fr] grows_frame [OF fr] assms(3) None
    by (simp add: handled_def tcp_serves_def h)
next
  case (Some k)
  note R = TCPFloorRequest_refines [OF assms(1,2) Some, of e]
  show ?thesis
    using R(1-3) R(4,5) assms(3) Some by (auto simp: handled_def tcp_serves_def)
qed

lemma handled_from:
  assumes "handled s1 m x" "frame s s1" "policy_of s1 = policy_of s" "next_request s1 = next_request s"
  shows "handled s m x"
  using assms(1) grows_trans [OF grows_frame [OF assms(2)]] floors_view_frame [OF assms(2)]
  unfolding handled_def assms(3,4) by auto

lemma handleMessage_handled:
  assumes "env_ok e" "server_inv s" "tcp_session s sid"
  shows "handled s m (handleMessage e sid m s)"
proof -
  define s1 where "s1 = received_TCP e sid m s"
  have f: "frame s s1" by (simp add: s1_def)
  have inv: "server_inv s1" "tcp_session s1 sid"
    using server_inv_frame [OF f assms(2)] tcp_session_grows [OF grows_frame [OF f] assms(3)] by auto
  have tr: "se_Transport (sv_session_at s1 sid) \<noteq> None" using inv(2) by (simp add: tcp_session_def)
  note disp = received_TCP_dispatch [OF assms(3), of e m, folded s1_def, unfolded Let_def]
  consider "Primitive m = PrimitiveHello" | "Primitive m = PrimitiveFloorRequest"
    | "Primitive m = PrimitiveFloorRelease" | "Primitive m = PrimitiveFloorQuery"
    | "Primitive m = PrimitiveGoodbye"
    | "Primitive m \<notin> {PrimitiveHello, PrimitiveFloorRequest, PrimitiveFloorRelease,
        PrimitiveFloorQuery, PrimitiveGoodbye}" by blast
  then have "handled s1 m (handleMessage e sid m s)"
  proof cases
    case 1
    with handled_quiet [of m] TCPHello_refines [OF inv, of e m] show ?thesis by (simp add: disp)
  next
    case 2
    with TCPFloorRequest_handled [OF inv 2] show ?thesis by (simp add: disp)
  next
    case 3
    have r: "release_frame e m s1 (handleFloorRelease e sid m s1)"
      by (rule handleFloorRelease_frame [OF inv(2)])
    from release_refines(1,2) [OF assms(1) inv(1) 3 r] grows_release [OF r] 3 show ?thesis
      by (simp add: disp handled_def tcp_serves_def)
  next
    case 4
    have fr: "frame s1 (handleFloorQuery e sid m s1)" by (rule frame_handleFloorQuery [OF tr])
    from handled_quiet [of m] server_inv_frame [OF fr inv(1)] floors_view_frame [OF fr] grows_frame [OF fr] 4
    show ?thesis by (simp add: disp)
  next
    case 5
    note R = TCPGoodbye_refines [OF assms(1) inv, of m]
    from R serves.goodbye [OF 5, of "policy_of s1" "next_request s1" "floors_view s1"] 5 show ?thesis
      by (simp add: disp handled_def tcp_serves_def)
  next
    case 6
    with handled_quiet [of m s1 s1] inv(1) show ?thesis by (simp add: disp)
  qed
  from handled_from [OF this f] received_TCP_policy show ?thesis by (simp add: s1_def)
qed

lemma handleMessage_refines:
  fixes e :: Env and m :: message
  assumes "env_ok e" "server_inv s" "tcp_session s sid"
  defines "s' \<equiv> fst (handleMessage e sid m s)"
  shows "server_inv s' \<and> grows s s' \<and>
      tcp_serves (policy_of s) (next_request s) m (floors_view s) (floors_view s') \<and>
      (\<forall>x. snd (handleMessage e sid m s) = Some x \<longrightarrow>
         Primitive m = PrimitiveFloorRequest \<and>
         (\<exists>p k. x = (p, k, next_request s) \<and> lookup (sv_floors s') k = Some p \<and>
            GetFloorID m = Some k \<and> floors_view s' k = Some (Asked (UserID m) (next_request s)) \<and>
            floor_or_free (floors_view s) k = Free)) \<and>
      (\<forall>k. Primitive m = PrimitiveFloorRequest \<longrightarrow> GetFloorID m = Some k \<longrightarrow>
         floor_or_free (floors_view s) k = Free \<longrightarrow> policy_of s k (UserID m) (next_request s) \<longrightarrow>
         snd (handleMessage e sid m s) \<noteq> None)"
  using handleMessage_handled [OF assms(1-3), of m] unfolding handled_def s'_def .

text \<open>
  After the sleep the floor is granted if it is asked for by then, by whomever; the pointer may
  be that of a floor the application has removed meanwhile.
\<close>

lemma wakeFloorRequest_refines:
  fixes e :: Env and m :: message and r :: u16 and sid :: nat
  assumes "server_inv s" "p < sv_fresh s" "fsm_FloorID (sv_floor_at s p) = k"
  defines "s' \<equiv> wakeFloorRequest e sid m (p, k, r) s"
  shows "server_inv s'" "grows s s'"
    "floors_view s' = floors_view s \<or>
     (\<exists>u r'. floors_view s k = Some (Asked u r') \<and> floors_view s' = (floors_view s)(k \<mapsto> Held u r'))"
proof -
  let ?f = "fst (Grant (env_now e) (sv_floor_at s p))"
  have fi: "floor_inv (sv_floor_at s p)" using assms(1) by (rule server_inv_floor)
  note fr = frame_wakeFloorRequest [of p e s sid m k r, folded s'_def]
  have inv: "server_inv (update_floor p ?f s)"
    by (rule server_inv_update_floor [OF assms(1) floor_inv_Grant [OF fi]]) simp
  with fr show "server_inv s'" by (rule server_inv_frame)
  show "grows s s'" by (rule grows_after_floor [OF fr]) simp
  show "floors_view s' = floors_view s \<or>
     (\<exists>u r'. floors_view s k = Some (Asked u r') \<and> floors_view s' = (floors_view s)(k \<mapsto> Held u r'))"
  proof (cases "lookup (sv_floors s) k = Some p")
    case True
    have "floors_view s' = (floors_view s)(k \<mapsto> floor_abs ?f)"
      using floors_view_frame [OF fr] floors_view_update_floor [OF _ True, of ?f] assms(1)
      by (simp add: server_inv_def)
    moreover have v: "floors_view s k = Some (floor_abs (sv_floor_at s p))"
      using True by (simp add: floors_view_def)
    moreover have "(floors_view s)(k \<mapsto> floor_abs (sv_floor_at s p)) = floors_view s"
      using v by (auto simp: fun_eq_iff)
    ultimately show ?thesis
      by (cases "floor_abs (sv_floor_at s p)") (simp_all add: floor_abs_Grant [where now' = 0])
  next
    case False
    have "floors_view (update_floor p ?f s) x = floors_view s x" for x
      using False assms(1,3) in_floors_view(3) [OF assms(1) lookup_in_set]
      by (cases "lookup (sv_floors s) x") (auto simp: floors_view_def)
    then show ?thesis using floors_view_frame [OF fr] by (simp add: fun_eq_iff)
  qed
qed

end
