(* ===== verification/Server_TCP.thy ===== *)
theory Server_TCP
  imports TCP_Refinement
begin

text \<open>
  The TCP server as a transition system. Each accepted connection has a read loop that handles
  one message at a time, to its end; only a floor request that will be granted sleeps before the
  grant, so that other connections, the application and the loss of connections come between.
  Every reachable state satisfies the invariant of the server, each message acts on the floors as
  specified, and a grant after the sleep goes to whoever asks for the floor by then.
\<close>

section \<open>Connections, sleeping handlers, the application\<close>

text \<open>
  \<open>ts_reading\<close> are the sessions whose read loop waits for a message, \<open>ts_sleeping\<close> those whose
  handler sleeps, with the message and the grant to finish. A connection is handled by its own
  goroutine, so a sleeping session reads nothing until it wakes.
\<close>

record TCPServer =
  ts_server :: Server
  ts_reading :: "nat list"
  ts_sleeping :: "(nat, message \<times> sleeping) gomap"

definition TCPServer_start :: "ServerConfig \<Rightarrow> Callbacks \<Rightarrow> TCPServer" where
  "TCPServer_start config callbacks =
     \<lparr>ts_server = NewServer config callbacks, ts_reading = [], ts_sleeping = []\<rparr>"

datatype tcp_action =
    Accept string
  | Arrive nat message
  | Wake nat
  | Lost nat
  | Keepalive nat u32 u16
  | Application action
  | CloseServer

text \<open>
  The parts of the state that a step changes: an accepted connection starts to read, a message
  may put its session to sleep, a lost connection stops reading and is forgotten.
\<close>

definition accept :: "Env \<Rightarrow> string \<Rightarrow> TCPServer \<Rightarrow> TCPServer" where
  "accept e remoteAddr ts =
     (let (s, sid) = handleConnection e remoteAddr (ts_server ts)
      in ts\<lparr>ts_server := s, ts_reading := sid # ts_reading ts\<rparr>)"

definition arrive :: "Env \<Rightarrow> nat \<Rightarrow> message \<Rightarrow> TCPServer \<Rightarrow> TCPServer" where
  "arrive e sid m ts =
     (case handleMessage e sid m (ts_server ts) of
        (s, None) \<Rightarrow> ts\<lparr>ts_server := s\<rparr>
      | (s, Some grant) \<Rightarrow>
          ts\<lparr>ts_server := s, ts_reading := filter (\<lambda>i. i \<noteq> sid) (ts_reading ts),
             ts_sleeping := put sid (m, grant) (ts_sleeping ts)\<rparr>)"

definition wake :: "Env \<Rightarrow> nat \<Rightarrow> TCPServer \<Rightarrow> TCPServer" where
  "wake e sid ts =
     (case lookup (ts_sleeping ts) sid of
        None \<Rightarrow> ts
      | Some (m, grant) \<Rightarrow>
          ts\<lparr>ts_server := wakeFloorRequest e sid m grant (ts_server ts),
             ts_reading := sid # ts_reading ts, ts_sleeping := del sid (ts_sleeping ts)\<rparr>)"

definition lose :: "nat \<Rightarrow> TCPServer \<Rightarrow> TCPServer" where
  "lose sid ts =
     ts\<lparr>ts_server := connectionClosed sid (ts_server ts),
        ts_reading := filter (\<lambda>i. i \<noteq> sid) (ts_reading ts)\<rparr>"

fun tcp_act :: "Env \<Rightarrow> tcp_action \<Rightarrow> TCPServer \<Rightarrow> TCPServer" where
  "tcp_act e (Accept remoteAddr) ts = accept e remoteAddr ts"
| "tcp_act e (Arrive sid m) ts = (if sid \<in> set (ts_reading ts) then arrive e sid m ts else ts)"
| "tcp_act e (Wake sid) ts = wake e sid ts"
| "tcp_act e (Lost sid) ts = (if sid \<in> set (ts_reading ts) then lose sid ts else ts)"
| "tcp_act e (Keepalive t conf u) ts = ts\<lparr>ts_server := sendKeepalive e t conf u (ts_server ts)\<rparr>"
| "tcp_act e (Application a) ts = ts\<lparr>ts_server := act e a (ts_server ts)\<rparr>"
| "tcp_act e CloseServer ts = ts\<lparr>ts_server := Server_Close e (ts_server ts)\<rparr>"

inductive tcp_reachable :: "ServerConfig \<Rightarrow> Callbacks \<Rightarrow> TCPServer \<Rightarrow> bool"
  for config :: ServerConfig and callbacks :: Callbacks where
  start: "tcp_reachable config callbacks (TCPServer_start config callbacks)"
| step: "tcp_reachable config callbacks ts \<Longrightarrow> env_ok e \<Longrightarrow>
     tcp_reachable config callbacks (tcp_act e a ts)"

inductive_cases tcp_reachableE: "tcp_reachable config callbacks ts"

section \<open>The invariant\<close>

definition sleeping_ok :: "Server \<Rightarrow> nat \<times> message \<times> sleeping \<Rightarrow> bool" where
  "sleeping_ok s x \<longleftrightarrow>
     (case x of (sid, m, p, k, r) \<Rightarrow>
        tcp_session s sid \<and> p < sv_fresh s \<and> fsm_FloorID (sv_floor_at s p) = k)"

definition tcp_inv :: "TCPServer \<Rightarrow> bool" where
  "tcp_inv ts \<longleftrightarrow>
     server_inv (ts_server ts) \<and> sv_udpListener (ts_server ts) = None \<and>
     (\<forall>sid \<in> set (ts_reading ts).
        tcp_session (ts_server ts) sid \<and> lookup (ts_sleeping ts) sid = None) \<and>
     (\<forall>x \<in> set (ts_sleeping ts). sleeping_ok (ts_server ts) x)"

lemma sleeping_ok_grows: "grows s s' \<Longrightarrow> sleeping_ok s x \<Longrightarrow> sleeping_ok s' x"
  using tcp_session_grows [of s s'] by (auto simp: sleeping_ok_def grows_def split: prod.splits)

lemma tcp_inv_server:
  assumes "tcp_inv ts" "server_inv s'" "grows (ts_server ts) s'"
  shows "tcp_inv (ts\<lparr>ts_server := s'\<rparr>)"
  using assms tcp_session_grows [OF assms(3)] sleeping_ok_grows [OF assms(3)]
  by (auto simp: tcp_inv_def grows_def)

lemma asleep_ok:
  assumes "tcp_inv ts" "lookup (ts_sleeping ts) sid = Some (m, p, k, r)"
  shows "tcp_session (ts_server ts) sid" "p < sv_fresh (ts_server ts)"
    "fsm_FloorID (sv_floor_at (ts_server ts) p) = k"
proof -
  have "sleeping_ok (ts_server ts) (sid, m, p, k, r)"
    using lookup_in_set [OF assms(2)] assms(1) unfolding tcp_inv_def by blast
  then show "tcp_session (ts_server ts) sid" "p < sv_fresh (ts_server ts)"
    "fsm_FloorID (sv_floor_at (ts_server ts) p) = k" by (simp_all add: sleeping_ok_def)
qed

lemma asleep_below:
  "tcp_inv ts \<Longrightarrow> lookup (ts_sleeping ts) sid = Some x \<Longrightarrow> sid < sv_fresh (ts_server ts)"
  using asleep_ok(1) [of ts sid] by (cases x) (simp add: tcp_session_def)

lemma tcp_inv_start: "tcp_inv (TCPServer_start config callbacks)"
  by (simp add: tcp_inv_def TCPServer_start_def server_inv_def floors_ok_def sessions_ok_def
      listener_ok_def link_below_def NewServer_def)

lemma handleConnection_ok:
  assumes "server_inv s" "handleConnection e remote s = (s', sid)"
  shows "server_inv s'" "grows s s'" "tcp_session s' sid" "floors_view s' = floors_view s"
    "sv_fresh s < sid"
proof -
  let ?t = "sv_fresh s"
  let ?s = "s\<lparr>sv_transport_at := (sv_transport_at s)(?t := NewTransport remote RolePassive), sv_fresh := Suc ?t\<rparr>"
  have n: "newSession e (Some ?t) None 0 remote ?s = (s', sid)"
    using assms(2) by (simp add: handleConnection_def Let_def)
  have lb: "link_below ?t (sv_session_at s x)" for x
    using assms(1) by (simp add: server_inv_def sessions_ok_def)
  have "peer ?s x = peer s x" for x
  proof (cases "se_Transport (sv_session_at s x)")
    case (Some t)
    then have "t \<noteq> ?t" using lb [of x] by (auto simp: link_below_def)
    with Some show ?thesis by (simp add: peer_def cong: option.case_cong)
  qed (simp add: peer_def cong: option.case_cong)
  then have peer: "peer ?s = peer s" by (rule ext)
  then have "sessions_ok ?s"
    by (rule sessions_ok_grow [of s, rotated 4]) (use assms(1) in \<open>simp_all add: server_inv_def\<close>)
  moreover have "listener_ok ?s"
    by (rule listener_ok_grow [of s]) (use assms(1) in \<open>simp_all add: server_inv_def\<close>)
  ultimately have inv: "server_inv ?s"
    using assms(1) by (auto simp: server_inv_def floors_ok_def)
  from newSession_ok [OF inv n] have ok: "server_inv s'" "sv_fresh s' = Suc sid" "sid = Suc ?t"
    "floors_view s' = floors_view ?s" "se_Transport (sv_session_at s' sid) = Some ?t"
    "se_UDPTransport (sv_session_at s' sid) = None" by (simp_all del: One_nat_def)
  show "server_inv s'" by (rule ok)
  have "grows s ?s" by (simp add: grows_def)
  with grows_newSession [OF n] show "grows s s'" using grows_trans by blast
  show "tcp_session s' sid" using ok(2,5,6) by (simp add: tcp_session_def)
  show "sv_fresh s < sid" using ok(3) by simp
  show "floors_view s' = floors_view s" using ok(4) by (simp add: floors_view_def fun_eq_iff)
qed

lemma server_inv_unregister:
  assumes "server_inv s"
  shows "server_inv (s\<lparr>sv_sessions := del r (sv_sessions s)\<rparr>)"
proof -
  let ?s = "s\<lparr>sv_sessions := del r (sv_sessions s)\<rparr>"
  have "peer ?s = peer s" by (auto simp: peer_def fun_eq_iff split: option.splits)
  moreover have "set (del r (sv_sessions s)) \<subseteq> set (sv_sessions s)" by (rule set_del)
  ultimately show ?thesis
    using assms
    by (auto simp: server_inv_def floors_ok_def sessions_ok_def listener_ok_def cong: option.case_cong)
qed

lemma connectionClosed_ok:
  assumes "server_inv s"
  shows "server_inv (connectionClosed sid s)" "grows s (connectionClosed sid s)"
    "floors_view (connectionClosed sid s) = floors_view s"
proof -
  have "server_inv (connectionClosed sid s) \<and> grows s (connectionClosed sid s) \<and>
    floors_view (connectionClosed sid s) = floors_view s"
  proof (cases "se_Transport (sv_session_at s sid)")
    case None
    with assms show ?thesis by (simp add: connectionClosed_def)
  next
    case (Some t)
    let ?s = "update_transport t (tr_Close (sv_transport_at s t)) s"
    let ?s' = "?s\<lparr>sv_sessions := del (tr_RemoteAddr (sv_transport_at s t)) (sv_sessions ?s)\<rparr>"
    have "server_inv ?s" by (rule server_inv_update_transport [OF assms]) simp
    then have inv: "server_inv ?s'" by (rule server_inv_unregister)
    have g: "grows s ?s'" by (simp add: grows_def update_transport_def)
    have v: "floors_view ?s' = floors_view s"
      by (simp add: floors_view_def update_transport_def fun_eq_iff)
    show ?thesis
      using Some server_inv_frame [OF frame_emit_if inv] grows_trans [OF g grows_frame [OF frame_emit_if]]
        floors_view_frame [OF frame_emit_if [of ?s']] v
      by (simp add: connectionClosed_def Let_def)
  qed
  then show "server_inv (connectionClosed sid s)" "grows s (connectionClosed sid s)"
    "floors_view (connectionClosed sid s) = floors_view s" by simp_all
qed

lemma closeSession_ok:
  assumes "server_inv s"
  shows "server_inv (closeSession sid s) \<and> grows s (closeSession sid s) \<and>
    floors_view (closeSession sid s) = floors_view s"
  using assms server_inv_update_transport [OF assms] grows_update_transport [of "tr_Close (sv_transport_at s t)" s t for t]
  by (simp add: closeSession_def split: option.splits)

lemma Server_Close_ok:
  assumes "server_inv s" "sv_udpListener s = None"
  shows "server_inv (Server_Close e s)" "grows s (Server_Close e s)"
    "floors_view (Server_Close e s) = floors_view s"
proof -
  have all: "server_inv (fold closeSession xs t) \<and> grows t (fold closeSession xs t) \<and>
      floors_view (fold closeSession xs t) = floors_view t" if "server_inv t" for xs t
    using that
  proof (induction xs arbitrary: t)
    case (Cons x xs)
    from closeSession_ok [OF Cons.prems, of x] Cons.IH [of "closeSession x t"] show ?case
      by (auto intro: grows_trans)
  qed simp
  have f: "frame s (tick s)" by simp
  let ?s = "fold closeSession (map snd (range_sessions e s)) (tick s)"
  from all [OF server_inv_frame [OF f assms(1)], of "map snd (range_sessions e s)"]
  have R: "server_inv ?s" "grows (tick s) ?s" "floors_view ?s = floors_view s"
    using floors_view_frame [OF f] by simp_all
  have "grows s ?s" using grows_trans [OF grows_frame [OF f] R(2)] .
  moreover from this have "sv_udpListener ?s = None" using assms(2) by (simp add: grows_def)
  ultimately show "server_inv (Server_Close e s)" "grows s (Server_Close e s)"
    "floors_view (Server_Close e s) = floors_view s"
    using R by (simp_all add: Server_Close_def Let_def)
qed

text \<open>The calls of the application; those of a client role need a UDP socket and do nothing here.\<close>

lemma act_without_listener:
  assumes "server_inv s" "sv_udpListener s = None" "\<And>k. a \<noteq> ApiReleaseFloor k"
  shows "server_inv (act e a s) \<and> grows s (act e a s)"
proof (cases a)
  case (Datagram remote data)
  then show ?thesis using assms by (simp add: receiveDatagram_def)
next
  case (ApiCreateFloor k)
  then show ?thesis using CreateFloor_inv [OF assms(1)] grows_CreateFloor by simp
next
  case (ApiReleaseFloor k)
  with assms(3) show ?thesis by blast
next
  case (ApiGrantFloor k u)
  have "grows s (fst (GrantFloor e k u s))"
    by (auto simp: GrantFloor_def split_beta Let_def split: option.splits intro!: grow)
  with ApiGrantFloor GrantFloor_ok [OF assms(1)] show ?thesis by simp
next
  case (ApiOnFloor p oper)
  then show ?thesis using server_inv_run_op [OF assms(1)] by (simp add: grow)
next
  case (ApiRegisterClient resolve addr u k v)
  then show ?thesis using assms by (simp add: RegisterClient_def)
next
  case (ApiBroadcastFloorStatus u k r st q)
  then show ?thesis
    using server_inv_frame [OF frame_BroadcastFloorStatus assms(1)] by (simp add: grow)
next
  case (ApiBroadcastFloorState k b st)
  then show ?thesis
    using server_inv_frame [OF frame_BroadcastFloorState assms(1)] by (simp add: grow)
next
  case (ApiNewUDPClient resolve addr config)
  then show ?thesis using assms by (simp add: NewUDPClient_def)
next
  case (ApiCloseUDPClient c)
  have "grows s (uc_Close c s)" by (simp add: uc_Close_def update_client_def Let_def grows_def)
  with ApiCloseUDPClient server_inv_uc_Close [OF assms(1)] show ?thesis by simp
qed

lemma tcp_inv_accept:
  assumes "tcp_inv ts"
  shows "tcp_inv (accept e remote ts)"
proof -
  have inv: "server_inv (ts_server ts)" using assms by (simp add: tcp_inv_def)
  obtain s sid where h: "handleConnection e remote (ts_server ts) = (s, sid)"
    by (cases "handleConnection e remote (ts_server ts)")
  note ok = handleConnection_ok [OF inv h]
  have "tcp_inv (ts\<lparr>ts_server := s\<rparr>)" by (rule tcp_inv_server [OF assms ok(1,2)])
  moreover have "lookup (ts_sleeping ts) sid = None"
    using asleep_below [OF assms, of sid] ok(5) by (cases "lookup (ts_sleeping ts) sid") auto
  ultimately show ?thesis using ok(3) by (simp add: accept_def h tcp_inv_def)
qed

lemma tcp_inv_arrive:
  assumes "tcp_inv ts" "env_ok e" "sid \<in> set (ts_reading ts)"
  shows "tcp_inv (arrive e sid m ts)"
proof -
  let ?s = "ts_server ts"
  have t: "tcp_session ?s sid" and inv: "server_inv ?s" using assms(1,3) by (simp_all add: tcp_inv_def)
  obtain s x where h: "handleMessage e sid m ?s = (s, x)" by (cases "handleMessage e sid m ?s")
  from handleMessage_refines [OF assms(2) inv t, of m] h have R: "server_inv s" "grows ?s s"
    and x: "\<And>g. x = Some g \<Longrightarrow> \<exists>p k r. g = (p, k, r) \<and> lookup (sv_floors s) k = Some p" by auto
  note ti = tcp_inv_server [OF assms(1) R]
  show ?thesis
  proof (cases x)
    case None
    with ti h show ?thesis by (simp add: arrive_def)
  next
    case (Some g)
    from x [OF this] obtain p k r where g: "g = (p, k, r)" "lookup (sv_floors s) k = Some p" by blast
    from in_floors_view(3) [OF R(1) lookup_in_set [OF g(2)]] floors_ok_entry [OF _ lookup_in_set [OF g(2)]]
    have "sleeping_ok s (sid, m, g)"
      using R t tcp_session_grows [OF R(2) t] by (simp add: sleeping_ok_def g server_inv_def)
    moreover have "set (put sid (m, g) (ts_sleeping ts)) \<subseteq> insert (sid, m, g) (set (ts_sleeping ts))"
      by (rule set_put)
    ultimately show ?thesis using ti h Some by (auto simp: arrive_def tcp_inv_def)
  qed
qed

lemma tcp_inv_wake:
  assumes "tcp_inv ts"
  shows "tcp_inv (wake e sid ts)"
proof (cases "lookup (ts_sleeping ts) sid")
  case None
  with assms show ?thesis by (simp add: wake_def)
next
  case (Some mg)
  obtain m p k r where mg: "mg = (m, p, k, r)" by (cases mg)
  have inv: "server_inv (ts_server ts)" using assms by (simp add: tcp_inv_def)
  note sl = asleep_ok [OF assms Some [unfolded mg]]
  note R = wakeFloorRequest_refines [OF inv sl(2,3), of e sid m r]
  note ti = tcp_inv_server [OF assms R(1,2)]
  have "set (del sid (ts_sleeping ts)) \<subseteq> set (ts_sleeping ts)" by (rule set_del)
  with ti tcp_session_grows [OF R(2) sl(1)] Some show ?thesis
    by (auto simp: wake_def mg tcp_inv_def)
qed

lemma tcp_inv_act:
  assumes "tcp_inv ts" "env_ok e"
  shows "tcp_inv (tcp_act e a ts)"
proof -
  let ?s = "ts_server ts"
  have inv: "server_inv ?s" "sv_udpListener ?s = None" using assms(1) by (simp_all add: tcp_inv_def)
  show ?thesis
  proof (cases a)
    case (Lost sid)
    have "tcp_inv (ts\<lparr>ts_server := connectionClosed sid ?s\<rparr>)"
      by (rule tcp_inv_server [OF assms(1) connectionClosed_ok(1,2) [OF inv(1)]])
    with assms(1) show ?thesis by (auto simp: Lost lose_def tcp_inv_def)
  next
    case (Keepalive t c u)
    have f: "frame ?s (sendKeepalive e t c u ?s)" by simp
    show ?thesis
      using tcp_inv_server [OF assms(1) server_inv_frame [OF f inv(1)] grows_frame [OF f]]
      by (simp add: Keepalive)
  next
    case (Application b)
    show ?thesis
    proof (cases "\<exists>k. b = ApiReleaseFloor k")
      case True
      then obtain k where "b = ApiReleaseFloor k" by blast
      with server_inv_ReleaseFloor [OF inv(1)] assms(1) show ?thesis
        by (auto simp: Application tcp_inv_def ReleaseFloor_def tcp_session_def sleeping_ok_def)
    next
      case False
      with act_without_listener [OF inv, of b e] tcp_inv_server [OF assms(1)] show ?thesis
        by (simp add: Application)
    qed
  next
    case CloseServer
    with Server_Close_ok [OF inv] tcp_inv_server [OF assms(1)] show ?thesis by simp
  qed (simp_all add: assms(1) tcp_inv_accept [OF assms(1)] tcp_inv_arrive [OF assms] tcp_inv_wake [OF assms(1)])
qed

lemma tcp_reachable_inv: "tcp_reachable config callbacks ts \<Longrightarrow> tcp_inv ts"
  by (induction rule: tcp_reachable.induct) (simp_all add: tcp_inv_start tcp_inv_act)

section \<open>What each step does to the floors\<close>

fun app_spec :: "action \<Rightarrow> (u16 \<Rightarrow> floor option) \<Rightarrow> (u16 \<Rightarrow> floor option) \<Rightarrow> bool" where
  "app_spec (ApiCreateFloor k) v v' \<longleftrightarrow> v' = v(k \<mapsto> floor_or_free v k)"
| "app_spec (ApiReleaseFloor k) v v' \<longleftrightarrow> v' = v(k := None)"
| "app_spec (ApiGrantFloor k u) v v' \<longleftrightarrow> v' = v(k := map_option (abs_op (OpGrant 0)) (v k))"
| "app_spec (ApiOnFloor p oper) v v' \<longleftrightarrow> v' = v \<or> (\<exists>k. v' = v(k := map_option (abs_op oper) (v k)))"
| "app_spec _ v v' \<longleftrightarrow> v' = v"

lemma floors_view_op:
  assumes "server_inv s"
  shows "floors_view (update_floor p (run_op oper (sv_floor_at s p)) s) = floors_view s \<or>
    (\<exists>k. lookup (sv_floors s) k = Some p \<and>
       floors_view (update_floor p (run_op oper (sv_floor_at s p)) s) =
         (floors_view s)(k := map_option (abs_op oper) (floors_view s k)))"
proof (cases "\<exists>k. lookup (sv_floors s) k = Some p")
  case True
  then obtain k where k: "lookup (sv_floors s) k = Some p" by blast
  have "floors_view (update_floor p (run_op oper (sv_floor_at s p)) s) =
      (floors_view s)(k \<mapsto> floor_abs (run_op oper (sv_floor_at s p)))"
    using assms k by (intro floors_view_update_floor) (simp_all add: server_inv_def)
  with k floor_abs_run_op [OF server_inv_floor [OF assms]] show ?thesis
    by (intro disjI2 exI [of _ k]) (simp add: floors_view_def)
next
  case False
  have "floors_view (update_floor p (run_op oper (sv_floor_at s p)) s) k = floors_view s k" for k
    using False by (cases "lookup (sv_floors s) k") (auto simp: floors_view_def)
  then show ?thesis by (simp add: fun_eq_iff)
qed

lemma act_app_spec:
  assumes "server_inv s" "sv_udpListener s = None"
  shows "app_spec a (floors_view s) (floors_view (act e a s))"
proof (cases a)
  case (Datagram remote data)
  then show ?thesis using assms by (simp add: receiveDatagram_def)
next
  case (ApiCreateFloor k)
  show ?thesis
  proof (cases "lookup (sv_floors s) k")
    case None
    then show ?thesis
      using CreateFloor_ok(2) [OF assms(1) None]
      by (cases "CreateFloor e k s") (simp add: ApiCreateFloor floor_or_free_def floors_view_def)
  next
    case (Some p)
    then show ?thesis
      by (auto simp: ApiCreateFloor CreateFloor_def floor_or_free_def floors_view_def fun_eq_iff)
  qed
next
  case (ApiReleaseFloor k)
  then show ?thesis by (simp add: ReleaseFloor_def floors_view_def fun_eq_iff)
next
  case (ApiGrantFloor k u)
  show ?thesis
  proof (cases "lookup (sv_floors s) k")
    case None
    then show ?thesis
      by (auto simp: ApiGrantFloor GrantFloor_def GetFloor_def floors_view_def fun_eq_iff)
  next
    case (Some p)
    have "floors_view (update_floor p (fst (Grant (env_now e) (sv_floor_at s p))) s) =
        (floors_view s)(k \<mapsto> floor_abs (fst (Grant (env_now e) (sv_floor_at s p))))"
      using assms Some by (intro floors_view_update_floor) (simp_all add: server_inv_def)
    with Some show ?thesis
      by (simp add: ApiGrantFloor GrantFloor_def GetFloor_def split_beta Let_def
          floor_abs_Grant [where now' = 0]) (simp add: floors_view_def)
  qed
next
  case (ApiOnFloor p oper)
  with floors_view_op [OF assms(1), of p oper] show ?thesis by auto
next
  case (ApiRegisterClient resolve addr u k v)
  then show ?thesis using assms by (simp add: RegisterClient_def)
next
  case (ApiNewUDPClient resolve addr config)
  then show ?thesis using assms by (simp add: NewUDPClient_def)
next
  case (ApiCloseUDPClient c)
  then show ?thesis
    by (simp add: uc_Close_def update_client_def Let_def floors_view_def fun_eq_iff)
qed (simp_all add: floors_view_frame)

text \<open>One step of the TCP server, on the floors.\<close>

definition tcp_spec :: "TCPServer \<Rightarrow> tcp_action \<Rightarrow> (u16 \<Rightarrow> floor option) \<Rightarrow> bool" where
  "tcp_spec ts a v' \<longleftrightarrow>
     (let s = ts_server ts; v = floors_view s in
      case a of
        Arrive sid m \<Rightarrow>
          if sid \<in> set (ts_reading ts) then tcp_serves (policy_of s) (next_request s) m v v' else v' = v
      | Wake sid \<Rightarrow>
          v' = v \<or>
          (\<exists>m p k r u' r'. lookup (ts_sleeping ts) sid = Some (m, p, k, r) \<and>
             v k = Some (Asked u' r') \<and> v' = v(k \<mapsto> Held u' r'))
      | Application b \<Rightarrow> app_spec b v v'
      | _ \<Rightarrow> v' = v)"

lemma tcp_act_refines:
  assumes "tcp_inv ts" "env_ok e"
  shows "tcp_spec ts a (floors_view (ts_server (tcp_act e a ts)))"
proof -
  let ?s = "ts_server ts"
  have inv: "server_inv ?s" "sv_udpListener ?s = None" using assms(1) by (simp_all add: tcp_inv_def)
  show ?thesis
  proof (cases a)
    case (Accept remote)
    show ?thesis
      using handleConnection_ok(4) [OF inv(1)]
      by (cases "handleConnection e remote ?s") (simp add: Accept accept_def tcp_spec_def Let_def)
  next
    case (Arrive sid m)
    show ?thesis
    proof (cases "sid \<in> set (ts_reading ts)")
      case True
      then have t: "tcp_session ?s sid" using assms(1) by (simp add: tcp_inv_def)
      show ?thesis
        using handleMessage_refines [OF assms(2) inv(1) t, of m] True
        by (auto simp: Arrive arrive_def tcp_spec_def Let_def split: prod.splits option.splits)
    qed (simp add: Arrive tcp_spec_def Let_def)
  next
    case (Wake sid)
    show ?thesis
    proof (cases "lookup (ts_sleeping ts) sid")
      case None
      then show ?thesis by (simp add: Wake wake_def tcp_spec_def Let_def)
    next
      case (Some mg)
      obtain m p k r where mg: "mg = (m, p, k, r)" by (cases mg)
      note sl = asleep_ok [OF assms(1) Some [unfolded mg]]
      from wakeFloorRequest_refines(3) [OF inv(1) sl(2,3), of e sid m r] Some show ?thesis
        by (auto simp: Wake wake_def tcp_spec_def Let_def mg)
    qed
  next
    case (Lost sid)
    then show ?thesis
      using connectionClosed_ok(3) [OF inv(1)] by (simp add: lose_def tcp_spec_def Let_def)
  next
    case (Keepalive t c u)
    then show ?thesis by (simp add: tcp_spec_def Let_def floors_view_frame)
  next
    case (Application b)
    then show ?thesis using act_app_spec [OF inv] by (simp add: tcp_spec_def Let_def)
  next
    case CloseServer
    then show ?thesis using Server_Close_ok(3) [OF inv] by (simp add: tcp_spec_def Let_def)
  qed
qed

end
