(* ===== verification/TCP_Runs.thy ===== *)
theory TCP_Runs
  imports Server_TCP
begin

text \<open>
  Runs of the TCP server: what spares a request or a held floor, which lasts through every run that
  does, and that a request whose handler sleeps gets its floor when the handler wakes.
\<close>

section \<open>Runs\<close>

definition tcp_run :: "(Env \<times> tcp_action) list \<Rightarrow> TCPServer \<Rightarrow> TCPServer" where
  "tcp_run = fold (\<lambda>(e, a). tcp_act e a)"

lemma tcp_run_simps [simp]:
  "tcp_run [] ts = ts" "tcp_run ((e, a) # as) ts = tcp_run as (tcp_act e a ts)"
  "tcp_run (as @ bs) ts = tcp_run bs (tcp_run as ts)"
  by (simp_all add: tcp_run_def)

definition all_actions :: "(tcp_action \<Rightarrow> bool) \<Rightarrow> (Env \<times> tcp_action) list \<Rightarrow> bool" where
  "all_actions P as \<longleftrightarrow> (\<forall>(e, a) \<in> set as. env_ok e \<and> P a)"

lemma tcp_run_invariant:
  assumes "tcp_inv ts" "all_actions P as" "Q ts"
    and "\<And>ts e a. tcp_inv ts \<Longrightarrow> env_ok e \<Longrightarrow> P a \<Longrightarrow> Q ts \<Longrightarrow> Q (tcp_act e a ts)"
  shows "tcp_inv (tcp_run as ts) \<and> Q (tcp_run as ts)"
  using assms(1-3)
proof (induction as arbitrary: ts)
  case (Cons x as)
  obtain e a where x: "x = (e, a)" by (cases x)
  from Cons.prems(2) x have e: "env_ok e" "P a" "all_actions P as" by (auto simp: all_actions_def)
  from Cons.IH [OF tcp_inv_act [OF Cons.prems(1) e(1)] e(3) assms(4) [OF Cons.prems(1) e(1,2) Cons.prems(3)]]
  show ?case by (simp add: x)
qed simp

text \<open>
  What may take a request or a floor from user \<open>u\<close>: the user's own release or Goodbye, the release
  of user 0, and the application when it revokes, denies, releases or removes a floor.
\<close>

fun spares :: "u16 \<Rightarrow> tcp_action \<Rightarrow> bool" where
  "spares u (Arrive sid m) \<longleftrightarrow> \<not> gives_up u m"
| "spares u (Application (ApiReleaseFloor k)) \<longleftrightarrow> False"
| "spares u (Application (ApiOnFloor p oper)) \<longleftrightarrow> \<not> takes_away u oper \<and> oper \<noteq> OpDeny"
| "spares u _ \<longleftrightarrow> True"

lemma abs_op_spares:
  "\<not> takes_away u oper \<Longrightarrow> oper \<noteq> OpDeny \<Longrightarrow>
     abs_op oper (Held u r) = Held u r \<and> abs_op oper (Asked u r) \<in> {Asked u r, Held u r}"
  by (cases oper) auto

lemma app_spec_spares:
  assumes "app_spec a v v'" "spares u (Application a)"
  shows "v k = Some (Held u r) \<Longrightarrow> v' k = Some (Held u r)"
    "v k = Some (Asked u r) \<Longrightarrow> v' k \<in> {Some (Asked u r), Some (Held u r)}"
  using assms abs_op_spares [of u]
  by (cases a; fastforce simp: floor_or_free_def split: if_splits)+

lemma serves_asked:
  assumes "serves policy r' m v v'" "v k = Some (Asked u r)" "\<not> gives_up u m"
    and "Primitive m \<noteq> PrimitiveFloorRequest"
  shows "v' k = Some (Asked u r)"
  using assms(1)
  by (cases rule: serves_cases) (use assms(2-4) in \<open>auto simp: gives_up_def floor_or_free_def leave_def\<close>)

lemma tcp_serves_spares:
  assumes "tcp_serves policy r' m v v'" "\<not> gives_up u m"
  shows "v k = Some (Held u r) \<Longrightarrow> v' k = Some (Held u r)"
    "v k = Some (Asked u r) \<Longrightarrow> v' k = Some (Asked u r)"
  using assms serves_held [OF _ _ assms(2)] serves_asked [OF _ _ assms(2)]
  by (auto simp: tcp_serves_def floor_or_free_def split: if_splits option.splits)

lemma tcp_spec_spares:
  assumes "tcp_spec ts a v'" "spares u a" "v = floors_view (ts_server ts)"
  shows "v k = Some (Held u r) \<Longrightarrow> v' k = Some (Held u r)"
    "v k = Some (Asked u r) \<Longrightarrow> v' k \<in> {Some (Asked u r), Some (Held u r)}"
proof -
  have "(v k = Some (Held u r) \<longrightarrow> v' k = Some (Held u r)) \<and>
    (v k = Some (Asked u r) \<longrightarrow> v' k \<in> {Some (Asked u r), Some (Held u r)})"
  proof (cases a)
    case (Arrive sid m)
    then show ?thesis
      using assms tcp_serves_spares [of _ _ m v v' u k r]
      by (auto simp: tcp_spec_def Let_def split: if_splits)
  next
    case (Application b)
    then show ?thesis
      using assms app_spec_spares [of b v v' u k r] by (auto simp: tcp_spec_def Let_def)
  qed (use assms in \<open>auto simp: tcp_spec_def Let_def\<close>)
  then show "v k = Some (Held u r) \<Longrightarrow> v' k = Some (Held u r)"
    "v k = Some (Asked u r) \<Longrightarrow> v' k \<in> {Some (Asked u r), Some (Held u r)}" by simp_all
qed

text \<open>A sleeping handler sleeps on, and its floor stays in the map.\<close>

lemma grows_tcp_act:
  assumes "tcp_inv ts" "env_ok e" "\<And>k. a \<noteq> Application (ApiReleaseFloor k)"
  shows "grows (ts_server ts) (ts_server (tcp_act e a ts))"
proof -
  let ?s = "ts_server ts"
  have inv: "server_inv ?s" "sv_udpListener ?s = None" using assms(1) by (simp_all add: tcp_inv_def)
  show ?thesis
  proof (cases a)
    case (Accept remote)
    show ?thesis
      using handleConnection_ok(2) [OF inv(1)]
      by (cases "handleConnection e remote ?s") (simp add: Accept accept_def)
  next
    case (Arrive sid m)
    show ?thesis
    proof (cases "sid \<in> set (ts_reading ts)")
      case True
      then have t: "tcp_session ?s sid" using assms(1) by (simp add: tcp_inv_def)
      show ?thesis
        using handleMessage_refines [OF assms(2) inv(1) t, of m] True
        by (auto simp: Arrive arrive_def split: prod.splits option.splits)
    qed (simp add: Arrive)
  next
    case (Wake sid)
    show ?thesis
    proof (cases "lookup (ts_sleeping ts) sid")
      case (Some mg)
      obtain m p k r where mg: "mg = (m, p, k, r)" by (cases mg)
      from wakeFloorRequest_refines(2) [OF inv(1) asleep_ok(2,3) [OF assms(1) Some [unfolded mg]]] Some
      show ?thesis by (simp add: Wake wake_def mg)
    qed (simp add: Wake wake_def)
  next
    case (Lost sid)
    then show ?thesis using connectionClosed_ok(2) [OF inv(1)] by (simp add: lose_def)
  next
    case (Keepalive t c u)
    then show ?thesis by (simp add: grow)
  next
    case (Application b)
    then show ?thesis using act_without_listener [OF inv] assms(3) by simp
  next
    case CloseServer
    then show ?thesis using Server_Close_ok(2) [OF inv] by simp
  qed
qed

lemma sleeps_on:
  assumes "tcp_inv ts" "lookup (ts_sleeping ts) sid = Some x" "a \<noteq> Wake sid"
  shows "lookup (ts_sleeping (tcp_act e a ts)) sid = Some x"
proof -
  have "sid \<notin> set (ts_reading ts)" using assms(1,2) by (auto simp: tcp_inv_def)
  with assms(2,3) show ?thesis
    by (cases a)
       (auto simp: accept_def arrive_def wake_def lose_def split: prod.splits option.splits)
qed

lemma tcp_reachable_run:
  "tcp_reachable config callbacks ts \<Longrightarrow> all_actions P as \<Longrightarrow> tcp_reachable config callbacks (tcp_run as ts)"
proof (induction as arbitrary: ts)
  case (Cons x as)
  obtain e a where x: "x = (e, a)" by (cases x)
  from Cons.prems x have "env_ok e" "all_actions P as" by (auto simp: all_actions_def)
  from Cons.IH [OF tcp_reachable.step [OF Cons.prems(1) this(1)] this(2)] show ?case by (simp add: x)
qed simp

text \<open>
  The request of a sleeping handler: the floor is still asked for by its user, or has been granted
  to it, and the handler still holds the pointer the map has.
\<close>

definition request_alive :: "nat \<Rightarrow> message \<Rightarrow> nat \<Rightarrow> u16 \<Rightarrow> u16 \<Rightarrow> TCPServer \<Rightarrow> bool" where
  "request_alive sid m p k r ts \<longleftrightarrow>
     lookup (ts_sleeping ts) sid = Some (m, p, k, r) \<and> lookup (sv_floors (ts_server ts)) k = Some p \<and>
     floors_view (ts_server ts) k \<in> {Some (Asked (UserID m) r), Some (Held (UserID m) r)}"

lemma request_alive_act:
  assumes "tcp_inv ts" "env_ok e" "spares (UserID m) a" "a \<noteq> Wake sid" "request_alive sid m p k r ts"
  shows "request_alive sid m p k r (tcp_act e a ts)"
proof -
  have "a \<noteq> Application (ApiReleaseFloor k)" for k using assms(3) by auto
  from grows_tcp_act [OF assms(1,2) this] assms(5)
  have "lookup (sv_floors (ts_server (tcp_act e a ts))) k = Some p"
    by (simp add: grows_def request_alive_def)
  moreover have "floors_view (ts_server (tcp_act e a ts)) k
      \<in> {Some (Asked (UserID m) r), Some (Held (UserID m) r)}"
    using tcp_spec_spares [OF tcp_act_refines [OF assms(1,2)] assms(3) refl, of k r] assms(5)
    by (auto simp: request_alive_def)
  ultimately show ?thesis
    using sleeps_on [OF assms(1) _ assms(4)] assms(5) by (simp add: request_alive_def)
qed

lemma request_alive_wake:
  assumes "tcp_inv ts" "request_alive sid m p k r ts"
  shows "floors_view (ts_server (tcp_act e (Wake sid) ts)) k = Some (Held (UserID m) r)"
proof -
  let ?s = "ts_server ts" and ?f = "fst (Grant (env_now e) (sv_floor_at (ts_server ts) p))"
  have fl: "floors_ok ?s" "lookup (sv_floors ?s) k = Some p"
    using assms by (simp_all add: tcp_inv_def server_inv_def request_alive_def)
  have "floors_view (wakeFloorRequest e sid m (p, k, r) ?s) k = Some (floor_abs ?f)"
    using floors_view_frame [OF frame_wakeFloorRequest] floors_view_update_floor [OF fl] by simp
  moreover have "floor_abs (sv_floor_at ?s p) \<in> {Asked (UserID m) r, Held (UserID m) r}"
    using assms(2) by (auto simp: request_alive_def floors_view_def)
  then have "floor_abs ?f = Held (UserID m) r" by (auto simp: floor_abs_Grant [where now' = 0])
  ultimately show ?thesis using assms(2) by (simp add: wake_def request_alive_def)
qed

lemma arrive_sleeps:
  assumes "tcp_inv ts" "env_ok e" "sid \<in> set (ts_reading ts)"
    and "Primitive m = PrimitiveFloorRequest" "GetFloorID m = Some k"
    and "floor_or_free (floors_view (ts_server ts)) k = Free"
    and "policy_of (ts_server ts) k (UserID m) (next_request (ts_server ts))"
  shows "\<exists>p. request_alive sid m p k (next_request (ts_server ts)) (tcp_act e (Arrive sid m) ts)"
proof -
  let ?s = "ts_server ts"
  have inv: "server_inv ?s" and t: "tcp_session ?s sid" using assms(1,3) by (simp_all add: tcp_inv_def)
  note R = handleMessage_refines [OF assms(2) inv t, of m]
  from R assms(4-7) obtain g where g: "snd (handleMessage e sid m ?s) = Some g" by auto
  with R assms(5) obtain p where p: "g = (p, k, next_request ?s)"
    "lookup (sv_floors (fst (handleMessage e sid m ?s))) k = Some p"
    "floors_view (fst (handleMessage e sid m ?s)) k = Some (Asked (UserID m) (next_request ?s))"
    by auto
  obtain s' where "handleMessage e sid m ?s = (s', Some g)"
    using g by (cases "handleMessage e sid m ?s") auto
  with p assms(3) show ?thesis by (auto simp: request_alive_def arrive_def)
qed

section \<open>Properties\<close>

text \<open>Two connections; the first asks for floor 3 as user 4.\<close>

definition two_connections :: TCPServer where
  "two_connections =
     tcp_run [(plain_env, Accept ''10.0.0.1:5070''), (plain_env, Accept ''10.0.0.2:5070'')]
       (TCPServer_start (DefaultServerConfig 1) no_callbacks)"

lemma two_connections_reachable: "tcp_reachable (DefaultServerConfig 1) no_callbacks two_connections"
  unfolding two_connections_def
  by (rule tcp_reachable_run [OF tcp_reachable.start, where P = "\<lambda>_. True"])
     (simp add: all_actions_def plain_env_ok)

lemma two_connections_reading: "ts_reading two_connections = [3, 1]"
  by code_simp

text \<open>C17. The TCP server never panics: in every state reachable by connections that come and go,
  messages of any content on any of them, handlers that sleep and wake in any order, keepalives
  and calls of the application, no handler has panicked, the server's invariant holds, and every
  session that reads or sleeps has its transport.\<close>
theorem tcp_server_never_panics:
  assumes "tcp_reachable config callbacks ts"
  shows "\<not> sv_panicked (ts_server ts) \<and> server_inv (ts_server ts) \<and>
    (\<forall>sid. sid \<in> set (ts_reading ts) \<or> lookup (ts_sleeping ts) sid \<noteq> None \<longrightarrow>
       se_Transport (sv_session_at (ts_server ts) sid) \<noteq> None)"
  using tcp_reachable_inv [OF assms] asleep_ok(1) [OF tcp_reachable_inv [OF assms]]
  by (force simp: tcp_inv_def server_inv_def tcp_session_def)

theorem tcp_server_never_panics_witness:
  "\<not> sv_panicked (ts_server (tcp_act plain_env (Arrive 1 requestMessage) two_connections))"
  using tcp_server_never_panics [OF tcp_reachable.step [OF two_connections_reachable plain_env_ok]]
  by blast

text \<open>C5. Refinement over TCP: every step acts on the floors as specified: a message as over UDP,
  save that a granted request is only pending until its handler wakes; a waking handler turns a
  pending request for its floor into a grant or changes nothing; the application's calls do what
  they say; connections, keepalives and closing the server change no floor.\<close>
theorem tcp_steps_refine_floor_control:
  assumes "tcp_reachable config callbacks ts" "env_ok e"
  shows "tcp_spec ts a (floors_view (ts_server (tcp_act e a ts)))"
  using tcp_act_refines [OF tcp_reachable_inv [OF assms(1)] assms(2)] .

theorem tcp_steps_refine_floor_control_witness:
  "tcp_spec two_connections (Arrive 1 requestMessage)
     (floors_view (ts_server (tcp_act plain_env (Arrive 1 requestMessage) two_connections)))"
  by (rule tcp_steps_refine_floor_control [OF two_connections_reachable plain_env_ok])

text \<open>Mutual exclusion over TCP: a held floor stays with its holder and request through any run
  of steps in which the holder does not give it up, user 0 sends no release, and the application
  does not take it away.\<close>
lemma tcp_held_floor_survives:
  assumes "tcp_reachable config callbacks ts" "floors_view (ts_server ts) k = Some (Held u r)"
    and "all_actions (spares u) as"
  shows "floors_view (ts_server (tcp_run as ts)) k = Some (Held u r)"
  using tcp_run_invariant [OF tcp_reachable_inv [OF assms(1)] assms(3),
      of "\<lambda>ts. floors_view (ts_server ts) k = Some (Held u r)"]
    tcp_spec_spares(1) [OF tcp_act_refines _ refl] assms(2) by blast

definition floor_held_by_4 :: TCPServer where
  "floor_held_by_4 = tcp_run [(plain_env, Arrive 1 requestMessage), (plain_env, Wake 1)] two_connections"

lemma tcp_held_floor_survives_witness:
  "floors_view (ts_server (tcp_run [(plain_env, Arrive 3 (requestMessage\<lparr>UserID := 5\<rparr>)),
     (plain_env, Lost 1)] floor_held_by_4)) 3 = Some (Held 4 1)"
proof (rule tcp_held_floor_survives)
  show "tcp_reachable (DefaultServerConfig 1) no_callbacks floor_held_by_4"
    unfolding floor_held_by_4_def
    by (rule tcp_reachable_run [OF two_connections_reachable, where P = "\<lambda>_. True"])
       (simp add: all_actions_def plain_env_ok)
  show "floors_view (ts_server floor_held_by_4) 3 = Some (Held 4 1)" by code_simp
qed (simp add: all_actions_def plain_env_ok gives_up_def requestMessage_def)

text \<open>C11. A granted request is granted in the end: when the policy grants a request for a free floor,
  the floor is pending for its sender while the handler sleeps, and once the handler has woken,
  after any run of other steps that spares the request, the sender holds the floor under that
  request.\<close>
theorem tcp_request_gets_floor:
  assumes "tcp_reachable config callbacks ts" "env_ok e" "sid \<in> set (ts_reading ts)"
    and "Primitive m = PrimitiveFloorRequest" "GetFloorID m = Some k"
    and "floor_or_free (floors_view (ts_server ts)) k = Free"
    and "policy_of (ts_server ts) k (UserID m) (next_request (ts_server ts))"
    and "all_actions (\<lambda>a. spares (UserID m) a \<and> a \<noteq> Wake sid) as" "env_ok e'"
  shows "floors_view (ts_server (tcp_run ((e, Arrive sid m) # as @ [(e', Wake sid)]) ts)) k
    = Some (Held (UserID m) (next_request (ts_server ts)))"
proof -
  note inv = tcp_reachable_inv [OF assms(1)]
  from arrive_sleeps [OF inv assms(2-7)] obtain p where
    "request_alive sid m p k (next_request (ts_server ts)) (tcp_act e (Arrive sid m) ts)" by blast
  from tcp_run_invariant [where Q = "request_alive sid m p k (next_request (ts_server ts))",
      OF tcp_inv_act [OF inv assms(2)] assms(8) this] request_alive_act
  have "tcp_inv (tcp_run as (tcp_act e (Arrive sid m) ts)) \<and>
      request_alive sid m p k (next_request (ts_server ts)) (tcp_run as (tcp_act e (Arrive sid m) ts))"
    by blast
  then have "floors_view (ts_server (tcp_act e' (Wake sid) (tcp_run as (tcp_act e (Arrive sid m) ts)))) k
      = Some (Held (UserID m) (next_request (ts_server ts)))"
    by (blast intro: request_alive_wake)
  then show ?thesis by (simp del: tcp_act.simps)
qed

theorem tcp_request_gets_floor_witness:
  "floors_view (ts_server (tcp_run [(plain_env, Arrive 1 requestMessage),
     (plain_env, Arrive 3 (requestMessage\<lparr>UserID := 5\<rparr>)), (plain_env, Wake 1)] two_connections)) 3
     = Some (Held 4 1)"
proof -
  have "GetFloorID requestMessage = Some 3" "floor_or_free (floors_view (ts_server two_connections)) 3 = Free"
    "policy_of (ts_server two_connections) 3 4 (next_request (ts_server two_connections))"
    "next_request (ts_server two_connections) = 1" by code_simp+
  with tcp_request_gets_floor [OF two_connections_reachable plain_env_ok, of 1 requestMessage 3
      "[(plain_env, Arrive 3 (requestMessage\<lparr>UserID := 5\<rparr>))]" plain_env]
  show ?thesis
    by (simp add: two_connections_reading requestMessage_def all_actions_def plain_env_ok gives_up_def)
qed

end
