(* ===== verification/TCP_Grants.thy ===== *)
theory TCP_Grants
  imports TCP_Runs Server_Responses
begin

text \<open>
  What the TCP server tells a client about its floor request, before the sleep and after it, and
  what goes wrong when the request is given up during the sleep: the grant goes to whoever asks
  for the floor by then, the client whose handler wakes is told that it has the floor, and the one
  that has it is told nothing.
\<close>

section \<open>Sending on a connection\<close>

definition tcp_open :: "Server \<Rightarrow> nat \<Rightarrow> bool" where
  "tcp_open s sid \<longleftrightarrow>
     tcp_session s sid \<and>
     (case se_Transport (sv_session_at s sid) of
        Some t \<Rightarrow> \<not> tr_closed (sv_transport_at s t) | None \<Rightarrow> False)"

text \<open>The session can be written to, in the version it is spoken to.\<close>

definition can_tell :: "Env \<Rightarrow> nat \<Rightarrow> u8 \<Rightarrow> Server \<Rightarrow> bool" where
  "can_tell e sid v s \<longleftrightarrow>
     writes_succeed e \<and> tcp_open s sid \<and> supported v \<and> ProtocolVersion_of (sv_session_at s sid) = v"

text \<open>
  Between two states exactly these messages are sent, all to one address: one that satisfies each
  predicate of the list, in order.
\<close>

definition told :: "string \<Rightarrow> (message \<Rightarrow> bool) list \<Rightarrow> Server \<Rightarrow> Server \<Rightarrow> bool" where
  "told r Ps s s' \<longleftrightarrow>
     (\<exists>bss. outbox s' = outbox s @ map (Pair r) bss \<and>
        list_all2 (\<lambda>bs P. \<exists>m'. Decode bs = Ok m' \<and> P m') bss Ps)"

lemma told_none: "told r [] s s' \<longleftrightarrow> outbox s' = outbox s"
  by (simp add: told_def)

lemma told_same: "told r Ps s s' \<Longrightarrow> outbox t = outbox s \<Longrightarrow> outbox t' = outbox s' \<Longrightarrow> told r Ps t t'"
  by (simp add: told_def)

lemma told_trans: "told r Ps s t \<Longrightarrow> told r Qs t u \<Longrightarrow> told r (Ps @ Qs) s u"
  unfolding told_def by (metis (no_types, lifting) append.assoc list_all2_appendI map_append)

lemma told_mono: "told r [P] s s' \<Longrightarrow> (\<And>m. P m \<Longrightarrow> Q m) \<Longrightarrow> told r [Q] s s'"
  unfolding told_def by (fastforce simp: list_all2_Cons2)

lemma send_told:
  assumes "can_tell e sid v s" "sendable m" "peer s sid = Some r"
  shows "told r [\<lambda>m'. m' = decodedMessage (m\<lparr>Version := v\<rparr>)] s (send e sid m s)"
proof -
  obtain t where t: "se_Transport (sv_session_at s sid) = Some t" "\<not> tr_closed (sv_transport_at s t)"
      "se_UDPTransport (sv_session_at s sid) = None"
    using assms(1) by (auto simp: can_tell_def tcp_open_def tcp_session_def split: option.splits)
  have v: "ProtocolVersion_of (sv_session_at s sid) = v" "supported v" "\<And>n. env_write e n"
    using assms(1) by (auto simp: can_tell_def writes_succeed_def)
  have "wfMessage (m\<lparr>Version := v\<rparr>)"
    using assms(2) v(2) by (auto simp: wfMessage_def sendable_def supported_def payloadSize_def)
  from Decode_Encode_wf [OF this] obtain bs where
    bs: "Encode (m\<lparr>Version := v\<rparr>) = Ok (withPayloadLength (m\<lparr>Version := v\<rparr>), bs)"
      "Decode bs = Ok (decodedMessage (m\<lparr>Version := v\<rparr>))" by blast
  have "r = tr_RemoteAddr (sv_transport_at s t)" using assms(3) t by (simp add: peer_def)
  with t v bs have "outbox (send e sid m s) = outbox s @ map (Pair r) [bs]"
    by (simp add: send_def tr_SendMessage_def Let_def outbox_emit)
  with bs(2) show ?thesis unfolding told_def by (intro exI [of _ "[bs]"]) simp
qed

text \<open>What the frame of a handler keeps; the version is the session's record of its client.\<close>

lemma can_tell_frame:
  assumes "can_tell e sid v s" "frame s s'"
    and "ssm_ClientVersion (se_StateMachine (sv_session_at s' sid))
      = ssm_ClientVersion (se_StateMachine (sv_session_at s sid))"
  shows "can_tell e sid v s'"
proof -
  note ff = frame_fields [OF assms(2)]
  have "ProtocolVersion_of (sv_session_at s' sid) = ProtocolVersion_of (sv_session_at s sid)"
    by (simp add: ProtocolVersion_of_def ff assms(3))
  moreover have "tcp_open s' sid = tcp_open s sid"
    by (simp add: tcp_open_def tcp_session_def ff cong: option.case_cong)
  ultimately show ?thesis using assms(1) by (simp add: can_tell_def)
qed

lemma can_tell_update_floor [simp]: "can_tell e sid v (update_floor p f s) = can_tell e sid v s"
  by (simp add: can_tell_def tcp_open_def tcp_session_def cong: option.case_cong)

section \<open>The messages\<close>

definition reply_of :: "message \<Rightarrow> message \<Rightarrow> bool" where
  "reply_of req m' \<longleftrightarrow> ConferenceID m' = ConferenceID req \<and> TransactionID m' = TransactionID req \<and>
     UserID m' = UserID req \<and> Version m' = Version req"

definition says_status :: "message \<Rightarrow> u16 \<Rightarrow> u16 \<Rightarrow> RequestStatus \<Rightarrow> message \<Rightarrow> bool" where
  "says_status req k r st m' \<longleftrightarrow> reply_of req m' \<and> tells_status k r st m'"

definition says_error :: "message \<Rightarrow> ErrorCode \<Rightarrow> string \<Rightarrow> message \<Rightarrow> bool" where
  "says_error req c info m' \<longleftrightarrow> reply_of req m' \<and> tells_error c info m'"

lemma statusMessage_fields:
  "Attributes (statusMessage c t u r st k) = [\<lparr>Type = AttrFloorRequestInfo, Length = 20,
      Value = floorReqInfoAttr r st k, RawTLV = True\<rparr>]"
  "Primitive (statusMessage c t u r st k) = PrimitiveFloorRequestStatus"
  "Reserved (statusMessage c t u r st k) = 0" "ConferenceID (statusMessage c t u r st k) = c"
  "TransactionID (statusMessage c t u r st k) = t" "UserID (statusMessage c t u r st k) = u"
  by (simp_all add: statusMessage_def AddFloorRequestInformationRFC4582_def Let_def)

lemma sendFloorStatus_told:
  assumes "can_tell e sid (Version m) s" "peer s sid = Some r0"
  shows "told r0 [says_status m k r st] s (sendFloorStatus e sid m k r st q s)"
proof -
  let ?m = "statusMessage (ConferenceID m) (TransactionID m) (UserID m) r st k"
  have "sendable ?m"
    by (simp add: sendable_def statusMessage_fields floorInfo_wf payloadSize_def attrSize_def)
  from send_told [OF assms(1) this assms(2)]
  have "told r0 [\<lambda>m'. m' = decodedMessage (?m\<lparr>Version := Version m\<rparr>)] s
      (sendFloorStatus e sid m k r st q s)"
    by (simp add: sendFloorStatus_def statusMessage_def)
  moreover have "says_status m k r st (decodedMessage (?m\<lparr>Version := Version m\<rparr>))"
    using accessors_decodedInfo [of "decodedMessage (?m\<lparr>Version := Version m\<rparr>)" r st k]
    by (simp add: says_status_def reply_of_def tells_status_def statusMessage_fields decoded_floorInfo)
  ultimately show ?thesis by (auto elim: told_mono)
qed

lemma sendError_told:
  assumes "can_tell e sid (Version m) s" "peer s sid = Some r0" "info \<noteq> []" "length info \<le> 253"
  shows "told r0 [says_error m c info] s (sendError e sid m c info s)"
proof -
  let ?m = "errorMessage False m c info"
  have fields: "Attributes ?m = Attributes (errorMessage True m c info)" "Reserved ?m = 0"
      "Primitive ?m = PrimitiveError" "ConferenceID ?m = ConferenceID m"
      "TransactionID ?m = TransactionID m" "UserID ?m = UserID m"
    using assms(3) by (simp_all add: errorMessage_def Let_def AddErrorCode_def AddErrorInfo_def)
  have "payloadSize ?m = payloadSize (errorMessage True m c info)"
    by (simp add: payloadSize_def fields)
  then have "sendable ?m"
    using sendable_error [OF assms(3,4), of m c] by (simp add: sendable_def fields)
  from send_told [OF assms(1) this assms(2)]
  have "told r0 [\<lambda>m'. m' = decodedMessage (?m\<lparr>Version := Version m\<rparr>)] s (send e sid ?m s)" .
  moreover have "says_error m c info (decodedMessage (?m\<lparr>Version := Version m\<rparr>))"
    using error_told [OF assms(3), of c "Version m" m]
    by (simp add: says_error_def reply_of_def fields tells_error_def GetErrorCode_def GetErrorInfo_def
        GetAttribute_def errorMessage_fields [OF assms(3)])
  ultimately have "told r0 [says_error m c info] s (send e sid ?m s)" by (auto elim: told_mono)
  then show ?thesis by (simp add: sendError_def Let_def told_def)
qed

section \<open>The handler of a floor request\<close>

text \<open>What the client is told at once; \<open>a\<close> is what the floor was.\<close>

definition first_answers :: "message \<Rightarrow> bool \<Rightarrow> u16 \<Rightarrow> u16 \<Rightarrow> floor \<Rightarrow> (message \<Rightarrow> bool) list" where
  "first_answers m grant k r a =
     (if a \<noteq> Free then [\<lambda>m'. \<exists>info. says_error m ErrorUnauthorizedOperation info m']
      else if grant then [says_status m k r RequestStatusPending]
      else [says_status m k r RequestStatusPending, says_status m k r RequestStatusDenied])"

lemma send_version [simp]:
  "ssm_ClientVersion (se_StateMachine (sv_session_at (send e sid m s) x))
     = ssm_ClientVersion (se_StateMachine (sv_session_at s x))"
  by (simp add: send_def sendUDP_def Let_def callMessageOut_def emit_if_def emit_def tick_def panic_def
      split: option.splits res.splits prod.splits)

lemma answerFloorRequest_told:
  assumes "can_tell e sid (Version m) s" "peer s sid = Some r0" "floor_inv (sv_floor_at s p)"
  shows "told r0 (first_answers m g k r (floor_abs (sv_floor_at s p))) s
    (fst (answerFloorRequest e sid m p k r g s))"
proof -
  let ?a = "floor_abs (sv_floor_at s p)"
  obtain f status err where R: "Request (UserID m) r (requestPriority m) (sv_floor_at s p) = (f, status, err)"
    by (cases "Request (UserID m) r (requestPriority m) (sv_floor_at s p)") auto
  let ?s1 = "update_floor p f s"
  have c1: "can_tell e sid (Version m) ?s1" "peer ?s1 sid = Some r0" "outbox ?s1 = outbox s"
    using assms(1,2) by simp_all
  show ?thesis
  proof (cases err)
    case (Some x)
    with R have "?a \<noteq> Free"
      using Request_error_iff [of "UserID m" r "requestPriority m" "sv_floor_at s p"] by auto
    moreover have "told r0 [\<lambda>m'. \<exists>info. says_error m ErrorUnauthorizedOperation info m'] ?s1
        (sendError e sid m ErrorUnauthorizedOperation (floor_error_Error x) ?s1)"
      by (rule told_mono [OF sendError_told [OF c1(1,2) floor_error_text]]) blast
    ultimately have "told r0 (first_answers m g k r ?a) s (emit_if b (FloorDenied k (UserID m) r)
        (sendError e sid m ErrorUnauthorizedOperation (floor_error_Error x) ?s1))" for b
      by (intro told_same [OF _ c1(3) [symmetric]]) (simp_all add: first_answers_def told_def)
    then show ?thesis by (simp add: answerFloorRequest_def R Some Let_def)
  next
    case None
    with R have free: "?a = Free"
      using Request_error_iff [of "UserID m" r "requestPriority m" "sv_floor_at s p"] by simp
    from R None have st: "status = RequestStatusPending" "snd (Deny f) = None"
      using Request_ok_pending Deny_pending by metis+
    let ?s2 = "sendFloorStatus e sid m k r status 0 ?s1"
    have t1: "told r0 [says_status m k r RequestStatusPending] ?s1 ?s2"
      using sendFloorStatus_told [OF c1(1,2)] st by simp
    have fr: "frame ?s1 ?s2" by simp
    show ?thesis
    proof (cases g)
      case True
      with t1 R None st free show ?thesis
        by (simp add: answerFloorRequest_def Let_def first_answers_def told_def)
    next
      case False
      obtain d where d: "Deny f = (d, None)" using st(2) by (cases "Deny f") auto
      let ?s3 = "update_floor p d ?s2"
      have "can_tell e sid (Version m) ?s3"
        using can_tell_frame [OF c1(1) fr] by (simp add: sendFloorStatus_def)
      moreover have "peer ?s3 sid = Some r0" using peer_frame [OF fr] c1(2) by simp
      ultimately have "told r0 [says_status m k r RequestStatusDenied] ?s3
          (sendFloorStatus e sid m k r RequestStatusDenied 0 ?s3)"
        by (rule sendFloorStatus_told)
      from told_trans [OF told_same [OF t1, of s ?s3] this]
      have "told r0 [says_status m k r RequestStatusPending, says_status m k r RequestStatusDenied] s
          (sendFloorStatus e sid m k r RequestStatusDenied 0 ?s3)" by simp
      moreover have "sv_floor_at ?s2 p = f" using frame_fields(7) [OF fr] by simp
      ultimately show ?thesis
        using R None st free d False
        by (simp add: answerFloorRequest_def Let_def first_answers_def told_def)
    qed
  qed
qed

definition request_answers ::
    "(u16 \<Rightarrow> u16 \<Rightarrow> u16 \<Rightarrow> bool) \<Rightarrow> u16 \<Rightarrow> message \<Rightarrow> (u16 \<Rightarrow> floor option) \<Rightarrow> (message \<Rightarrow> bool) list" where
  "request_answers policy r m v =
     (case GetFloorID m of
        None \<Rightarrow> [says_error m ErrorInvalidFloorID ''No floor ID in request'']
      | Some k \<Rightarrow> first_answers m (policy k (UserID m) r) k r (floor_or_free v k))"

lemma handleFloorRequest_told:
  assumes "can_tell e sid (Version m) s" "peer s sid = Some r0" "server_inv s"
  shows "told r0 (request_answers (policy_of s) (next_request s) m (floors_view s)) s
    (fst (handleFloorRequest e sid m s))"
proof (cases "GetFloorID m")
  case None
  with sendError_told [OF assms(1,2)] show ?thesis
    by (simp add: handleFloorRequest_def request_answers_def)
next
  case (Some k)
  obtain s1 p where F: "floorFor e k s = (s1, p)" by (cases "floorFor e k s")
  note ok = floorFor_ok [OF assms(3) F] and fs = floorFor_fields [OF F]
  define r where "r = next_request s"
  define g where "g = policy_of s k (UserID m) r"
  define s3 where "s3 = fst (decideGrant k (UserID m) r (fst (nextTxID_Add s1)))"
  have f: "frame s1 s3"
    unfolding s3_def by (rule frame_trans [OF frame_nextTxID frame_decideGrant])
  have same: "sv_session_at s3 = sv_session_at s" "sv_nextTxID s1 + 1 = sv_nextTxID s + 1"
    by (simp_all add: s3_def decideGrant_def nextTxID_Add_def emit_def Let_def fs split: option.splits)
  have s': "handleFloorRequest e sid m s = answerFloorRequest e sid m p k r g s3"
    using Some F
    by (simp add: handleFloorRequest_def s3_def g_def r_def nextTxID_Add_def Let_def split_beta
        next_request_def fs decideGrant_policy)
       (simp add: policy_of_def fs cong: option.case_cong)
  have at: "sv_floor_at s3 p = sv_floor_at s1 p" "sv_udp_at s3 = sv_udp_at s"
    "sv_transport_at s3 = sv_transport_at s" "sv_fresh s \<le> sv_fresh s3"
    using frame_fields [OF f] fs by simp_all
  have "can_tell e sid (Version m) s3"
    using assms(1) at(4)
    by (auto simp: can_tell_def tcp_open_def tcp_session_def same at cong: option.case_cong
        intro: less_le_trans [OF _ at(4)])
  moreover have "peer s3 sid = Some r0"
    using assms(2) by (simp add: peer_def same at cong: option.case_cong)
  ultimately have "told r0 (first_answers m g k r (floor_abs (sv_floor_at s3 p))) s3
      (fst (answerFloorRequest e sid m p k r g s3))"
    by (rule answerFloorRequest_told) (simp add: at server_inv_floor [OF ok(1)])
  moreover have "outbox s = outbox s3" using outbox_log [OF fs(11)] by (simp add: s3_def)
  ultimately show ?thesis
    using Some ok(3) told_same
    by (simp add: s' at request_answers_def g_def r_def floor_or_free_def)
qed

text \<open>A handler that wakes.\<close>

lemma wakeFloorRequest_told:
  assumes "can_tell e sid (Version m) s" "peer s sid = Some r0"
  shows "told r0
    (if fsm_CurrentState (sv_floor_at s p) = RequestStatusPending
     then [says_status m k r RequestStatusGranted] else []) s (wakeFloorRequest e sid m (p, k, r) s)"
proof -
  obtain f err where G: "Grant (env_now e) (sv_floor_at s p) = (f, err)"
    by (cases "Grant (env_now e) (sv_floor_at s p)")
  have err: "err = None \<longleftrightarrow> fsm_CurrentState (sv_floor_at s p) = RequestStatusPending"
    using G by (auto simp: Grant_def split: if_splits)
  show ?thesis
  proof (cases err)
    case None
    have "told r0 [says_status m k r RequestStatusGranted] (update_floor p f s)
        (sendFloorStatus e sid m k r RequestStatusGranted 0 (update_floor p f s))"
      by (rule sendFloorStatus_told) (use assms in simp_all)
    with None G err show ?thesis by (simp add: wakeFloorRequest_def Let_def told_def)
  next
    case (Some x)
    with G err show ?thesis by (simp add: wakeFloorRequest_def told_none)
  qed
qed

text \<open>A message on a connection, and a handler that wakes, in the transition system.\<close>

definition conn_open :: "nat \<Rightarrow> string \<Rightarrow> TCPServer \<Rightarrow> bool" where
  "conn_open sid r ts \<longleftrightarrow> tcp_open (ts_server ts) sid \<and> peer (ts_server ts) sid = Some r"

lemma arrive_told:
  assumes "tcp_inv ts" "sid \<in> set (ts_reading ts)" "conn_open sid r0 ts"
    and "writes_succeed e" "supported (Version m)" "Primitive m = PrimitiveFloorRequest"
  shows "told r0 (request_answers (policy_of (ts_server ts)) (next_request (ts_server ts)) m
      (floors_view (ts_server ts))) (ts_server ts) (ts_server (tcp_act e (Arrive sid m) ts))"
proof -
  let ?s = "ts_server ts"
  have ses: "tcp_session ?s sid" using assms(3) by (simp add: conn_open_def tcp_open_def)
  define s1 where "s1 = received_TCP e sid m ?s"
  have f: "frame ?s s1" by (simp add: s1_def)
  note ff = frame_fields [OF f] and pol = received_TCP_policy [of e sid m ?s, folded s1_def]
  have ver: "ssm_ClientVersion (se_StateMachine (sv_session_at s1 sid)) = Version m"
    by (simp add: s1_def received_TCP_def Let_def callMessageIn_def emit_if_def emit_def update_StateMachine_def
        split: option.split)
  have "Version m \<noteq> 0" using assms(5) by (auto simp: supported_def)
  then have "ProtocolVersion_of (sv_session_at s1 sid) = Version m"
    by (simp add: ProtocolVersion_of_def ver word_greater_zero_iff)
  moreover have "tcp_open s1 sid"
    using assms(3) by (simp add: conn_open_def tcp_open_def tcp_session_def ff cong: option.case_cong)
  ultimately have can: "can_tell e sid (Version m) s1" using assms(4,5) by (simp add: can_tell_def)
  have "peer s1 sid = Some r0" using assms(3) peer_frame [OF f] by (simp add: conn_open_def)
  from handleFloorRequest_told [OF can this server_inv_frame [OF f]] assms(1)
  have "told r0 (request_answers (policy_of ?s) (next_request ?s) m (floors_view ?s)) s1
      (fst (handleFloorRequest e sid m s1))"
    by (simp add: pol floors_view_frame [OF f] tcp_inv_def)
  then have T: "told r0 (request_answers (policy_of ?s) (next_request ?s) m (floors_view ?s)) ?s
      (fst (handleFloorRequest e sid m s1))"
    by (rule told_same) (simp_all add: s1_def received_TCP_def Let_def split: option.split)
  have "handleMessage e sid m ?s = handleFloorRequest e sid m s1"
    using received_TCP_dispatch [OF ses, of e m] assms(6) by (simp add: s1_def)
  then have "ts_server (tcp_act e (Arrive sid m) ts) = fst (handleFloorRequest e sid m s1)"
    using assms(2) by (auto simp: arrive_def split: prod.splits option.splits)
  with T show ?thesis by simp
qed

text \<open>
  The version a session is spoken to in is that of its last message, which for a sleeping session is
  the request.
\<close>

lemma wake_told:
  assumes "lookup (ts_sleeping ts) sid = Some (m, p, k, r)" "conn_open sid r0 ts"
    and "writes_succeed e" "supported (Version m)"
    and "ProtocolVersion_of (sv_session_at (ts_server ts) sid) = Version m"
  shows "told r0
    (if fsm_CurrentState (sv_floor_at (ts_server ts) p) = RequestStatusPending
     then [says_status m k r RequestStatusGranted] else [])
    (ts_server ts) (ts_server (tcp_act e (Wake sid) ts))"
proof -
  have can: "can_tell e sid (Version m) (ts_server ts)"
    using assms(2-5) by (simp add: can_tell_def conn_open_def)
  have "peer (ts_server ts) sid = Some r0" using assms(2) by (simp add: conn_open_def)
  from wakeFloorRequest_told [OF can this, of p k r] assms(1) show ?thesis by (simp add: wake_def)
qed

lemma pending_view:
  assumes "server_inv s" "lookup (sv_floors s) k = Some p"
  shows "fsm_CurrentState (sv_floor_at s p) = RequestStatusPending \<longleftrightarrow>
    (\<exists>u r. floors_view s k = Some (Asked u r))"
  using assms(2) server_inv_floor [OF assms(1), of p]
  by (auto simp: floors_view_def floor_abs_def floor_inv_def)

section \<open>Properties\<close>

text \<open>C14. Over TCP a floor request gets its answers and nothing else is sent: an error without a
  floor or for a floor in use; Pending when the policy grants a free floor, and Granted follows
  when its handler wakes; Pending and then Denied when the policy refuses. Each carries the
  identifiers and the version of the request.\<close>
theorem tcp_request_answered:
  assumes "tcp_reachable config callbacks ts" "sid \<in> set (ts_reading ts)" "conn_open sid r0 ts"
    and "writes_succeed e" "supported (Version m)" "Primitive m = PrimitiveFloorRequest"
  shows "told r0 (request_answers (policy_of (ts_server ts)) (next_request (ts_server ts)) m
      (floors_view (ts_server ts))) (ts_server ts) (ts_server (tcp_act e (Arrive sid m) ts))"
  using arrive_told [OF tcp_reachable_inv [OF assms(1)] assms(2-6)] .

definition tcpRequest :: message where
  "tcpRequest = requestMessage\<lparr>Version := 1\<rparr>"

theorem tcp_request_answered_witness:
  "told ''10.0.0.1:5070'' [says_status tcpRequest 3 1 RequestStatusPending]
     (ts_server two_connections)
     (ts_server (tcp_act plain_env (Arrive 1 tcpRequest) two_connections))"
proof -
  have "conn_open 1 ''10.0.0.1:5070'' two_connections" by code_simp
  moreover have "GetFloorID tcpRequest = Some 3"
    "floor_or_free (floors_view (ts_server two_connections)) 3 = Free"
    "policy_of (ts_server two_connections) 3 4 1"
    "next_request (ts_server two_connections) = 1" "UserID tcpRequest = 4" by code_simp+
  moreover have "supported (Version tcpRequest)" "Primitive tcpRequest = PrimitiveFloorRequest"
    by (simp_all add: tcpRequest_def requestMessage_def supported_def)
  moreover have "writes_succeed plain_env" by (simp add: writes_succeed_def plain_env_def)
  ultimately show ?thesis
    using tcp_request_answered [OF two_connections_reachable, of 1 "''10.0.0.1:5070''" plain_env tcpRequest]
    by (simp add: two_connections_reading request_answers_def first_answers_def
        del: One_nat_def)
qed

text \<open>C28. A grant after the sleep serves whoever asks by then: when the first handler's request was
  given up and another user's request for the same floor is pending, the first handler grants the
  floor to that user but tells its own client that it has the floor; the second handler, waking
  later, tells its client nothing, although that one holds the floor.\<close>
theorem late_grant_serves_another:
  fixes e1 e2 :: Env
  assumes "tcp_reachable config callbacks ts" "sid1 \<noteq> sid2"
    and "lookup (ts_sleeping ts) sid1 = Some (m1, p, k, r1)"
    and "lookup (ts_sleeping ts) sid2 = Some (m2, p, k, r2)"
    and "lookup (sv_floors (ts_server ts)) k = Some p"
    and "floors_view (ts_server ts) k = Some (Asked (UserID m2) r2)"
    and "conn_open sid1 a1 ts" "writes_succeed e1" "env_ok e1" "supported (Version m1)"
    and "ProtocolVersion_of (sv_session_at (ts_server ts) sid1) = Version m1"
  defines "ts1 \<equiv> tcp_act e1 (Wake sid1) ts"
  defines "ts2 \<equiv> tcp_act e2 (Wake sid2) ts1"
  shows "told a1 [says_status m1 k r1 RequestStatusGranted] (ts_server ts) (ts_server ts1) \<and>
    floors_view (ts_server ts1) k = Some (Held (UserID m2) r2) \<and>
    outbox (ts_server ts2) = outbox (ts_server ts1) \<and>
    floors_view (ts_server ts2) k = Some (Held (UserID m2) r2)"
proof -
  note inv = tcp_reachable_inv [OF assms(1)]
  have si: "server_inv (ts_server ts)" using inv by (simp add: tcp_inv_def)
  have alive: "request_alive sid2 m2 p k r2 ts" using assms(4-6) by (simp add: request_alive_def)
  have pend: "fsm_CurrentState (sv_floor_at (ts_server ts) p) = RequestStatusPending"
    using pending_view [OF si assms(5)] assms(6) by blast
  have inv1: "tcp_inv ts1" unfolding ts1_def by (rule tcp_inv_act [OF inv assms(9)])
  have alive1: "request_alive sid2 m2 p k r2 ts1"
    unfolding ts1_def using assms(2) by (intro request_alive_act [OF inv assms(9) _ _ alive]) simp_all
  have "floors_view (ts_server ts1) k = Some (floor_abs (fst (Grant (env_now e1) (sv_floor_at (ts_server ts) p))))"
    using floors_view_frame [OF frame_wakeFloorRequest [of p e1 "ts_server ts" sid1 m1 k r1]]
      floors_view_update_floor [OF _ assms(5)] si assms(3)
    by (simp add: ts1_def wake_def server_inv_def)
  then have held: "floors_view (ts_server ts1) k = Some (Held (UserID m2) r2)"
    using assms(5,6) by (simp add: floor_abs_Grant [where now' = 0] floors_view_def)
  have si1: "server_inv (ts_server ts1)" and l1: "lookup (sv_floors (ts_server ts1)) k = Some p"
    and s1: "lookup (ts_sleeping ts1) sid2 = Some (m2, p, k, r2)"
    using inv1 alive1 by (simp_all add: tcp_inv_def request_alive_def)
  have "fsm_CurrentState (sv_floor_at (ts_server ts1) p) \<noteq> RequestStatusPending"
    using pending_view [OF si1 l1] held by simp
  then have "snd (Grant (env_now e2) (sv_floor_at (ts_server ts1) p)) \<noteq> None"
    by (simp add: Grant_def)
  then have "ts_server ts2 = ts_server ts1"
    using s1 by (auto simp: ts2_def wake_def wakeFloorRequest_def split: prod.splits)
  with wake_told [OF assms(3,7,8,10,11)] pend held show ?thesis by (simp add: ts1_def)
qed

text \<open>User 4 asks on the first connection and releases on the second, where user 5 asks then.\<close>

definition overtaken :: TCPServer where
  "overtaken =
     tcp_run [(plain_env, Arrive 1 tcpRequest),
       (plain_env, Arrive 3 (tcpRequest\<lparr>Primitive := PrimitiveFloorRelease\<rparr>)),
       (plain_env, Arrive 3 (tcpRequest\<lparr>UserID := 5\<rparr>))] two_connections"

lemma overtaken_reachable: "tcp_reachable (DefaultServerConfig 1) no_callbacks overtaken"
  unfolding overtaken_def
  by (rule tcp_reachable_run [OF two_connections_reachable, where P = "\<lambda>_. True"])
     (simp add: all_actions_def plain_env_ok)

theorem late_grant_serves_another_witness:
  "told ''10.0.0.1:5070'' [says_status tcpRequest 3 1 RequestStatusGranted]
     (ts_server overtaken) (ts_server (tcp_act plain_env (Wake 1) overtaken)) \<and>
   floors_view (ts_server (tcp_act plain_env (Wake 1) overtaken)) 3 = Some (Held 5 2)"
proof -
  have "lookup (ts_sleeping overtaken) 1 = Some (tcpRequest, 4, 3, 1)"
    "lookup (ts_sleeping overtaken) 3 = Some (tcpRequest\<lparr>UserID := 5\<rparr>, 4, 3, 2)"
    "lookup (sv_floors (ts_server overtaken)) 3 = Some 4"
    "floors_view (ts_server overtaken) 3 = Some (Asked 5 2)"
    "conn_open 1 ''10.0.0.1:5070'' overtaken"
    "ProtocolVersion_of (sv_session_at (ts_server overtaken) 1) = 1" by code_simp+
  moreover have "Version tcpRequest = 1" "supported 1" "writes_succeed plain_env"
    by (simp_all add: tcpRequest_def supported_def writes_succeed_def plain_env_def)
  ultimately show ?thesis
    using late_grant_serves_another [OF overtaken_reachable, of 1 3 tcpRequest 4 3 1
        "tcpRequest\<lparr>UserID := 5\<rparr>" 2 "''10.0.0.1:5070''" plain_env] plain_env_ok by simp
qed

end
