(* ===== verification/Handler_Effects.thy ===== *)
theory Handler_Effects
  imports Server_Answers
begin

text \<open>
  What every handler is made of, as an interface: a property of the server's state that survives the
  elementary effects (the log, the counters, a floor, a session's state machine, sending a message that
  can be encoded) survives every handler of both transports. Two such properties are the types of
  the wire and the isolation of connections.
\<close>

section \<open>The messages of the handlers can be encoded\<close>

lemma sendable_plain:
  assumes "Reserved m \<in> {0, 0x10}" "Attributes m = map (\<lambda>(t, v). plain t v) tvs"
    and "\<forall>(t, v) \<in> set tvs. length v \<le> 253 \<and> unat t < 128" "length tvs \<le> 3"
  shows "sendable m"
proof -
  have wf: "list_all wfAttr (Attributes m)"
    using assms(2,3) by (auto simp: list_all_iff intro!: plain_wf)
  have "attrSize a \<le> 258" if "a \<in> set (Attributes m)" for a
    using that assms(2,3) plain_size by fastforce
  then have "sum_list (map attrSize (Attributes m)) \<le> sum_list (map (\<lambda>_. 258) (Attributes m))"
    by (intro sum_list_mono)
  also have "\<dots> = length tvs * 258" by (simp only: sum_list_triv assms(2) length_map of_nat_id)
  also have "\<dots> \<le> 3 * 258" using assms(4) by simp
  finally show ?thesis using assms(1) wf by (simp add: sendable_def payloadSize_def)
qed

lemma sendable_bare [simp]: "sendable (NewMessage p c t u)" "sendable (SetResponse True (NewMessage p c t u))"
  by (simp_all add: sendable_def payloadSize_def)

lemma sendable_info [simp]:
  "sendable (AddFloorRequestInformationRFC4582 r st k (NewMessage p c t u))"
  "sendable (AddFloorRequestInformationRFC4582 r st k (SetResponse True (NewMessage p c t u)))"
  by (simp_all add: sendable_def AddFloorRequestInformationRFC4582_def Let_def payloadSize_def attrSize_def
      floorInfo_wf)

lemma sendable_statusMessage [simp]: "sendable (statusMessage c t u r st k)"
  by (simp add: statusMessage_def)

lemma sendable_errorMessage [simp]:
  assumes "length info \<le> 253"
  shows "sendable (errorMessage b req c info)"
proof (cases "info = []")
  case True
  then show ?thesis
    by (intro sendable_plain [of _ "[(AttrErrorCode, [c])]"])
       (auto simp: errorMessage_def Let_def AddErrorCode_def plain_def)
next
  case False
  with assms show ?thesis
    by (intro sendable_plain [of _ "[(AttrErrorCode, [c]), (AttrErrorInfo, bytes_of info)]"])
       (auto simp: errorMessage_def Let_def AddErrorCode_def AddErrorInfo_def plain_def bytes_of_def)
qed

lemma sendable_hello [simp]:
  "Reserved m \<in> {0, 0x10} \<Longrightarrow> Attributes m = [] \<Longrightarrow>
     sendable (AddSupportedAttributes helloAttributes (AddSupportedPrimitives helloPrimitives m))"
  by (rule sendable_plain [of _ "[(AttrSupportedPrimitives, helloPrimitives), (AttrSupportedAttributes, helloAttributes)]"])
     (auto simp: AddSupportedAttributes_def AddSupportedPrimitives_def plain_def helloPrimitives_def helloAttributes_def)

lemma sendable_query [simp]:
  "Reserved m \<in> {0, 0x10} \<Longrightarrow> Attributes m = [] \<Longrightarrow>
     sendable (AddRequestStatus st 0 (AddFloorRequestID r (AddFloorID k m)))"
  by (rule sendable_plain [of _ "[(AttrFloorID, PutUint16 k), (AttrFloorRequestID, PutUint16 r), (AttrRequestStatus, [st, 0])]"])
     (auto simp: AddRequestStatus_def AddFloorRequestID_def AddFloorID_def plain_def)

lemma release_text:
  "floorToRelease e m s = (s1, Fail (c, info)) \<Longrightarrow> length info \<le> 253"
  using floorToRelease_text [of e m s c info] by simp

section \<open>Elementary effects\<close>

locale handler_effects =
  fixes P :: "Server \<Rightarrow> bool"
  assumes quiet: "P s \<Longrightarrow> sent_by ev = None \<Longrightarrow> P (emit ev s)"
    and ticks: "P s \<Longrightarrow> P (tick s)"
    and panics: "P s \<Longrightarrow> P (panic s)"
    and counts: "P s \<Longrightarrow> P (s\<lparr>sv_nextTxID := n\<rparr>)"
    and floors: "P s \<Longrightarrow> P (update_floor p f s)"
    and new_floor: "P s \<Longrightarrow> P (s\<lparr>sv_fresh := Suc (sv_fresh s), sv_floors := fs\<rparr>)"
    and registers: "P s \<Longrightarrow> P (s\<lparr>sv_sessions := ss\<rparr>)"
    and machine: "P s \<Longrightarrow> (\<And>x. ssm_ClientVersion (g x) = ssm_ClientVersion x) \<Longrightarrow>
      P (update_StateMachine sid g s)"
    and sends: "P s \<Longrightarrow> sendable m \<Longrightarrow> P (send e sid m s)"
    and sends_UDP: "P s \<Longrightarrow> sendable m \<Longrightarrow> P (sendUDP e sid m s)"
    and sends_raw: "P s \<Longrightarrow> v = ProtocolVersion_of (sv_session_at s sid) \<Longrightarrow>
      P (sendRaw e sid (BuildFloorStatusMessage v c t u k r st) s)"
begin

lemma quiet_if: "P s \<Longrightarrow> sent_by ev = None \<Longrightarrow> P (emit_if b ev s)"
  by (simp add: emit_if_def quiet)

lemma counted: "P s \<Longrightarrow> P (fst (nextTxID_Add s))"
  by (simp add: nextTxID_Add_def Let_def counts)

lemma calls: "P s \<Longrightarrow> P (callMessageIn remote m s)" "P s \<Longrightarrow> P (callMessageOut remote m s)"
  by (simp_all add: callMessageIn_def callMessageOut_def quiet_if)

lemma decides: "P s \<Longrightarrow> P (fst (decideGrant k u r s))"
  by (simp add: decideGrant_def quiet split: option.splits)

lemma machines:
  "P s \<Longrightarrow> P (update_StateMachine sid (SetState now st) s)"
  "P s \<Longrightarrow> P (update_StateMachine sid (UpdateActivity now) s)"
  "P s \<Longrightarrow> P (update_StateMachine sid (\<lambda>x. x\<lparr>ssm_ConferenceID := c, ssm_UserID := u\<rparr>) s)"
  "P s \<Longrightarrow> P (recordSupported sid m s)"
  by (auto intro!: machine
      simp: recordSupported_def Let_def SetState_def UpdateActivity_def SetSupportedPrimitives_def
        SetSupportedAttributes_def split: option.splits)

lemmas elementary = ticks panics floors registers counted calls decides machines sends sends_UDP quiet_if

lemma folds: "P s \<Longrightarrow> (\<And>x s. P s \<Longrightarrow> P (f x s)) \<Longrightarrow> P (fold f xs s)"
  by (induction xs arbitrary: s) simp_all

lemma senders:
  "P s \<Longrightarrow> P (sendUDPFloorStatusResponse e sid m k r st s)"
  "P s \<Longrightarrow> P (sendFloorStatus e sid m k r st q s)"
  "P s \<Longrightarrow> length info \<le> 253 \<Longrightarrow> P (sendUDPError e sid m c info s)"
  "P s \<Longrightarrow> length info \<le> 253 \<Longrightarrow> P (sendError e sid m c info s)"
  "P s \<Longrightarrow> P (notifySessionUDP e ex u k r st sid s)"
  "P s \<Longrightarrow> P (notifySession e ex u k r st sid s)"
  by (auto simp: sendUDPFloorStatusResponse_def sendFloorStatus_def sendUDPError_def sendError_def Let_def
      notifySessionUDP_def notifySession_def split_beta intro!: elementary)

lemma broadcasts:
  "P s \<Longrightarrow> P (broadcastFloorStatusUDP e ex u k r st q s)"
  "P s \<Longrightarrow> P (broadcastFloorStatus e ex u k r st q s)"
  "P s \<Longrightarrow> P (BroadcastFloorStatus e u k r st q s)"
  by (auto simp: broadcastFloorStatusUDP_def broadcastFloorStatus_def BroadcastFloorStatus_def
      intro!: folds ticks senders)

lemma sends_state: "P s \<Longrightarrow> P (sendFloorState e sid k st s)"
proof -
  have "sv_session_at (fst (nextTxID_Add s)) = sv_session_at s" by (simp add: nextTxID_Add_def Let_def)
  then show "P s \<Longrightarrow> P (sendFloorState e sid k st s)"
    by (auto simp: sendFloorState_def Let_def split_beta intro!: quiet_if sends_raw counted)
qed

lemma broadcasts_state: "P s \<Longrightarrow> P (BroadcastFloorState e k b st s)"
  by (auto simp: BroadcastFloorState_def intro!: folds ticks sends_state)

lemma creates: "P s \<Longrightarrow> P (fst (CreateFloor e k s))"
  using new_floor [OF floors, of s] by (simp add: CreateFloor_def Let_def split: option.splits)

lemma finds: "P s \<Longrightarrow> P (fst (floorFor e k s))"
  using creates [of s e k] by (auto simp: floorFor_def split: option.splits)

lemma finds_release: "floorToRelease e m s = (s1, x) \<Longrightarrow> P s \<Longrightarrow> P s1"
  by (auto simp: floorToRelease_def GetFloorByRequestID_def floorOwnedBy_def ticks split: option.splits)

lemma answers:
  "P s \<Longrightarrow> P (answerUDPFloorRequest e sid m p k r g s)"
  "P s \<Longrightarrow> P (fst (answerFloorRequest e sid m p k r g s))"
  "P s \<Longrightarrow> P (wakeFloorRequest e sid m x s)"
  by (auto simp: answerUDPFloorRequest_def answerFloorRequest_def wakeFloorRequest_def Let_def split_beta
      floor_error_text split: option.splits prod.splits intro!: elementary senders)

lemma leaves:
  "P s \<Longrightarrow> P (goodbyeFloorUDP e sid m p s)"
  "P s \<Longrightarrow> P (goodbyeFloor e sid m p s)"
  by (auto simp: goodbyeFloorUDP_def goodbyeFloor_def Let_def split: prod.splits option.splits
      intro!: elementary broadcasts)

lemma UDP_handlers:
  assumes "P s"
  shows "P (handleUDPHello e sid m s)" "P (handleUDPFloorRequest e sid m s)"
    "P (handleUDPFloorRelease e sid m s)" "P (handleUDPFloorQuery e sid m s)"
    "P (handleUDPGoodbye e sid m s)"
proof -
  show "P (handleUDPHello e sid m s)"
    using assms by (auto simp: handleUDPHello_def Let_def split: option.splits intro!: elementary)
  show "P (handleUDPFloorRequest e sid m s)"
    using assms
    by (auto simp: handleUDPFloorRequest_def Let_def split_beta split: option.splits
        intro!: answers elementary senders finds)
  show "P (handleUDPFloorRelease e sid m s)"
    using assms finds_release [of e m s] release_text [of e m s]
    by (auto simp: handleUDPFloorRelease_def Let_def floor_error_text split: prod.splits res.splits option.splits
        intro!: broadcasts senders elementary)
  show "P (handleUDPFloorQuery e sid m s)"
    using assms
    by (auto simp: handleUDPFloorQuery_def Let_def split: option.splits intro!: senders elementary fmt_d_short)
  show "P (handleUDPGoodbye e sid m s)"
    using assms by (auto simp: handleUDPGoodbye_def floorsOwnedBy_def Let_def intro!: elementary folds leaves)
qed

lemma TCP_handlers:
  assumes "P s"
  shows "P (fst (handleFloorRequest e sid m s))" "P (handleFloorRelease e sid m s)"
    "P (handleFloorQuery e sid m s)"
proof -
  show "P (fst (handleFloorRequest e sid m s))"
    using assms
    by (auto simp: handleFloorRequest_def Let_def split_beta split: option.splits
        intro!: answers elementary senders finds)
  show "P (handleFloorRelease e sid m s)"
    using assms finds_release [of e m s] release_text [of e m s]
    by (auto simp: handleFloorRelease_def Let_def floor_error_text split: prod.splits res.splits option.splits
        intro!: broadcasts senders elementary)
  show "P (handleFloorQuery e sid m s)"
    using assms
    by (auto simp: handleFloorQuery_def Let_def split: option.splits intro!: senders elementary fmt_d_short)
qed

text \<open>Hello and Goodbye change the transport of their session besides.\<close>

lemma TCP_sessions:
  assumes "P s"
    and "\<And>s t tr. P s \<Longrightarrow> se_Transport (sv_session_at s sid) = Some t \<Longrightarrow> P (update_transport t tr s)"
  shows "P (handleHello e sid m s)" "P (handleGoodbye e sid m s)"
proof -
  show "P (handleGoodbye e sid m s)"
    using assms(1)
    by (auto simp: handleGoodbye_def floorsOwnedBy_def Let_def split: option.splits
        intro!: assms(2) panics machines sends folds leaves ticks)
  let ?s = "\<lambda>t. update_StateMachine sid (SetState (env_now e) StateWaitFloorRequest)
    (send e sid (AddSupportedAttributes helloAttributes (AddSupportedPrimitives helloPrimitives
        (NewMessage PrimitiveHelloAck (ConferenceID m) (TransactionID m) (UserID m))))
      (recordSupported sid m ((update_StateMachine sid
          (\<lambda>x. x\<lparr>ssm_ConferenceID := ConferenceID m, ssm_UserID := UserID m\<rparr>) s)
        \<lparr>sv_sessions := put (tr_RemoteAddr (sv_transport_at s t)) sid (sv_sessions s)\<rparr>)))"
  have link: "se_Transport (sv_session_at (?s t) sid) = se_Transport (sv_session_at s sid)" for t
  proof -
    have reg: "se_Transport (sv_session_at (x\<lparr>sv_sessions := ss\<rparr>) sid) = se_Transport (sv_session_at x sid)" for x ss
      by simp
    show ?thesis
      unfolding frame_fields(13) [OF frame_update_StateMachine] frame_fields(13) [OF frame_send]
        frame_fields(13) [OF frame_recordSupported] reg ..
  qed
  have at: "sv_transport_at (update_StateMachine sid g s) = sv_transport_at s"
    "sv_sessions (update_StateMachine sid g s) = sv_sessions s"
    "se_Transport (sv_session_at (update_StateMachine sid g s) sid) = se_Transport (sv_session_at s sid)" for g
    using frame_fields(5,8,13) [OF frame_update_StateMachine [of s sid g]] by simp_all
  have Ps: "P (?s t)" for t using assms(1) by (intro elementary) simp_all
  show "P (handleHello e sid m s)"
    using assms(1) Ps assms(2) [OF Ps] link
    by (auto simp: handleHello_def Let_def at split: option.splits intro!: quiet_if panics machines)
qed

text \<open>A message on a connection; the version it is in is recorded first.\<close>

lemma handles:
  assumes "P (update_StateMachine sid (\<lambda>x. x\<lparr>ssm_ClientVersion := Version m\<rparr>)
      (update_StateMachine sid (UpdateActivity (env_now e)) s))"
    and "\<And>s t tr. P s \<Longrightarrow> se_Transport (sv_session_at s sid) = Some t \<Longrightarrow> P (update_transport t tr s)"
  shows "P (fst (handleMessage e sid m s))"
proof -
  have h: "P (handleHello e sid m x)" "P (handleGoodbye e sid m x)" if "P x" for x
    by (rule TCP_sessions [OF that assms(2)]; assumption)+
  show ?thesis
    using assms(1)
    by (auto simp: handleMessage_def Let_def split: option.splits intro!: panics calls h TCP_handlers)
qed

end

end
