(* ===== verification/Connections.thy ===== *)
theory Connections
  imports TCP_Grants Handler_Effects
begin

text \<open>
  Isolation of the TCP connections: every session has a transport of its own, and what arrives on other
  connections, what their handlers do when they wake, and the application's calls neither close a
  connection nor change the version its client is spoken to in.
\<close>

section \<open>What the work on one session leaves alone\<close>

definition session_link :: "nat \<Rightarrow> Server \<Rightarrow> nat option \<times> nat option \<times> u8" where
  "session_link i s =
     (se_Transport (sv_session_at s i), se_UDPTransport (sv_session_at s i),
      ssm_ClientVersion (se_StateMachine (sv_session_at s i)))"

text \<open>\<open>t\<close> is the transport of the session that is worked on.\<close>

definition undisturbed :: "Server \<Rightarrow> nat \<Rightarrow> Server \<Rightarrow> bool" where
  "undisturbed s0 t s \<longleftrightarrow>
     (\<forall>i. session_link i s = session_link i s0) \<and> sv_fresh s0 \<le> sv_fresh s \<and>
     (\<forall>t'. t' \<noteq> t \<longrightarrow> sv_transport_at s t' = sv_transport_at s0 t')"

lemma undisturbed_refl [simp]: "undisturbed s t s"
  by (simp add: undisturbed_def)

lemma undisturbed_same:
  assumes "undisturbed s0 t s" "frame s s'" "\<And>i. session_link i s' = session_link i s"
  shows "undisturbed s0 t s'"
  using assms frame_fields(8,11) [OF assms(2)] by (simp add: undisturbed_def)

lemma session_link_machine:
  "(\<And>x. ssm_ClientVersion (g x) = ssm_ClientVersion x) \<Longrightarrow>
     session_link i (update_StateMachine sid g s) = session_link i s"
  by (simp add: session_link_def update_StateMachine_def)

lemma session_link_sends:
  "session_link i (sendUDP e sid m s) = session_link i s" "session_link i (send e sid m s) = session_link i s"
  "session_link i (sendRaw e sid bs s) = session_link i s"
  by (simp_all add: session_link_def send_def sendUDP_def sendRaw_def Let_def callMessageOut_def emit_if_def emit_def
      tick_def panic_def split: option.splits res.splits prod.splits)

interpretation working: handler_effects "undisturbed s0 t" for s0 t
proof
  show "undisturbed s0 t s \<Longrightarrow> (\<And>x. ssm_ClientVersion (g x) = ssm_ClientVersion x) \<Longrightarrow>
      undisturbed s0 t (update_StateMachine sid g s)" for s g sid
    using undisturbed_same [OF _ frame_update_StateMachine session_link_machine] by blast
  show "undisturbed s0 t s \<Longrightarrow> undisturbed s0 t (send e sid m s)" for s e sid m
    by (erule undisturbed_same) (simp_all add: session_link_sends)
  show "undisturbed s0 t s \<Longrightarrow> undisturbed s0 t (sendUDP e sid m s)" for s e sid m
    by (erule undisturbed_same) (simp_all add: session_link_sends)
  show "undisturbed s0 t s \<Longrightarrow> v = ProtocolVersion_of (sv_session_at s sid) \<Longrightarrow>
      undisturbed s0 t (sendRaw e sid (BuildFloorStatusMessage v c tx u k r st) s)" for s v sid e c tx u k r st
    by (erule undisturbed_same) (simp_all add: session_link_sends)
qed (simp_all add: undisturbed_def session_link_def emit_def tick_def panic_def update_floor_def)

section \<open>Transports of their own\<close>

definition own_transports :: "Server \<Rightarrow> bool" where
  "own_transports s \<longleftrightarrow>
     (\<forall>i t. se_Transport (sv_session_at s i) = Some t \<longrightarrow> i < sv_fresh s \<and> t < sv_fresh s) \<and>
     (\<forall>i j t. se_Transport (sv_session_at s i) = Some t \<longrightarrow> se_Transport (sv_session_at s j) = Some t \<longrightarrow> i = j)"

lemma own_transports_same:
  assumes "own_transports s" "\<And>i. se_Transport (sv_session_at s' i) = se_Transport (sv_session_at s i)"
    and "sv_fresh s \<le> sv_fresh s'"
  shows "own_transports s'"
  using assms unfolding own_transports_def by (metis order_less_le_trans)

lemma own_transports_undisturbed: "own_transports s \<Longrightarrow> undisturbed s t s' \<Longrightarrow> own_transports s'"
  by (erule own_transports_same) (auto simp: undisturbed_def session_link_def)

lemma own_transports_handleConnection:
  assumes "own_transports s"
  shows "own_transports (fst (handleConnection e remote s))"
  using assms
  by (auto simp: own_transports_def handleConnection_def newSession_def Let_def less_Suc_eq)

lemma handleConnection_others:
  "handleConnection e remote s = (s', sid) \<Longrightarrow> i < sv_fresh s \<Longrightarrow> session_link i s' = session_link i s"
  "handleConnection e remote s = (s', sid) \<Longrightarrow> t < sv_fresh s \<Longrightarrow> sv_transport_at s' t = sv_transport_at s t"
  by (auto simp: handleConnection_def newSession_def Let_def session_link_def)

text \<open>Messages: the version of the sender is recorded, then its session is worked on.\<close>

lemma handleMessage_undisturbed:
  assumes "se_Transport (sv_session_at s sid) = Some t"
  shows "undisturbed (update_StateMachine sid (\<lambda>x. x\<lparr>ssm_ClientVersion := Version m\<rparr>)
      (update_StateMachine sid (UpdateActivity (env_now e)) s)) t (fst (handleMessage e sid m s))"
proof (rule working.handles [OF undisturbed_refl])
  fix s' t' tr
  let ?s = "update_StateMachine sid (\<lambda>x. x\<lparr>ssm_ClientVersion := Version m\<rparr>)
      (update_StateMachine sid (UpdateActivity (env_now e)) s)"
  assume u: "undisturbed ?s t s'" and t': "se_Transport (sv_session_at s' sid) = Some t'"
  have "se_Transport (sv_session_at ?s sid) = Some t"
    using frame_fields(13) [OF frame_update_StateMachine] assms by simp
  with u t' have "t' = t" by (simp add: undisturbed_def session_link_def)
  with u show "undisturbed ?s t (update_transport t' tr s')"
    by (simp add: undisturbed_def session_link_def update_transport_def)
qed

lemma handleMessage_others:
  fixes e :: Env and m :: message
  assumes "se_Transport (sv_session_at s sid) = Some t"
  defines "s' \<equiv> fst (handleMessage e sid m s)"
  shows "se_Transport (sv_session_at s' i) = se_Transport (sv_session_at s i)" "sv_fresh s \<le> sv_fresh s'"
    "i \<noteq> sid \<Longrightarrow> session_link i s' = session_link i s"
    "t' \<noteq> t \<Longrightarrow> sv_transport_at s' t' = sv_transport_at s t'"
proof -
  note U = handleMessage_undisturbed [OF assms(1), of m e, folded s'_def]
  show "se_Transport (sv_session_at s' i) = se_Transport (sv_session_at s i)" "sv_fresh s \<le> sv_fresh s'"
    "i \<noteq> sid \<Longrightarrow> session_link i s' = session_link i s"
    "t' \<noteq> t \<Longrightarrow> sv_transport_at s' t' = sv_transport_at s t'"
    using U by (auto simp: undisturbed_def session_link_def update_StateMachine_def split: if_splits)
qed

text \<open>The application without a UDP socket.\<close>

lemma act_undisturbed:
  assumes "sv_udpListener s = None"
  shows "undisturbed s t (act e a s)"
proof (cases a)
  case (ApiCreateFloor k)
  then show ?thesis by (simp add: working.creates)
next
  case (ApiBroadcastFloorStatus u k r st q)
  then show ?thesis by (simp add: working.broadcasts)
next
  case (ApiBroadcastFloorState k b st)
  then show ?thesis by (simp add: working.broadcasts_state)
qed (use assms in \<open>simp_all add: receiveDatagram_def RegisterClient_def NewUDPClient_def working.floors
      ReleaseFloor_def GrantFloor_def Let_def split_beta uc_Close_def update_client_def undisturbed_def
      session_link_def update_floor_def split: option.splits\<close>)

lemma closing_keeps_links:
  "sv_session_at (fold closeSession sids s) = sv_session_at s" "sv_fresh (fold closeSession sids s) = sv_fresh s"
  by (induction sids arbitrary: s) (simp_all add: closeSession_def update_transport_def split: option.splits)

lemma own_transports_act:
  assumes "tcp_inv ts" "own_transports (ts_server ts)"
  shows "own_transports (ts_server (tcp_act e a ts))"
proof -
  let ?s = "ts_server ts"
  have l: "sv_udpListener ?s = None" using assms(1) by (simp add: tcp_inv_def)
  show ?thesis
  proof (cases a)
    case (Accept remote)
    with own_transports_handleConnection [OF assms(2)] show ?thesis
      by (simp add: accept_def split_beta Let_def)
  next
    case (Arrive sid m)
    show ?thesis
    proof (cases "sid \<in> set (ts_reading ts)")
      case True
      then obtain t where "se_Transport (sv_session_at ?s sid) = Some t"
        using assms(1) by (auto simp: tcp_inv_def tcp_session_def)
      from own_transports_same [OF assms(2) handleMessage_others(1,2) [OF this, where m = m and e = e]] True show ?thesis
        by (auto simp: Arrive arrive_def split: prod.splits option.splits)
    qed (simp add: Arrive assms(2))
  next
    case (Wake sid)
    show ?thesis
      using own_transports_undisturbed [OF assms(2) working.answers(3) [OF undisturbed_refl]] assms(2)
      by (simp add: Wake wake_def split: option.splits prod.splits)
  next
    case (Lost sid)
    have "own_transports (connectionClosed sid ?s)"
      by (rule own_transports_same [OF assms(2)])
         (simp_all add: connectionClosed_def update_transport_def emit_if_def emit_def Let_def split: option.splits)
    with assms(2) show ?thesis by (simp add: Lost lose_def)
  next
    case (Keepalive t c u)
    have f: "frame ?s (sendKeepalive e t c u ?s)" by simp
    from own_transports_same [OF assms(2), of "sendKeepalive e t c u ?s"] frame_fields(11,13) [OF f]
    show ?thesis by (simp add: Keepalive)
  next
    case (Application b)
    with own_transports_undisturbed [OF assms(2) act_undisturbed [OF l]] show ?thesis by simp
  next
    case CloseServer
    have "frame ?s (tick ?s)" by simp
    then have "own_transports (fold closeSession sids (tick ?s))" for sids
      by (intro own_transports_same [OF assms(2)]) (simp_all add: closing_keeps_links tick_def)
    moreover have "sv_udpListener (fold closeSession sids (tick ?s)) = None" for sids
      using l by (induction sids rule: rev_induct)
        (simp_all add: closeSession_def update_transport_def tick_def split: option.splits)
    ultimately show ?thesis by (simp add: CloseServer Server_Close_def Let_def)
  qed
qed

lemma own_transports_reachable: "tcp_reachable config callbacks ts \<Longrightarrow> own_transports (ts_server ts)"
proof (induction rule: tcp_reachable.induct)
  case start
  show ?case by (simp add: own_transports_def TCPServer_start_def NewServer_def)
next
  case (step ts e a)
  then show ?case using own_transports_act [OF tcp_reachable_inv] by blast
qed

section \<open>A connection is left alone\<close>

fun concerns :: "nat \<Rightarrow> tcp_action \<Rightarrow> bool" where
  "concerns sid (Arrive i m) \<longleftrightarrow> i = sid"
| "concerns sid (Lost i) \<longleftrightarrow> i = sid"
| "concerns sid CloseServer \<longleftrightarrow> True"
| "concerns sid _ \<longleftrightarrow> False"

lemma act_leaves_alone:
  assumes "tcp_inv ts" "own_transports (ts_server ts)" "\<not> concerns sid a"
    and "se_Transport (sv_session_at (ts_server ts) sid) = Some t"
  shows "session_link sid (ts_server (tcp_act e a ts)) = session_link sid (ts_server ts) \<and>
    sv_transport_at (ts_server (tcp_act e a ts)) t = sv_transport_at (ts_server ts) t"
proof -
  let ?s = "ts_server ts"
  have l: "sv_udpListener ?s = None" using assms(1) by (simp add: tcp_inv_def)
  have below: "sid < sv_fresh ?s" "t < sv_fresh ?s" using assms(2,4) unfolding own_transports_def by blast+
  have other: "t \<noteq> t'" if "i \<noteq> sid" "se_Transport (sv_session_at ?s i) = Some t'" for i t'
    using assms(2,4) that unfolding own_transports_def by blast
  show ?thesis
  proof (cases a)
    case (Accept remote)
    obtain s' i where "handleConnection e remote ?s = (s', i)" by (cases "handleConnection e remote ?s")
    with handleConnection_others [OF this] below show ?thesis by (simp add: Accept accept_def)
  next
    case (Arrive i m)
    show ?thesis
    proof (cases "i \<in> set (ts_reading ts)")
      case True
      then obtain t' where t': "se_Transport (sv_session_at ?s i) = Some t'"
        using assms(1) by (auto simp: tcp_inv_def tcp_session_def)
      from assms(3) have "i \<noteq> sid" by (simp add: Arrive)
      with handleMessage_others(3,4) [OF t', where m = m and e = e] other [OF _ t'] True show ?thesis
        by (auto simp: Arrive arrive_def split: prod.splits option.splits)
    qed (simp add: Arrive)
  next
    case (Wake i)
    have "undisturbed ?s (Suc t) (wakeFloorRequest e i m g ?s)" for m g
      by (rule working.answers) simp
    then show ?thesis
      by (auto simp: Wake wake_def undisturbed_def split: option.splits prod.splits)
  next
    case (Lost i)
    from assms(3) have "i \<noteq> sid" by (simp add: Lost)
    then show ?thesis
      using other [of i]
      by (auto simp: Lost lose_def connectionClosed_def update_transport_def emit_if_def emit_def Let_def
          session_link_def split: option.splits)
  next
    case (Keepalive t' c u)
    have f: "frame ?s (sendKeepalive e t' c u ?s)" by simp
    have "sv_session_at (sendKeepalive e t' c u ?s) = sv_session_at ?s"
      by (simp add: sendKeepalive_def nextTxID_Add_def Let_def emit_def tick_def panic_def split: res.splits prod.splits)
    with frame_fields(8) [OF f] show ?thesis by (simp add: Keepalive session_link_def)
  next
    case (Application b)
    with act_undisturbed [OF l, of "Suc t" e b] show ?thesis by (simp add: undisturbed_def)
  next
    case CloseServer
    with assms(3) show ?thesis by simp
  qed
qed

lemma run_leaves_alone:
  assumes "tcp_inv ts" "own_transports (ts_server ts)" "all_actions (\<lambda>a. \<not> concerns sid a) as"
    and "se_Transport (sv_session_at (ts_server ts) sid) = Some t"
  shows "own_transports (ts_server (tcp_run as ts))"
    "session_link sid (ts_server (tcp_run as ts)) = session_link sid (ts_server ts)"
    "sv_transport_at (ts_server (tcp_run as ts)) t = sv_transport_at (ts_server ts) t"
proof -
  let ?Q = "\<lambda>x. own_transports (ts_server x) \<and> session_link sid (ts_server x) = session_link sid (ts_server ts) \<and>
      sv_transport_at (ts_server x) t = sv_transport_at (ts_server ts) t"
  have step: "?Q (tcp_act e a x)" if "tcp_inv x" "env_ok e" "\<not> concerns sid a" "?Q x" for x e a
  proof -
    have "se_Transport (sv_session_at (ts_server x) sid) = Some t"
      using that(4) assms(4) by (simp add: session_link_def)
    from act_leaves_alone [OF that(1) _ that(3) this, of e] own_transports_act [OF that(1), of e a] that(4)
    show ?thesis by simp
  qed
  have "?Q ts" using assms(2) by simp
  from tcp_run_invariant [where Q = ?Q, OF assms(1,3) this step]
  have "?Q (tcp_run as ts)" by (rule conjunct2)
  then show "own_transports (ts_server (tcp_run as ts))"
    "session_link sid (ts_server (tcp_run as ts)) = session_link sid (ts_server ts)"
    "sv_transport_at (ts_server (tcp_run as ts)) t = sv_transport_at (ts_server ts) t" by blast+
qed

section \<open>Properties\<close>

text \<open>C21. Isolation of connections: whatever runs between, as long as nothing arrives on a connection,
  it is not lost and the server not closed, its transport stays as it is, open if it was, its client
  is spoken to in the same version, and no other session shares its transport.\<close>
theorem connections_isolated:
  assumes "tcp_reachable config callbacks ts" "all_actions (\<lambda>a. \<not> concerns sid a) as"
    and "se_Transport (sv_session_at (ts_server ts) sid) = Some t"
  defines "s' \<equiv> ts_server (tcp_run as ts)"
  shows "se_Transport (sv_session_at s' sid) = Some t \<and>
    sv_transport_at s' t = sv_transport_at (ts_server ts) t \<and>
    ProtocolVersion_of (sv_session_at s' sid) = ProtocolVersion_of (sv_session_at (ts_server ts) sid) \<and>
    (\<forall>i. se_Transport (sv_session_at s' i) = Some t \<longrightarrow> i = sid)"
proof -
  note R = run_leaves_alone [OF tcp_reachable_inv [OF assms(1)] own_transports_reachable [OF assms(1)] assms(2,3),
      folded s'_def]
  have t: "se_Transport (sv_session_at s' sid) = Some t" using R(2) assms(3) by (simp add: session_link_def)
  have only: "\<forall>i. se_Transport (sv_session_at s' i) = Some t \<longrightarrow> i = sid"
    using R(1) t unfolding own_transports_def by blast
  have v: "ProtocolVersion_of (sv_session_at s' sid) = ProtocolVersion_of (sv_session_at (ts_server ts) sid)"
    using R(2) by (simp add: session_link_def ProtocolVersion_of_def)
  show ?thesis by (intro conjI t R(3) v only)
qed

theorem connections_isolated_witness:
  "sv_transport_at (ts_server (tcp_run [(plain_env, Arrive 3 (NewMessage PrimitiveGoodbye 1 9 5)),
     (plain_env, Lost 3)] two_connections)) 0 = sv_transport_at (ts_server two_connections) 0"
proof -
  have "se_Transport (sv_session_at (ts_server two_connections) 1) = Some 0" by code_simp
  from connections_isolated [OF two_connections_reachable _ this,
      of "[(plain_env, Arrive 3 (NewMessage PrimitiveGoodbye 1 9 5)), (plain_env, Lost 3)]"]
  show ?thesis by (simp add: all_actions_def plain_env_ok del: tcp_run_simps)
qed

end
