(* ===== verification/TCP_Client.thy ===== *)
theory TCP_Client
  imports Server_State
begin

text \<open>
  The client of \<^verbatim>\<open>client.go\<close>: one TCP connection, a table of active requests, a table of the
  channels on which calls wait for their responses, and the callbacks. A call that waits lets
  the read loop and other calls run: what they do is a list of steps. Everything observable, the
  bytes written and the callbacks called, goes to an event log in order.
\<close>

section \<open>State\<close>

record ClientConfig =
  clc_ServerAddress :: string
  clc_ConferenceID :: u32
  clc_UserID :: u16
  clc_ConnectTimeout :: int

definition DefaultClientConfig :: "string \<Rightarrow> u32 \<Rightarrow> u16 \<Rightarrow> ClientConfig" where
  "DefaultClientConfig serverAddr conferenceID userID =
     \<lparr>clc_ServerAddress = serverAddr, clc_ConferenceID = conferenceID, clc_UserID = userID,
      clc_ConnectTimeout = 10 * 1000000000\<rparr>"

datatype client_event =
    CSent "byte list"
  | COnConnected
  | COnDisconnected
  | COnFloorGranted u16 u16
  | COnFloorDenied u16 u16 ErrorCode
  | COnFloorReleased u16
  | COnFloorRevoked u16
  | COnFloorStatus u16 RequestStatus
  | COnError string

text \<open>Which callbacks are set.\<close>

record ClientCallbacks =
  ccb_OnConnected :: bool
  ccb_OnDisconnected :: bool
  ccb_OnFloorGranted :: bool
  ccb_OnFloorDenied :: bool
  ccb_OnFloorReleased :: bool
  ccb_OnFloorRevoked :: bool
  ccb_OnFloorStatus :: bool
  ccb_OnError :: bool

text \<open>A channel of capacity one; a send on a closed channel panics.\<close>

record channel =
  ch_value :: "message option"
  ch_closed :: bool

record Client =
  cl_config :: ClientConfig
  cl_callbacks :: ClientCallbacks
  cl_transport :: "Transport option"
  cl_state :: SessionState
  cl_connected :: bool
  cl_nextTxID :: u32
  cl_activeRequests :: "(u16, ActiveFloorRequest) gomap"
  cl_pendingResponses :: "(u16, nat) gomap"
  cl_chan_at :: "nat \<Rightarrow> channel"
  cl_fresh :: nat
  cl_writes :: nat
  cl_log :: "client_event list"
  cl_panicked :: bool

definition NewClient :: "ClientConfig option \<Rightarrow> ClientCallbacks \<Rightarrow> Client" where
  "NewClient config callbacks =
     \<lparr>cl_config = (case config of
                    Some config \<Rightarrow> config
                  | None \<Rightarrow> DefaultClientConfig ''localhost:5070'' 1 1),
      cl_callbacks = callbacks, cl_transport = None, cl_state = StateDisconnected,
      cl_connected = False, cl_nextTxID = 0, cl_activeRequests = [], cl_pendingResponses = [],
      cl_chan_at = (\<lambda>_. \<lparr>ch_value = None, ch_closed = True\<rparr>), cl_fresh = 0, cl_writes = 0,
      cl_log = [], cl_panicked = False\<rparr>"

datatype call_error =
    AlreadyConnected
  | DialFailed string
  | NotConnected
  | TransportNotInitialized
  | SendFailure send_error
  | ResponseTimeout Primitive
  | UnexpectedResponse Primitive Primitive
  | ServerError ErrorCode string
  | NoFloorRequestID
  | NoRequestStatus
  | NoActiveRequestFor u16

section \<open>Effects\<close>

definition cl_emit :: "bool \<Rightarrow> client_event \<Rightarrow> Client \<Rightarrow> Client" where
  "cl_emit b ev c = (if b then c\<lparr>cl_log := cl_log c @ [ev]\<rparr> else c)"

definition setState :: "SessionState \<Rightarrow> Client \<Rightarrow> Client" where
  "setState state c = c\<lparr>cl_state := state\<rparr>"

definition cl_nextTransactionID :: "Client \<Rightarrow> Client \<times> u16" where
  "cl_nextTransactionID c =
     (let n = cl_nextTxID c + 1 in (c\<lparr>cl_nextTxID := n\<rparr>, ucast n))"

definition IsConnected :: "Client \<Rightarrow> bool" where
  "IsConnected c = cl_connected c"

definition cl_GetState :: "Client \<Rightarrow> SessionState" where
  "cl_GetState c = cl_state c"

text \<open>The copy shares the requests the map points to; read at once, it is the map.\<close>

definition GetActiveRequests :: "Client \<Rightarrow> (u16, ActiveFloorRequest) gomap" where
  "GetActiveRequests c = cl_activeRequests c"

text \<open>\<open>writes\<close> is the outcome of the n-th write to the socket.\<close>

definition cl_send :: "(nat \<Rightarrow> bool) \<Rightarrow> message \<Rightarrow> Client \<Rightarrow> Client \<times> call_error option" where
  "cl_send writes msg c =
     (case cl_transport c of
        None \<Rightarrow> (c, Some TransportNotInitialized)
      | Some t \<Rightarrow>
          (case tr_SendMessage (writes (cl_writes c)) msg t of
             Ok (msg, data) \<Rightarrow>
               (cl_emit True (CSent data) (c\<lparr>cl_writes := Suc (cl_writes c)\<rparr>), None)
           | Fail err \<Rightarrow> (c\<lparr>cl_writes := Suc (cl_writes c)\<rparr>, Some (SendFailure err))
           | Panic \<Rightarrow> (c\<lparr>cl_panicked := True\<rparr>, None)))"

section \<open>Incoming messages\<close>

definition updateStatus ::
    "time \<Rightarrow> u16 \<Rightarrow> RequestStatus \<Rightarrow> (u16, ActiveFloorRequest) gomap \<Rightarrow>
     (u16, ActiveFloorRequest) gomap" where
  "updateStatus now floorID status m =
     (case lookup m floorID of
        None \<Rightarrow> m
      | Some req \<Rightarrow>
          let req = req\<lparr>afr_Status := status\<rparr>
          in put floorID
               (if status = RequestStatusGranted \<and> afr_GrantedAt req = None
                then req\<lparr>afr_GrantedAt := Some now\<rparr> else req) m)"

definition handleFloorRequestStatus :: "time \<Rightarrow> message \<Rightarrow> Client \<Rightarrow> Client" where
  "handleFloorRequestStatus now msg c =
     (case GetFloorID msg of
        None \<Rightarrow> c
      | Some floorID \<Rightarrow>
          let requestID = (case GetFloorRequestID msg of Some r \<Rightarrow> r | None \<Rightarrow> 0) in
          (case GetRequestStatus msg of
             None \<Rightarrow> c
           | Some (status, _) \<Rightarrow>
               let c = c\<lparr>cl_activeRequests := updateStatus now floorID status (cl_activeRequests c)\<rparr>;
                   cb = cl_callbacks c
               in if status = RequestStatusGranted then
                    cl_emit (ccb_OnFloorGranted cb) (COnFloorGranted floorID requestID)
                      (setState StateFloorGranted c)
                  else if status = RequestStatusDenied then
                    cl_emit (ccb_OnFloorDenied cb) (COnFloorDenied floorID requestID 0)
                      (setState StateFloorDenied c)
                  else if status = RequestStatusReleased then
                    cl_emit (ccb_OnFloorReleased cb) (COnFloorReleased floorID)
                      (setState StateFloorReleased c)
                  else if status = RequestStatusRevoked then
                    cl_emit (ccb_OnFloorRevoked cb) (COnFloorRevoked floorID)
                      (setState StateFloorReleased c)
                  else c))"

definition handleFloorStatus :: "message \<Rightarrow> Client \<Rightarrow> Client" where
  "handleFloorStatus msg c =
     (case GetFloorID msg of
        None \<Rightarrow> c
      | Some floorID \<Rightarrow>
          (case GetRequestStatus msg of
             None \<Rightarrow> c
           | Some (status, _) \<Rightarrow>
               cl_emit (ccb_OnFloorStatus (cl_callbacks c)) (COnFloorStatus floorID status) c))"

definition handleError :: "message \<Rightarrow> Client \<Rightarrow> Client" where
  "handleError msg c =
     (let errorCode = (case GetErrorCode msg of Some code \<Rightarrow> code | None \<Rightarrow> 0);
          errorInfo = (case GetErrorInfo msg of Some info \<Rightarrow> info | None \<Rightarrow> [])
      in cl_emit (ccb_OnError (cl_callbacks c))
           (COnError (''BFCP error: '' @ ErrorCode_String errorCode @ '' - '' @ errorInfo)) c)"

text \<open>
  \<^verbatim>\<open>handleMessage\<close> looks up the channel under the lock and sends to it after releasing the lock;
  the two steps can be apart. What a full channel refuses goes on to the handlers.
\<close>

definition pendingChan :: "message \<Rightarrow> Client \<Rightarrow> nat option" where
  "pendingChan msg c = lookup (cl_pendingResponses c) (TransactionID msg)"

definition dispatch :: "time \<Rightarrow> message \<Rightarrow> Client \<Rightarrow> Client" where
  "dispatch now msg c =
     (if Primitive msg = PrimitiveFloorRequestStatus then handleFloorRequestStatus now msg c
      else if Primitive msg = PrimitiveFloorStatus then handleFloorStatus msg c
      else if Primitive msg = PrimitiveError then handleError msg c
      else c)"

definition deliverMessage :: "time \<Rightarrow> message \<Rightarrow> nat option \<Rightarrow> Client \<Rightarrow> Client" where
  "deliverMessage now msg respChan c =
     (case respChan of
        Some ch \<Rightarrow>
          if ch_closed (cl_chan_at c ch) then c\<lparr>cl_panicked := True\<rparr>
          else if ch_value (cl_chan_at c ch) = None then
            c\<lparr>cl_chan_at := (cl_chan_at c)(ch := (cl_chan_at c ch)\<lparr>ch_value := Some msg\<rparr>)\<rparr>
          else dispatch now msg c
      | None \<Rightarrow> dispatch now msg c)"

definition cl_handleMessage :: "time \<Rightarrow> message \<Rightarrow> Client \<Rightarrow> Client" where
  "cl_handleMessage now msg c = deliverMessage now msg (pendingChan msg c) c"

text \<open>The \<^verbatim>\<open>OnError\<close> and \<^verbatim>\<open>OnClose\<close> that \<^verbatim>\<open>Connect\<close> installs; the read loop closes first.\<close>

definition transportError :: "string \<Rightarrow> Client \<Rightarrow> Client" where
  "transportError err c = cl_emit (ccb_OnError (cl_callbacks c)) (COnError err) c"

definition connectionLost :: "Client \<Rightarrow> Client" where
  "connectionLost c =
     (let c = c\<lparr>cl_transport := map_option tr_Close (cl_transport c), cl_connected := False\<rparr>
      in cl_emit (ccb_OnDisconnected (cl_callbacks c)) COnDisconnected
           (setState StateDisconnected c))"

section \<open>Waiting for a response\<close>

text \<open>The deferred function closes the channel.\<close>

definition beginWait :: "message \<Rightarrow> Client \<Rightarrow> Client \<times> nat" where
  "beginWait msg c =
     (let ch = cl_fresh c
      in (c\<lparr>cl_fresh := Suc ch,
            cl_chan_at := (cl_chan_at c)(ch := \<lparr>ch_value = None, ch_closed = False\<rparr>),
            cl_pendingResponses := put (TransactionID msg) ch (cl_pendingResponses c)\<rparr>, ch))"

definition endWait :: "message \<Rightarrow> nat \<Rightarrow> Client \<Rightarrow> Client" where
  "endWait msg ch c =
     c\<lparr>cl_pendingResponses := del (TransactionID msg) (cl_pendingResponses c),
       cl_chan_at := (cl_chan_at c)(ch := (cl_chan_at c ch)\<lparr>ch_closed := True\<rparr>)\<rparr>"

text \<open>
  What happens while a call waits: steps of the read loop, and steps of other calls. The call
  then takes the response, or its timer.
\<close>

datatype client_step =
    Incoming time message
  | TransportError string
  | ConnectionLost
  | OtherBeginWait message
  | OtherSendMessage "nat \<Rightarrow> bool" message
  | OtherEndWait message nat

fun run_step :: "client_step \<Rightarrow> Client \<Rightarrow> Client" where
  "run_step (Incoming now msg) c = cl_handleMessage now msg c"
| "run_step (TransportError err) c = transportError err c"
| "run_step ConnectionLost c = connectionLost c"
| "run_step (OtherBeginWait msg) c = fst (beginWait msg c)"
| "run_step (OtherSendMessage writes msg) c = fst (cl_send writes msg c)"
| "run_step (OtherEndWait msg ch) c = endWait msg ch c"

definition sendAndWait ::
    "(nat \<Rightarrow> bool) \<Rightarrow> client_step list \<Rightarrow> bool \<Rightarrow> message \<Rightarrow> Client \<Rightarrow>
     Client \<times> (call_error, message) res" where
  "sendAndWait writes meanwhile takes_response msg c =
     (let (c, ch) = beginWait msg c in
      case cl_send writes msg c of
        (c, Some err) \<Rightarrow> (endWait msg ch c, Fail err)
      | (c, None) \<Rightarrow>
          let c = fold run_step meanwhile c in
          (case ch_value (cl_chan_at c ch) of
             Some response \<Rightarrow>
               if takes_response
               then (endWait msg ch
                       (c\<lparr>cl_chan_at := (cl_chan_at c)(ch := (cl_chan_at c ch)\<lparr>ch_value := None\<rparr>)\<rparr>),
                     Ok response)
               else (endWait msg ch c, Fail (ResponseTimeout (Primitive msg)))
           | None \<Rightarrow> (endWait msg ch c, Fail (ResponseTimeout (Primitive msg)))))"

section \<open>Calls\<close>

text \<open>
  \<open>dialed\<close> is the remote address when the dial succeeds; the steps of \<open>meanwhile\<close> are those of
  the read loop between \<^verbatim>\<open>transport.Start()\<close> and the store of \<^verbatim>\<open>connected\<close>.
\<close>

definition cl_Connect ::
    "string option \<Rightarrow> client_step list \<Rightarrow> Client \<Rightarrow> Client \<times> call_error option" where
  "cl_Connect dialed meanwhile c =
     (if cl_connected c then (c, Some AlreadyConnected)
      else
        case dialed of
          None \<Rightarrow> (c, Some (DialFailed (clc_ServerAddress (cl_config c))))
        | Some remote \<Rightarrow>
            let c = setState StateConnected (c\<lparr>cl_transport := Some (NewTransport remote RoleActive)\<rparr>);
                c = fold run_step meanwhile c;
                c = c\<lparr>cl_connected := True\<rparr>
            in (cl_emit (ccb_OnConnected (cl_callbacks c)) COnConnected c, None))"

definition cl_newMessage :: "Primitive \<Rightarrow> u16 \<Rightarrow> Client \<Rightarrow> message" where
  "cl_newMessage primitive txID c =
     NewMessage primitive (clc_ConferenceID (cl_config c)) txID (clc_UserID (cl_config c))"

definition cl_Goodbye :: "(nat \<Rightarrow> bool) \<Rightarrow> Client \<Rightarrow> Client \<times> call_error option" where
  "cl_Goodbye writes c =
     (if \<not> cl_connected c then (c, Some NotConnected)
      else let (c, txID) = cl_nextTransactionID c
           in cl_send writes (cl_newMessage PrimitiveGoodbye txID c) c)"

text \<open>The read loop notices the closed transport later: \<^verbatim>\<open>OnClose\<close> is a step of its own.\<close>

definition cl_Disconnect :: "(nat \<Rightarrow> bool) \<Rightarrow> Client \<Rightarrow> Client" where
  "cl_Disconnect writes c =
     (if \<not> cl_connected c then c
      else
        let c = fst (cl_Goodbye writes c)
        in c\<lparr>cl_transport := map_option tr_Close (cl_transport c)\<rparr>)"

definition clHelloPrimitives :: "Primitive list" where
  "clHelloPrimitives =
     [PrimitiveFloorRequest, PrimitiveFloorRelease, PrimitiveFloorRequestQuery,
      PrimitiveFloorRequestStatus, PrimitiveFloorStatus, PrimitiveHello, PrimitiveHelloAck,
      PrimitiveError, PrimitiveGoodbye, PrimitiveGoodbyeAck]"

definition clHelloAttributes :: "AttributeType list" where
  "clHelloAttributes =
     [AttrBeneficiaryID, AttrFloorID, AttrFloorRequestID, AttrPriority, AttrRequestStatus,
      AttrErrorCode, AttrErrorInfo, AttrSupportedAttributes, AttrSupportedPrimitives]"

definition helloMessage :: "Client \<Rightarrow> Client \<times> message" where
  "helloMessage c =
     (let (c, txID) = cl_nextTransactionID c
      in (c, AddSupportedAttributes clHelloAttributes
               (AddSupportedPrimitives clHelloPrimitives (cl_newMessage PrimitiveHello txID c))))"

definition cl_Hello ::
    "(nat \<Rightarrow> bool) \<Rightarrow> client_step list \<Rightarrow> bool \<Rightarrow> Client \<Rightarrow> Client \<times> call_error option" where
  "cl_Hello writes meanwhile takes_response c =
     (if \<not> cl_connected c then (c, Some NotConnected)
      else
        let (c, msg) = helloMessage c
        in case sendAndWait writes meanwhile takes_response msg c of
             (c, Ok response) \<Rightarrow>
               if Primitive response \<noteq> PrimitiveHelloAck
               then (c, Some (UnexpectedResponse PrimitiveHelloAck (Primitive response)))
               else (setState StateWaitFloorRequest c, None)
           | (c, Fail err) \<Rightarrow> (c, Some err)
           | (c, Panic) \<Rightarrow> (c\<lparr>cl_panicked := True\<rparr>, None))"

definition serverError :: "message \<Rightarrow> call_error" where
  "serverError response =
     ServerError (case GetErrorCode response of Some code \<Rightarrow> code | None \<Rightarrow> 0)
       (case GetErrorInfo response of Some info \<Rightarrow> info | None \<Rightarrow> [])"

text \<open>What \<^verbatim>\<open>RequestFloor\<close> does with the response.\<close>

definition floorAnswered ::
    "time \<Rightarrow> u16 \<Rightarrow> u16 \<Rightarrow> Priority \<Rightarrow> message \<Rightarrow> Client \<Rightarrow> Client \<times> (call_error, u16) res" where
  "floorAnswered now floorID beneficiaryID priority response c =
     (if Primitive response = PrimitiveError then (c, Fail (serverError response))
      else if Primitive response \<noteq> PrimitiveFloorRequestStatus
      then (c, Fail (UnexpectedResponse PrimitiveFloorRequestStatus (Primitive response)))
      else
        case GetFloorRequestID response of
          None \<Rightarrow> (c, Fail NoFloorRequestID)
        | Some requestID \<Rightarrow>
            (case GetRequestStatus response of
               None \<Rightarrow> (c, Fail NoRequestStatus)
             | Some (status, _) \<Rightarrow>
                 let req = \<lparr>afr_FloorID = floorID, afr_FloorRequestID = requestID,
                            afr_BeneficiaryID = beneficiaryID, afr_Priority = priority,
                            afr_Status = status, afr_RequestedAt = now, afr_GrantedAt = None\<rparr>;
                     c = c\<lparr>cl_activeRequests := put floorID req (cl_activeRequests c)\<rparr>
                 in if status = RequestStatusGranted then
                      (let c = setState StateFloorGranted c;
                           c = c\<lparr>cl_activeRequests :=
                                 put floorID (req\<lparr>afr_GrantedAt := Some now\<rparr>) (cl_activeRequests c)\<rparr>
                       in (cl_emit (ccb_OnFloorGranted (cl_callbacks c))
                             (COnFloorGranted floorID requestID) c, Ok requestID))
                    else if status = RequestStatusPending \<or> status = RequestStatusAccepted
                    then (setState StateFloorRequested c, Ok requestID)
                    else (c, Ok requestID)))"

definition floorRequestMessage :: "u16 \<Rightarrow> u16 \<Rightarrow> Priority \<Rightarrow> Client \<Rightarrow> Client \<times> message" where
  "floorRequestMessage floorID beneficiaryID priority c =
     (let (c, txID) = cl_nextTransactionID c;
          msg = AddFloorID floorID (cl_newMessage PrimitiveFloorRequest txID c);
          msg = (if beneficiaryID > 0 then AddBeneficiaryID beneficiaryID msg else msg);
          msg = (if priority > 0 then AddPriority priority msg else msg)
      in (c, msg))"

definition cl_RequestFloor ::
    "time \<Rightarrow> (nat \<Rightarrow> bool) \<Rightarrow> client_step list \<Rightarrow> bool \<Rightarrow> u16 \<Rightarrow> u16 \<Rightarrow> Priority \<Rightarrow>
     Client \<Rightarrow> Client \<times> (call_error, u16) res" where
  "cl_RequestFloor now writes meanwhile takes_response floorID beneficiaryID priority c =
     (if \<not> cl_connected c then (c, Fail NotConnected)
      else
        let (c, msg) = floorRequestMessage floorID beneficiaryID priority c
        in case sendAndWait writes meanwhile takes_response msg c of
             (c, Ok response) \<Rightarrow> floorAnswered now floorID beneficiaryID priority response c
           | (c, Fail err) \<Rightarrow> (c, Fail err)
           | (c, Panic) \<Rightarrow> (c, Panic))"

definition cl_ReleaseFloor ::
    "(nat \<Rightarrow> bool) \<Rightarrow> client_step list \<Rightarrow> bool \<Rightarrow> u16 \<Rightarrow> Client \<Rightarrow> Client \<times> call_error option" where
  "cl_ReleaseFloor writes meanwhile takes_response floorID c =
     (if \<not> cl_connected c then (c, Some NotConnected)
      else
        case lookup (cl_activeRequests c) floorID of
          None \<Rightarrow> (c, Some (NoActiveRequestFor floorID))
        | Some activeReq \<Rightarrow>
            let (c, txID) = cl_nextTransactionID c;
                msg = AddFloorID floorID (cl_newMessage PrimitiveFloorRelease txID c);
                msg = AddFloorRequestID (afr_FloorRequestID activeReq) msg
            in case sendAndWait writes meanwhile takes_response msg c of
                 (c, Ok response) \<Rightarrow>
                   if Primitive response = PrimitiveError then (c, Some (serverError response))
                   else
                     let c = c\<lparr>cl_activeRequests := del floorID (cl_activeRequests c)\<rparr>;
                         c = setState StateFloorReleased c
                     in (cl_emit (ccb_OnFloorReleased (cl_callbacks c)) (COnFloorReleased floorID) c,
                         None)
               | (c, Fail err) \<Rightarrow> (c, Some err)
               | (c, Panic) \<Rightarrow> (c\<lparr>cl_panicked := True\<rparr>, None))"

definition QueryFloor ::
    "(nat \<Rightarrow> bool) \<Rightarrow> client_step list \<Rightarrow> bool \<Rightarrow> u16 \<Rightarrow> Client \<Rightarrow>
     Client \<times> (call_error, message) res" where
  "QueryFloor writes meanwhile takes_response floorID c =
     (if \<not> cl_connected c then (c, Fail NotConnected)
      else
        let (c, txID) = cl_nextTransactionID c
        in sendAndWait writes meanwhile takes_response
             (AddFloorID floorID (cl_newMessage PrimitiveFloorQuery txID c)) c)"

text \<open>The client when a call begins to wait.\<close>

definition startWaiting :: "(nat \<Rightarrow> bool) \<Rightarrow> message \<Rightarrow> Client \<Rightarrow> Client" where
  "startWaiting writes msg c = fst (cl_send writes msg (fst (beginWait msg c)))"

definition helloWaiting :: "(nat \<Rightarrow> bool) \<Rightarrow> Client \<Rightarrow> Client" where
  "helloWaiting writes c = (let (c, msg) = helloMessage c in startWaiting writes msg c)"

definition requestWaiting ::
    "(nat \<Rightarrow> bool) \<Rightarrow> u16 \<Rightarrow> u16 \<Rightarrow> Priority \<Rightarrow> Client \<Rightarrow> Client" where
  "requestWaiting writes floorID beneficiaryID priority c =
     (let (c, msg) = floorRequestMessage floorID beneficiaryID priority c in startWaiting writes msg c)"

section \<open>Channels of the calls in flight\<close>

text \<open>Every pending channel is open and known under one identifier only.\<close>

definition calls_ok :: "Client \<Rightarrow> bool" where
  "calls_ok c \<longleftrightarrow>
     (\<forall>tx ch. lookup (cl_pendingResponses c) tx = Some ch \<longrightarrow>
        ch < cl_fresh c \<and> \<not> ch_closed (cl_chan_at c ch) \<and>
        (\<forall>tx'. lookup (cl_pendingResponses c) tx' = Some ch \<longrightarrow> tx' = tx))"

text \<open>The channel of a call holds nothing but a message with the identifier of its request.\<close>

definition holds_response :: "u16 \<Rightarrow> nat \<Rightarrow> Client \<Rightarrow> bool" where
  "holds_response tx ch c \<longleftrightarrow>
     lookup (cl_pendingResponses c) tx = Some ch \<and>
     (\<forall>m. ch_value (cl_chan_at c ch) = Some m \<longrightarrow> TransactionID m = tx)"

definition same_calls :: "Client \<Rightarrow> Client \<Rightarrow> bool" where
  "same_calls c c' \<longleftrightarrow>
     cl_pendingResponses c' = cl_pendingResponses c \<and> cl_chan_at c' = cl_chan_at c \<and>
     cl_fresh c' = cl_fresh c \<and> cl_panicked c' = cl_panicked c"

lemma same_calls_refl [simp]: "same_calls c c"
  by (simp add: same_calls_def)

lemma same_calls_emit [simp]: "same_calls c (cl_emit b ev c)"
  by (simp add: same_calls_def cl_emit_def)

lemma same_calls_ok: "same_calls c c' \<Longrightarrow> calls_ok c' = calls_ok c"
  "same_calls c c' \<Longrightarrow> holds_response tx ch c' = holds_response tx ch c"
  "same_calls c c' \<Longrightarrow> cl_panicked c' = cl_panicked c"
  by (simp_all add: same_calls_def calls_ok_def holds_response_def)

lemma same_calls_dispatch: "same_calls c (dispatch now m c)"
  by (simp add: dispatch_def handleFloorRequestStatus_def handleFloorStatus_def handleError_def
      same_calls_def cl_emit_def setState_def Let_def split: option.splits)

lemma tr_SendMessage_never_panics: "tr_SendMessage ok m t \<noteq> Panic"
proof -
  have "Encode m \<noteq> Panic"
    using Encode_Ok_length [of m] Encode_NotAligned [of m] by (cases "payloadSize m mod 4 = 0") auto
  then show ?thesis by (auto simp: tr_SendMessage_def split: res.splits)
qed

lemma same_calls_send: "same_calls c (fst (cl_send writes m c))"
  using tr_SendMessage_never_panics
  by (auto simp: cl_send_def same_calls_def cl_emit_def split: option.splits res.splits)

text \<open>
  A message delivered in one step, or the other calls working with identifiers of their own,
  keep all that.
\<close>

fun other_step :: "u16 \<Rightarrow> client_step \<Rightarrow> Client \<Rightarrow> bool" where
  "other_step tx (OtherBeginWait msg) c =
     (TransactionID msg \<noteq> tx \<and> lookup (cl_pendingResponses c) (TransactionID msg) = None)"
| "other_step tx (OtherEndWait msg ch) c =
     (TransactionID msg \<noteq> tx \<and> lookup (cl_pendingResponses c) (TransactionID msg) = Some ch)"
| "other_step tx _ c = True"

fun other_steps :: "u16 \<Rightarrow> client_step list \<Rightarrow> Client \<Rightarrow> bool" where
  "other_steps tx [] c = True"
| "other_steps tx (st # sts) c = (other_step tx st c \<and> other_steps tx sts (run_step st c))"

lemma handleMessage_calls:
  assumes "calls_ok c"
  shows "calls_ok (cl_handleMessage now m c) \<and>
    (holds_response tx ch c \<longrightarrow> holds_response tx ch (cl_handleMessage now m c)) \<and>
    cl_panicked (cl_handleMessage now m c) = cl_panicked c"
proof (cases "pendingChan m c")
  case None
  then show ?thesis
    using assms same_calls_ok [OF same_calls_dispatch]
    by (simp add: cl_handleMessage_def deliverMessage_def)
next
  case (Some ch')
  then have l: "lookup (cl_pendingResponses c) (TransactionID m) = Some ch'"
    by (simp add: pendingChan_def)
  with assms have o: "\<not> ch_closed (cl_chan_at c ch')" by (auto simp: calls_ok_def)
  show ?thesis
  proof (cases "ch_value (cl_chan_at c ch')")
    case None
    with Some o l assms show ?thesis
      by (auto simp: cl_handleMessage_def deliverMessage_def calls_ok_def holds_response_def)
  next
    case (Some x)
    with \<open>pendingChan m c = Some ch'\<close> o assms show ?thesis
      using same_calls_ok [OF same_calls_dispatch]
      by (simp add: cl_handleMessage_def deliverMessage_def)
  qed
qed

lemma beginWait_calls:
  assumes "calls_ok c" "beginWait msg c = (c', ch)"
  shows "calls_ok c'" "holds_response (TransactionID msg) ch c'" "cl_panicked c' = cl_panicked c"
    "TransactionID msg \<noteq> tx \<Longrightarrow> holds_response tx x c \<Longrightarrow> holds_response tx x c'"
proof -
  have c': "c' = c\<lparr>cl_fresh := Suc (cl_fresh c),
      cl_chan_at := (cl_chan_at c)(cl_fresh c := \<lparr>ch_value = None, ch_closed = False\<rparr>),
      cl_pendingResponses := put (TransactionID msg) (cl_fresh c) (cl_pendingResponses c)\<rparr>"
    "ch = cl_fresh c"
    using assms(2) by (auto simp: beginWait_def Let_def)
  have below: "x < cl_fresh c" if "lookup (cl_pendingResponses c) t = Some x" for t x
    using assms(1) that by (auto simp: calls_ok_def)
  then have new: "lookup (cl_pendingResponses c) t \<noteq> Some (cl_fresh c)" for t by blast
  show "calls_ok c'"
    using assms(1) new below
    by (auto simp: c' calls_ok_def less_SucI split: if_splits)
  show "holds_response (TransactionID msg) ch c'" "cl_panicked c' = cl_panicked c"
    by (simp_all add: c' holds_response_def)
  show "TransactionID msg \<noteq> tx \<Longrightarrow> holds_response tx x c \<Longrightarrow> holds_response tx x c'"
    using new by (auto simp: c' holds_response_def)
qed

lemma run_step_calls:
  assumes "calls_ok c" "other_step tx st c"
  shows "calls_ok (run_step st c) \<and>
    (holds_response tx ch c \<longrightarrow> holds_response tx ch (run_step st c)) \<and>
    cl_panicked (run_step st c) = cl_panicked c"
proof (cases st)
  case (Incoming now m)
  with handleMessage_calls [OF assms(1)] show ?thesis by simp
next
  case (TransportError err)
  then show ?thesis using assms(1) same_calls_ok [OF same_calls_emit] by (simp add: transportError_def)
next
  case ConnectionLost
  have "same_calls c (connectionLost c)"
    by (simp add: connectionLost_def same_calls_def cl_emit_def setState_def Let_def)
  with ConnectionLost assms(1) show ?thesis using same_calls_ok by simp
next
  case (OtherBeginWait msg)
  obtain c' x where "beginWait msg c = (c', x)" by (cases "beginWait msg c")
  with OtherBeginWait assms beginWait_calls [OF assms(1) this] show ?thesis by simp
next
  case (OtherSendMessage writes msg)
  then show ?thesis using assms(1) same_calls_ok [OF same_calls_send] by simp
next
  case (OtherEndWait msg ch')
  with assms show ?thesis
    by (auto simp: endWait_def calls_ok_def holds_response_def)
qed

lemma run_steps_calls:
  assumes "calls_ok c" "other_steps tx sts c" "holds_response tx ch c"
  shows "calls_ok (fold run_step sts c) \<and> holds_response tx ch (fold run_step sts c) \<and>
    cl_panicked (fold run_step sts c) = cl_panicked c"
  using assms
proof (induction sts arbitrary: c)
  case (Cons st sts)
  then show ?case using run_step_calls [of c tx st ch] by simp
qed simp

lemma calls_ok_endWait:
  "calls_ok c \<Longrightarrow> lookup (cl_pendingResponses c) (TransactionID msg) = Some ch \<Longrightarrow>
   calls_ok (endWait msg ch c)"
  by (auto simp: calls_ok_def endWait_def)

section \<open>Properties\<close>

definition all_client_callbacks :: ClientCallbacks where
  "all_client_callbacks =
     \<lparr>ccb_OnConnected = True, ccb_OnDisconnected = True, ccb_OnFloorGranted = True,
      ccb_OnFloorDenied = True, ccb_OnFloorReleased = True, ccb_OnFloorRevoked = True,
      ccb_OnFloorStatus = True, ccb_OnError = True\<rparr>"


definition connected_client :: Client where
  "connected_client = fst (cl_Connect (Some ''10.0.0.9:5070'') [] (NewClient None all_client_callbacks))"


text \<open>The response that comes just as its call times out crashes the client: when
  \<^verbatim>\<open>handleMessage\<close> has looked up the channel and the call ends before the send, the send goes to a
  closed channel.\<close>
lemma late_response_panics:
  assumes "lookup (cl_pendingResponses c) (TransactionID m) = Some ch"
    and "TransactionID msg = TransactionID m"
  shows "cl_panicked (deliverMessage now m (pendingChan m c) (endWait msg ch c))"
  using assms by (simp add: pendingChan_def deliverMessage_def endWait_def)

lemma late_response_panics_witness:
  "cl_panicked (deliverMessage 5 (NewMessage PrimitiveHelloAck 1 1 1)
     (pendingChan (NewMessage PrimitiveHelloAck 1 1 1) (fst (beginWait (NewMessage PrimitiveHello 1 1 1) connected_client)))
     (endWait (NewMessage PrimitiveHello 1 1 1) 0 (fst (beginWait (NewMessage PrimitiveHello 1 1 1) connected_client))))"
  by (rule late_response_panics)
     (simp_all add: beginWait_def Let_def connected_client_def cl_Connect_def NewClient_def
       cl_emit_def setState_def NewMessage_def)

text \<open>A connection that is lost before \<^verbatim>\<open>Connect\<close> stores its flag wrecks the client: it counts
  as connected on a closed transport, its requests fail, \<^verbatim>\<open>Connect\<close> refuses to connect again, and
  \<^verbatim>\<open>Disconnect\<close> does not help.\<close>
lemma early_loss_wrecks_client:
  assumes "\<not> cl_connected c" "cl_Connect (Some remote) [ConnectionLost] c = (c', err)"
  shows "err = None \<and> cl_connected c' \<and> cl_state c' = StateDisconnected \<and>
    snd (cl_RequestFloor now writes sts takes k b p c') = Fail (SendFailure TransportIsClosed) \<and>
    snd (cl_Connect dialed sts c') = Some AlreadyConnected \<and>
    snd (cl_Connect dialed sts (cl_Disconnect writes c')) = Some AlreadyConnected"
proof -
  from assms have c': "err = None" "cl_connected c'" "cl_state c' = StateDisconnected"
    "cl_transport c' = Some (tr_Close (NewTransport remote RoleActive))"
    by (auto simp: cl_Connect_def connectionLost_def cl_emit_def setState_def Let_def)
  have closed: "tr_SendMessage ok m (tr_Close (NewTransport remote RoleActive)) = Fail TransportIsClosed" for ok m
    by (simp add: tr_SendMessage_def tr_Close_def NewTransport_def)
  have send: "cl_send writes msg x = (x\<lparr>cl_writes := Suc (cl_writes x)\<rparr>, Some (SendFailure TransportIsClosed))"
    if "cl_transport x = Some (tr_Close (NewTransport remote RoleActive))" for msg x
    using that by (simp add: cl_send_def closed)
  have wait: "snd (sendAndWait writes sts takes msg x) = Fail (SendFailure TransportIsClosed)"
    if "cl_transport x = Some (tr_Close (NewTransport remote RoleActive))" for msg x
    using that send by (simp add: sendAndWait_def beginWait_def Let_def)
  let ?x = "fst (cl_nextTransactionID c')"
  have x: "cl_transport ?x = Some (tr_Close (NewTransport remote RoleActive))" "cl_connected ?x"
    using c' by (simp_all add: cl_nextTransactionID_def Let_def)
  have "snd (cl_RequestFloor now writes sts takes k b p c') = Fail (SendFailure TransportIsClosed)"
    using wait [OF x(1)] c'(2)
    by (simp add: cl_RequestFloor_def floorRequestMessage_def split_beta Let_def split: res.splits)
  moreover have "cl_connected (cl_Disconnect writes c')"
    using send [OF x(1)] x(2) c'(2)
    by (simp add: cl_Disconnect_def cl_Goodbye_def split_beta Let_def)
  ultimately show ?thesis using c' by (simp add: cl_Connect_def)
qed

lemma early_loss_wrecks_client_witness:
  "snd (cl_Connect (Some ''10.0.0.9:5070'') []
     (cl_Disconnect (\<lambda>_. True)
       (fst (cl_Connect (Some ''10.0.0.9:5070'') [ConnectionLost] (NewClient None all_client_callbacks)))))
   = Some AlreadyConnected"
proof -
  obtain c' err where "cl_Connect (Some ''10.0.0.9:5070'') [ConnectionLost]
      (NewClient None all_client_callbacks) = (c', err)" by fastforce
  with early_loss_wrecks_client [OF _ this, where dialed = "Some ''10.0.0.9:5070''" and sts = "[]"
      and writes = "\<lambda>_. True"] show ?thesis by (simp add: NewClient_def)
qed

end
