(* ===== verification/Virtual_Client.thy ===== *)
theory Virtual_Client
  imports TCP_Client
begin

text \<open>
  The virtual client of \<^verbatim>\<open>virtual/client.go\<close>: it wraps a TCP client, installs callbacks that keep
  its own tables, and reports to the callbacks of the application. The callbacks of the TCP client
  are the last thing a step of it does; here they run on the events the step adds to its log.
  \<^verbatim>\<open>Connect\<close> and \<^verbatim>\<open>RequestFloor\<close> hold the mutex while they wait: a callback that takes it, run by
  the read loop, stops the read loop until they return, and one run by the call itself never
  returns.
\<close>

section \<open>State\<close>

record VFloorRequest =
  vfr_RequestID :: u16
  vfr_FloorID :: u16
  vfr_Status :: RequestStatus
  vfr_Priority :: Priority
  vfr_QueuePosition :: u8
  vfr_RequestedAt :: time
  vfr_Information :: string
  vfr_BeneficiaryID :: u16

text \<open>
  The methods of the application's \<^verbatim>\<open>Callbacks\<close>, as events. The client never calls
  \<^verbatim>\<open>OnQueuePositionChanged\<close> and \<^verbatim>\<open>OnReconnecting\<close>; \<^verbatim>\<open>NoOpCallbacks\<close> does nothing on any of them.
\<close>

datatype v_event =
    VOnConnected
  | VOnDisconnected string
  | VOnFloorGranted u16 u16
  | VOnFloorDenied u16 u16 ErrorCode string
  | VOnFloorRevoked u16 u16
  | VOnFloorReleased u16 u16
  | VOnQueuePositionChanged u16 u16 u8
  | VOnFloorStatusChanged u16 u16 RequestStatus
  | VOnReconnecting int
  | VOnError string

record VClient =
  vc_id :: string
  vc_userID :: u16
  vc_conferenceID :: u32
  vc_serverAddr :: string
  vc_client :: "Client option"
  vc_activeRequests :: "(u16, VFloorRequest) gomap"
  vc_heldFloors :: "(u16, u16) gomap"
  vc_requestTimeout :: int
  vc_closed :: bool
  vc_connected :: bool
  vc_log :: "v_event list"
  vc_panicked :: bool

datatype v_error =
    ErrClientNotConnected
  | ErrClientClosed
  | ErrInvalidFloorID
  | ErrInvalidRequestID
  | RequestIDNotFound
  | EmptyClientID
  | EmptyServerAddress
  | CallFailed call_error

record floorRequestOptions =
  opt_priority :: Priority
  opt_information :: string
  opt_beneficiaryID :: u16

definition WithPriority :: "Priority \<Rightarrow> floorRequestOptions \<Rightarrow> floorRequestOptions" where
  "WithPriority p opts = opts\<lparr>opt_priority := p\<rparr>"

definition WithInformation :: "string \<Rightarrow> floorRequestOptions \<Rightarrow> floorRequestOptions" where
  "WithInformation info opts = opts\<lparr>opt_information := info\<rparr>"

definition WithBeneficiary :: "u16 \<Rightarrow> floorRequestOptions \<Rightarrow> floorRequestOptions" where
  "WithBeneficiary userID opts = opts\<lparr>opt_beneficiaryID := userID\<rparr>"

text \<open>The options are applied in turn to the defaults.\<close>

definition request_options :: "(floorRequestOptions \<Rightarrow> floorRequestOptions) list \<Rightarrow> floorRequestOptions" where
  "request_options opts = fold (\<lambda>opt. opt) opts
     \<lparr>opt_priority = PriorityNormal, opt_information = [], opt_beneficiaryID = 0\<rparr>"

definition vc_New ::
    "string \<Rightarrow> string \<Rightarrow> u32 \<Rightarrow> u16 \<Rightarrow> int \<Rightarrow> (v_error, VClient) res" where
  "vc_New clientID serverAddr conferenceID userID timeout =
     (if clientID = [] then Fail EmptyClientID
      else if serverAddr = [] then Fail EmptyServerAddress
      else
        let timeout = (if timeout = 0 then 30 * 1000000000 else timeout)
        in Ok \<lparr>vc_id = clientID, vc_userID = userID, vc_conferenceID = conferenceID,
               vc_serverAddr = serverAddr, vc_client = None, vc_activeRequests = [],
               vc_heldFloors = [], vc_requestTimeout = timeout, vc_closed = False,
               vc_connected = False, vc_log = [], vc_panicked = False\<rparr>)"

section \<open>The callbacks that Connect installs\<close>

definition vc_emit :: "v_event \<Rightarrow> VClient \<Rightarrow> VClient" where
  "vc_emit ev v = v\<lparr>vc_log := vc_log v @ [ev]\<rparr>"

definition dropRequest :: "u16 \<Rightarrow> VClient \<Rightarrow> VClient" where
  "dropRequest requestID v = v\<lparr>vc_activeRequests := del requestID (vc_activeRequests v)\<rparr>"

text \<open>
  The request of a floor in \<^verbatim>\<open>OnFloorStatus\<close>: the first the iteration meets; 0 stands for none.
\<close>

definition requestOn :: "u16 \<Rightarrow> VClient \<Rightarrow> u16" where
  "requestOn floorID v =
     (case List.find (\<lambda>e. vfr_FloorID (snd e) = floorID) (vc_activeRequests v) of
        Some e \<Rightarrow> fst e
      | None \<Rightarrow> 0)"

definition vc_callback :: "client_event \<Rightarrow> VClient \<Rightarrow> VClient" where
  "vc_callback ev v =
     (case ev of
        CSent data \<Rightarrow> v
      | COnConnected \<Rightarrow> vc_emit VOnConnected (v\<lparr>vc_connected := True\<rparr>)
      | COnDisconnected \<Rightarrow>
          let wasConnected = vc_connected v; v = v\<lparr>vc_connected := False\<rparr>
          in if wasConnected then vc_emit (VOnDisconnected ''connection lost'') v else v
      | COnFloorGranted floorID requestID \<Rightarrow>
          let v = v\<lparr>vc_heldFloors := put floorID requestID (vc_heldFloors v)\<rparr>;
              v = (case lookup (vc_activeRequests v) requestID of
                     Some req \<Rightarrow>
                       v\<lparr>vc_activeRequests := put requestID
                           (req\<lparr>vfr_Status := RequestStatusGranted, vfr_QueuePosition := 0\<rparr>)
                           (vc_activeRequests v)\<rparr>
                   | None \<Rightarrow> v)
          in vc_emit (VOnFloorGranted floorID requestID) v
      | COnFloorDenied floorID requestID errorCode \<Rightarrow>
          vc_emit (VOnFloorDenied floorID requestID errorCode (ErrorCode_String errorCode))
            (dropRequest requestID v)
      | COnFloorRevoked floorID \<Rightarrow>
          (case lookup (vc_heldFloors v) floorID of
             Some requestID \<Rightarrow>
               vc_emit (VOnFloorRevoked floorID requestID)
                 (dropRequest requestID (v\<lparr>vc_heldFloors := del floorID (vc_heldFloors v)\<rparr>))
           | None \<Rightarrow> v)
      | COnFloorReleased floorID \<Rightarrow>
          (case lookup (vc_heldFloors v) floorID of
             Some requestID \<Rightarrow>
               vc_emit (VOnFloorReleased floorID requestID)
                 (dropRequest requestID (v\<lparr>vc_heldFloors := del floorID (vc_heldFloors v)\<rparr>))
           | None \<Rightarrow> v)
      | COnFloorStatus floorID status \<Rightarrow>
          let requestID = requestOn floorID v
          in if requestID \<noteq> 0 then vc_emit (VOnFloorStatusChanged floorID requestID status) v else v
      | COnError err \<Rightarrow> vc_emit (VOnError err) v)"

text \<open>The callbacks that take the mutex.\<close>

fun locking :: "client_event \<Rightarrow> bool" where
  "locking (COnFloorGranted floorID requestID) = True"
| "locking (COnFloorDenied floorID requestID errorCode) = True"
| "locking (COnFloorRevoked floorID) = True"
| "locking (COnFloorReleased floorID) = True"
| "locking (COnFloorStatus floorID status) = True"
| "locking _ = False"

text \<open>All callbacks of the TCP client are set.\<close>

definition vc_callbacks :: ClientCallbacks where
  "vc_callbacks =
     \<lparr>ccb_OnConnected = True, ccb_OnDisconnected = True, ccb_OnFloorGranted = True,
      ccb_OnFloorDenied = True, ccb_OnFloorReleased = True, ccb_OnFloorRevoked = True,
      ccb_OnFloorStatus = True, ccb_OnError = True\<rparr>"

definition new_events :: "Client \<Rightarrow> Client \<Rightarrow> client_event list" where
  "new_events c c' = drop (length (cl_log c)) (cl_log c')"

text \<open>A call of the TCP client without the mutex: its callbacks run as they come.\<close>

definition vc_run :: "(Client \<Rightarrow> Client \<times> 'r) \<Rightarrow> Client \<Rightarrow> VClient \<Rightarrow> VClient \<times> 'r" where
  "vc_run call c v =
     (let (c', r) = call c
      in (fold vc_callback (new_events c c') (v\<lparr>vc_client := Some c'\<rparr>), r))"

definition vc_step :: "client_step \<Rightarrow> VClient \<Rightarrow> VClient" where
  "vc_step st v =
     (case vc_client v of
        Some c \<Rightarrow> fst (vc_run (\<lambda>c. (run_step st c, ())) c v)
      | None \<Rightarrow> v)"

text \<open>
  What the read loop does while a call holds the mutex: the steps up to the first whose callback
  takes it, whether there is one, and the steps that have to wait.
\<close>

fun until_blocked :: "client_step list \<Rightarrow> Client \<Rightarrow> client_step list \<times> bool \<times> client_step list" where
  "until_blocked [] c = ([], False, [])"
| "until_blocked (st # sts) c =
     (let c' = run_step st c in
      if list_ex locking (new_events c c') then ([st], True, sts)
      else let (ran, blocked, waiting) = until_blocked sts c'
           in (st # ran, blocked, waiting))"

text \<open>
  The callbacks of a call that held the mutex: those that do not take it ran at once, those that
  do run when it is released, and then the read loop goes on.
\<close>

definition unlock :: "client_event list \<Rightarrow> client_step list \<Rightarrow> VClient \<Rightarrow> VClient" where
  "unlock evs waiting v = fold vc_step waiting (fold vc_callback (filter locking evs) v)"

section \<open>Operations\<close>

text \<open>
  \<open>dialed\<close>, \<open>early\<close> and \<open>meanwhile\<close> are the dial, the steps before the flag is stored, and the
  steps during the Hello. The mutex is released on return.
\<close>

definition vc_Connect ::
    "string option \<Rightarrow> (nat \<Rightarrow> bool) \<Rightarrow> client_step list \<Rightarrow> client_step list \<Rightarrow> bool \<Rightarrow>
     VClient \<Rightarrow> VClient \<times> v_error option" where
  "vc_Connect dialed writes early meanwhile takes_response v =
     (if vc_closed v then (v, Some ErrClientClosed)
      else
        let config = DefaultClientConfig (vc_serverAddr v) (vc_conferenceID v) (vc_userID v);
            c0 = NewClient (Some config) vc_callbacks;
            opened = (case dialed of
                        Some remote \<Rightarrow>
                          setState StateConnected (c0\<lparr>cl_transport := Some (NewTransport remote RoleActive)\<rparr>)
                      | None \<Rightarrow> c0);
            (ran, blocked, waiting) = until_blocked early opened;
            (c1, err) = cl_Connect dialed ran c0
        in case err of
             Some err \<Rightarrow> (v\<lparr>vc_client := Some c1\<rparr>, Some (CallFailed err))
           | None \<Rightarrow>
               let (ran2, blocked2, waiting2) =
                     (if blocked then ([], True, waiting @ meanwhile)
                      else until_blocked meanwhile (helloWaiting writes c1));
                   (c2, err) = cl_Hello writes ran2 takes_response c1;
                   (c2, err) = (case err of
                                  Some err \<Rightarrow> (cl_Disconnect writes c2, Some (CallFailed err))
                                | None \<Rightarrow> (c2, None));
                   evs = new_events c0 c2;
                   v = fold vc_callback (filter (Not \<circ> locking) evs) (v\<lparr>vc_client := Some c2\<rparr>)
               in (unlock evs waiting2 v, err))"

text \<open>
  \<open>None\<close> is a call that never returns: its own callback waits for the mutex it holds.
\<close>

definition vc_RequestFloor ::
    "time \<Rightarrow> (nat \<Rightarrow> bool) \<Rightarrow> client_step list \<Rightarrow> bool \<Rightarrow> u16 \<Rightarrow>
     (floorRequestOptions \<Rightarrow> floorRequestOptions) list \<Rightarrow> VClient \<Rightarrow>
     (VClient \<times> (v_error, u16) res) option" where
  "vc_RequestFloor now writes meanwhile takes_response floorID opts v =
     (if vc_closed v then Some (v, Fail ErrClientClosed)
      else if \<not> vc_connected v then Some (v, Fail ErrClientNotConnected)
      else if floorID = 0 then Some (v, Fail ErrInvalidFloorID)
      else
        let options = request_options opts
        in case vc_client v of
             None \<Rightarrow> Some (v\<lparr>vc_panicked := True\<rparr>, Panic)
           | Some c \<Rightarrow>
               let (ran, blocked, waiting) = until_blocked meanwhile
                     (requestWaiting writes floorID (opt_beneficiaryID options) (opt_priority options) c);
                   (c', r) = cl_RequestFloor now writes ran takes_response floorID
                               (opt_beneficiaryID options) (opt_priority options) c;
                   evs = new_events c c';
                   stuck = (\<not> blocked \<and> list_ex locking evs \<or> 1 < length (filter locking evs));
                   v = fold vc_callback (filter (Not \<circ> locking) evs) (v\<lparr>vc_client := Some c'\<rparr>)
               in if stuck then None
                  else
                    (case r of
                       Ok requestID \<Rightarrow>
                         let req = \<lparr>vfr_RequestID = requestID, vfr_FloorID = floorID,
                                    vfr_Status = RequestStatusPending,
                                    vfr_Priority = opt_priority options, vfr_QueuePosition = 0,
                                    vfr_RequestedAt = now, vfr_Information = opt_information options,
                                    vfr_BeneficiaryID = opt_beneficiaryID options\<rparr>;
                             v = v\<lparr>vc_activeRequests := put requestID req (vc_activeRequests v)\<rparr>
                         in Some (unlock evs waiting v, Ok requestID)
                     | Fail err \<Rightarrow> Some (unlock evs waiting v, Fail (CallFailed err))
                     | Panic \<Rightarrow> Some (v, Panic)))"

definition vc_ReleaseFloor ::
    "(nat \<Rightarrow> bool) \<Rightarrow> client_step list \<Rightarrow> bool \<Rightarrow> u16 \<Rightarrow> VClient \<Rightarrow> VClient \<times> v_error option" where
  "vc_ReleaseFloor writes meanwhile takes_response requestID v =
     (if vc_closed v then (v, Some ErrClientClosed)
      else if \<not> vc_connected v then (v, Some ErrClientNotConnected)
      else if requestID = 0 then (v, Some ErrInvalidRequestID)
      else
        case lookup (vc_activeRequests v) requestID of
          None \<Rightarrow> (v, Some RequestIDNotFound)
        | Some req \<Rightarrow>
            (case vc_client v of
               None \<Rightarrow> (v\<lparr>vc_panicked := True\<rparr>, None)
             | Some c \<Rightarrow>
                 let (v, err) = vc_run (cl_ReleaseFloor writes meanwhile takes_response (vfr_FloorID req)) c v
                 in (v, map_option CallFailed err)))"

text \<open>
  \<open>order\<close> is the order in which \<^verbatim>\<open>range\<close> meets the held floors, \<open>waits\<close> what happens during the
  call for a floor.
\<close>

definition releaseOne ::
    "(nat \<Rightarrow> bool) \<Rightarrow> (u16 \<Rightarrow> client_step list \<times> bool) \<Rightarrow> u16 \<Rightarrow>
     VClient \<times> v_error option \<Rightarrow> VClient \<times> v_error option" where
  "releaseOne writes waits floorID x =
     (case x of (v, lastErr) \<Rightarrow>
        (case vc_client v of
           None \<Rightarrow> (v\<lparr>vc_panicked := True\<rparr>, lastErr)
         | Some c \<Rightarrow>
             let (v, err) = vc_run (cl_ReleaseFloor writes (fst (waits floorID)) (snd (waits floorID)) floorID) c v
             in (v, case err of Some err \<Rightarrow> Some (CallFailed err) | None \<Rightarrow> lastErr)))"

definition ReleaseAllFloors ::
    "((u16, u16) gomap \<Rightarrow> (u16, u16) gomap) \<Rightarrow> (nat \<Rightarrow> bool) \<Rightarrow>
     (u16 \<Rightarrow> client_step list \<times> bool) \<Rightarrow> VClient \<Rightarrow> VClient \<times> v_error option" where
  "ReleaseAllFloors order writes waits v =
     (if vc_closed v then (v, Some ErrClientClosed)
      else if \<not> vc_connected v then (v, Some ErrClientNotConnected)
      else fold (releaseOne writes waits) (map fst (order (vc_heldFloors v))) (v, None))"

record ClientStatus =
  cs_ID :: string
  cs_UserID :: u16
  cs_Connected :: bool
  cs_ActiveFloors :: "u16 list"
  cs_PendingRequests :: "u16 list"
  cs_LastActivity :: time

definition GetStatus ::
    "time \<Rightarrow> ((u16, u16) gomap \<Rightarrow> (u16, u16) gomap) \<Rightarrow>
     ((u16, VFloorRequest) gomap \<Rightarrow> (u16, VFloorRequest) gomap) \<Rightarrow> VClient \<Rightarrow> ClientStatus" where
  "GetStatus now order order_requests v =
     \<lparr>cs_ID = vc_id v, cs_UserID = vc_userID v, cs_Connected = vc_connected v,
      cs_ActiveFloors = map fst (order (vc_heldFloors v)),
      cs_PendingRequests =
        map fst (filter (\<lambda>(_, req). vfr_Status req = RequestStatusPending \<or>
                                    vfr_Status req = RequestStatusAccepted)
                   (order_requests (vc_activeRequests v))),
      cs_LastActivity = now\<rparr>"

text \<open>\<^verbatim>\<open>Disconnect\<close> only returns an error when the socket cannot be closed.\<close>

definition vc_Close ::
    "((u16, u16) gomap \<Rightarrow> (u16, u16) gomap) \<Rightarrow> (nat \<Rightarrow> bool) \<Rightarrow>
     (u16 \<Rightarrow> client_step list \<times> bool) \<Rightarrow> VClient \<Rightarrow> VClient" where
  "vc_Close order writes waits v =
     (if vc_closed v then v
      else
        let v = v\<lparr>vc_closed := True\<rparr> in
        case vc_client v of
          None \<Rightarrow> v
        | Some client \<Rightarrow>
            let v = fst (ReleaseAllFloors order writes waits v) in
            (case vc_client v of
               None \<Rightarrow> v
             | Some c \<Rightarrow> fst (vc_run (\<lambda>c. (cl_Disconnect writes c, ())) c v)))"

section \<open>What the application is told\<close>

text \<open>The floors an application holds if it believes the callbacks it got.\<close>

fun told :: "v_event \<Rightarrow> (u16 \<Rightarrow> u16 option) \<Rightarrow> u16 \<Rightarrow> u16 option" where
  "told (VOnFloorGranted k r) h = h(k \<mapsto> r)"
| "told (VOnFloorRevoked k r) h = h(k := None)"
| "told (VOnFloorReleased k r) h = h(k := None)"
| "told _ h = h"

definition held_as_told :: "v_event list \<Rightarrow> u16 \<Rightarrow> u16 option" where
  "held_as_told evs = fold told evs (\<lambda>_. None)"

definition view_ok :: "VClient \<Rightarrow> bool" where
  "view_ok v \<longleftrightarrow> lookup (vc_heldFloors v) = held_as_told (vc_log v)"

lemma view_ok_fields [simp]:
  "view_ok (v\<lparr>vc_client := c\<rparr>) = view_ok v" "view_ok (v\<lparr>vc_connected := b\<rparr>) = view_ok v"
  "view_ok (v\<lparr>vc_closed := b\<rparr>) = view_ok v" "view_ok (v\<lparr>vc_panicked := b\<rparr>) = view_ok v"
  "view_ok (v\<lparr>vc_activeRequests := m\<rparr>) = view_ok v"
  by (simp_all add: view_ok_def)

lemma view_ok_callback: "view_ok v \<Longrightarrow> view_ok (vc_callback ev v)"
  by (cases ev)
     (auto simp: vc_callback_def vc_emit_def view_ok_def held_as_told_def dropRequest_def Let_def
       split: option.splits)

lemma view_ok_callbacks: "view_ok v \<Longrightarrow> view_ok (fold vc_callback evs v)"
  by (induction evs arbitrary: v) (simp_all add: view_ok_callback)

lemma view_ok_run: "view_ok v \<Longrightarrow> view_ok (fst (vc_run call c v))"
  by (simp add: vc_run_def split_beta Let_def view_ok_callbacks)

lemma view_ok_step: "view_ok v \<Longrightarrow> view_ok (vc_step st v)"
  by (simp add: vc_step_def view_ok_run split: option.splits)

lemma view_ok_unlock: "view_ok v \<Longrightarrow> view_ok (unlock evs sts v)"
proof -
  have "view_ok v \<Longrightarrow> view_ok (fold vc_step sts v)" for v
    by (induction sts arbitrary: v) (simp_all add: view_ok_step)
  then show "view_ok v \<Longrightarrow> view_ok (unlock evs sts v)"
    by (simp add: unlock_def view_ok_callbacks)
qed

lemma view_ok_Connect: "view_ok v \<Longrightarrow> view_ok (fst (vc_Connect dialed writes early meanwhile takes v))"
  by (simp add: vc_Connect_def Let_def split_beta view_ok_unlock view_ok_callbacks split: option.splits)

lemma view_ok_RequestFloor:
  "view_ok v \<Longrightarrow> vc_RequestFloor now writes meanwhile takes k opts v = Some (v', r) \<Longrightarrow> view_ok v'"
  by (auto simp: vc_RequestFloor_def Let_def split_beta view_ok_callbacks
      split: option.splits if_splits res.splits intro!: view_ok_unlock)

lemma view_ok_ReleaseFloor: "view_ok v \<Longrightarrow> view_ok (fst (vc_ReleaseFloor writes meanwhile takes r v))"
  by (simp add: vc_ReleaseFloor_def Let_def split_beta view_ok_run split: option.splits)

lemma view_ok_ReleaseAllFloors: "view_ok v \<Longrightarrow> view_ok (fst (ReleaseAllFloors order writes waits v))"
proof -
  have one: "view_ok (fst x) \<Longrightarrow> view_ok (fst (releaseOne writes waits k x))" for k x
    by (cases x) (simp add: releaseOne_def Let_def split_beta view_ok_run split: option.splits)
  have "view_ok (fst x) \<Longrightarrow> view_ok (fst (fold (releaseOne writes waits) ks x))" for ks x
    by (induction ks arbitrary: x) (simp_all add: one)
  then show "view_ok v \<Longrightarrow> view_ok (fst (ReleaseAllFloors order writes waits v))"
    by (simp add: ReleaseAllFloors_def)
qed

lemma view_ok_Close: "view_ok v \<Longrightarrow> view_ok (vc_Close order writes waits v)"
  by (simp add: vc_Close_def Let_def view_ok_run view_ok_ReleaseAllFloors split: option.splits)

text \<open>The states of a virtual client under any use and any network.\<close>

inductive vc_reachable :: "VClient \<Rightarrow> bool" where
  new: "vc_New cid addr conf uid timeout = Ok v \<Longrightarrow> vc_reachable v"
| network: "vc_reachable v \<Longrightarrow> vc_reachable (vc_step st v)"
| connect: "vc_reachable v \<Longrightarrow> vc_reachable (fst (vc_Connect dialed writes early meanwhile takes v))"
| request: "vc_reachable v \<Longrightarrow>
    vc_RequestFloor now writes meanwhile takes k opts v = Some (v', r) \<Longrightarrow> vc_reachable v'"
| release: "vc_reachable v \<Longrightarrow> vc_reachable (fst (vc_ReleaseFloor writes meanwhile takes r v))"
| releaseAll: "vc_reachable v \<Longrightarrow> vc_reachable (fst (ReleaseAllFloors order writes waits v))"
| close: "vc_reachable v \<Longrightarrow> vc_reachable (vc_Close order writes waits v)"

lemma vc_reachable_view: "vc_reachable v \<Longrightarrow> view_ok v"
proof (induction rule: vc_reachable.induct)
  case (new cid addr conf uid timeout v)
  then show ?case
    by (auto simp: vc_New_def Let_def view_ok_def held_as_told_def split: if_splits)
qed (simp_all add: view_ok_step view_ok_Connect view_ok_ReleaseFloor view_ok_ReleaseAllFloors
      view_ok_Close view_ok_RequestFloor)

section \<open>A floor request on an open connection\<close>

definition open_client :: "(nat \<Rightarrow> bool) \<Rightarrow> Client \<Rightarrow> bool" where
  "open_client writes c \<longleftrightarrow> cl_connected c \<and> (\<forall>n. writes n) \<and> cl_callbacks c = vc_callbacks \<and>
     (case cl_transport c of Some t \<Rightarrow> \<not> tr_closed t | None \<Rightarrow> False)"

lemma floorRequestMessage_result:
  assumes "floorRequestMessage k b p c = (c', msg)"
  shows "c' = c\<lparr>cl_nextTxID := cl_nextTxID c + 1\<rparr>" "TransactionID msg = ucast (cl_nextTxID c + 1)"
    "wfMessage msg"
proof -
  let ?m0 = "AddFloorID k (cl_newMessage PrimitiveFloorRequest (ucast (cl_nextTxID c + 1)) c')"
  let ?m1 = "if b > 0 then AddBeneficiaryID b ?m0 else ?m0"
  have m: "msg = (if p > 0 then AddPriority p ?m1 else ?m1)"
    and c': "c' = c\<lparr>cl_nextTxID := cl_nextTxID c + 1\<rparr>"
    using assms by (auto simp: floorRequestMessage_def cl_nextTransactionID_def Let_def cl_newMessage_def)
  show "c' = c\<lparr>cl_nextTxID := cl_nextTxID c + 1\<rparr>" by (fact c')
  show "TransactionID msg = ucast (cl_nextTxID c + 1)"
    by (simp add: m AddFloorID_def AddBeneficiaryID_def AddPriority_def AddAttribute_def
        cl_newMessage_def NewMessage_def)
  show "wfMessage msg"
    by (simp add: m AddFloorID_def AddBeneficiaryID_def AddPriority_def AddAttribute_def
        cl_newMessage_def NewMessage_def wfMessage_def wfAttr_def payloadSize_def attrSize_def)
qed

lemma cl_send_open:
  assumes "open_client writes c" "wfMessage msg"
  shows "\<exists>data. Decode data = Ok (decodedMessage msg) \<and> cl_send writes msg c
    = (cl_emit True (CSent data) (c\<lparr>cl_writes := Suc (cl_writes c)\<rparr>), None)"
  using assms Decode_Encode_wf [OF assms(2)]
  by (auto simp: cl_send_def open_client_def tr_SendMessage_def split: option.splits)

text \<open>The client that waits for the answer: its channel is empty, and nothing but the bytes went out.\<close>

lemma requestWaiting_open:
  assumes "open_client writes c"
  shows "\<exists>c1 msg ch data. floorRequestMessage k b p c = (c\<lparr>cl_nextTxID := cl_nextTxID c + 1\<rparr>, msg) \<and>
    TransactionID msg = ucast (cl_nextTxID c + 1) \<and>
    beginWait msg (c\<lparr>cl_nextTxID := cl_nextTxID c + 1\<rparr>) = (c1, ch) \<and>
    cl_send writes msg c1 = (requestWaiting writes k b p c, None) \<and>
    lookup (cl_pendingResponses (requestWaiting writes k b p c)) (ucast (cl_nextTxID c + 1)) = Some ch \<and>
    cl_chan_at (requestWaiting writes k b p c) ch = \<lparr>ch_value = None, ch_closed = False\<rparr> \<and>
    cl_callbacks (requestWaiting writes k b p c) = vc_callbacks \<and>
    cl_log (requestWaiting writes k b p c) = cl_log c @ [CSent data] \<and>
    Decode data = Ok (decodedMessage msg)"
proof -
  let ?c0 = "c\<lparr>cl_nextTxID := cl_nextTxID c + 1\<rparr>"
  obtain c' msg where f: "floorRequestMessage k b p c = (c', msg)" by (cases "floorRequestMessage k b p c")
  note m = floorRequestMessage_result [OF f]
  obtain c1 ch where b: "beginWait msg ?c0 = (c1, ch)" by (cases "beginWait msg ?c0")
  then have c1: "c1 = ?c0\<lparr>cl_fresh := Suc (cl_fresh c),
      cl_chan_at := (cl_chan_at c)(cl_fresh c := \<lparr>ch_value = None, ch_closed = False\<rparr>),
      cl_pendingResponses := put (TransactionID msg) (cl_fresh c) (cl_pendingResponses c)\<rparr>"
    "ch = cl_fresh c" by (auto simp: beginWait_def Let_def)
  have "open_client writes c1" using assms by (simp add: open_client_def c1(1))
  from cl_send_open [OF this m(3)] obtain data where d: "Decode data = Ok (decodedMessage msg)"
    and s: "cl_send writes msg c1 = (cl_emit True (CSent data) (c1\<lparr>cl_writes := Suc (cl_writes c1)\<rparr>), None)" by blast
  have w: "requestWaiting writes k b p c = cl_emit True (CSent data) (c1\<lparr>cl_writes := Suc (cl_writes c1)\<rparr>)"
    using f m(1) b s by (simp add: requestWaiting_def startWaiting_def)
  have "cl_callbacks c = vc_callbacks" using assms by (simp add: open_client_def)
  with f m b s w d show ?thesis
    by (intro exI [of _ c1] exI [of _ msg] exI [of _ ch] exI [of _ data])
       (simp add: c1 cl_emit_def)
qed

lemma cl_RequestFloor_waiting:
  assumes "open_client writes c"
    and "floorRequestMessage k b p c = (c\<lparr>cl_nextTxID := cl_nextTxID c + 1\<rparr>, msg)"
    and "beginWait msg (c\<lparr>cl_nextTxID := cl_nextTxID c + 1\<rparr>) = (c1, ch)"
    and "cl_send writes msg c1 = (requestWaiting writes k b p c, None)"
  shows "cl_RequestFloor now writes sts takes k b p c =
    (let c' = fold run_step sts (requestWaiting writes k b p c) in
     case ch_value (cl_chan_at c' ch) of
       Some response \<Rightarrow>
         if takes then floorAnswered now k b p response
           (endWait msg ch (c'\<lparr>cl_chan_at := (cl_chan_at c')(ch := (cl_chan_at c' ch)\<lparr>ch_value := None\<rparr>)\<rparr>))
         else (endWait msg ch c', Fail (ResponseTimeout (Primitive msg)))
     | None \<Rightarrow> (endWait msg ch c', Fail (ResponseTimeout (Primitive msg))))"
  using assms
  by (auto simp: cl_RequestFloor_def sendAndWait_def open_client_def Let_def split: option.splits)

lemma floorRequestMessage_Primitive:
  "Primitive (snd (floorRequestMessage k b p c)) = PrimitiveFloorRequest"
  by (simp add: floorRequestMessage_def split_beta Let_def AddFloorID_def AddBeneficiaryID_def
      AddPriority_def AddAttribute_def cl_newMessage_def NewMessage_def)

section \<open>Properties\<close>


text \<open>A client connected to a server, and the answers it may get.\<close>

definition joined :: VClient where
  "joined = (case vc_New ''webrtc-1'' ''10.0.0.9:5070'' 1 100 0 of
     Ok v \<Rightarrow> fst (vc_Connect (Some ''10.0.0.9:5070'') (\<lambda>_. True) []
               [Incoming 5 (NewMessage PrimitiveHelloAck 1 1 100)] True v))"

definition status_message :: "u16 \<Rightarrow> u16 \<Rightarrow> RequestStatus \<Rightarrow> u16 \<Rightarrow> message" where
  "status_message txID requestID status floorID =
     AddRequestStatus status 0 (AddFloorRequestID requestID (AddFloorID floorID
       (NewMessage PrimitiveFloorRequestStatus 1 txID 100)))"

lemma status_message_read:
  "Primitive (status_message txID r st k) = PrimitiveFloorRequestStatus"
  "TransactionID (status_message txID r st k) = txID"
  "GetFloorID (status_message txID r st k) = Some k"
  "GetFloorRequestID (status_message txID r st k) = Some r"
  "GetRequestStatus (status_message txID r st k) = Some (st, 0)"
  by (simp_all add: status_message_def AddRequestStatus_def AddFloorRequestID_def AddFloorID_def
      AddAttribute_def NewMessage_def GetFloorID_def GetFloorRequestID_def GetRequestStatus_def
      GetAttribute_def attrUint16_def)

lemma joined_facts:
  "vc_reachable joined" "\<not> vc_closed joined" "vc_connected joined"
  "\<exists>c. vc_client joined = Some c \<and> open_client (\<lambda>_. True) c \<and> cl_nextTxID c = 1 \<and>
     cl_pendingResponses c = []"
proof -
  obtain v where v: "vc_New ''webrtc-1'' ''10.0.0.9:5070'' 1 100 0 = Ok v"
    by (simp add: vc_New_def Let_def)
  with vc_reachable.connect [OF vc_reachable.new [OF v]] show "vc_reachable joined"
    by (simp add: joined_def)
  show "\<not> vc_closed joined" "vc_connected joined" by code_simp+
  have "map_option cl_nextTxID (vc_client joined) = Some 1"
    "map_option cl_pendingResponses (vc_client joined) = Some []"
    "map_option cl_connected (vc_client joined) = Some True"
    "map_option cl_callbacks (vc_client joined) = Some vc_callbacks"
    "map_option (\<lambda>c. case cl_transport c of Some t \<Rightarrow> \<not> tr_closed t | None \<Rightarrow> False) (vc_client joined)
       = Some True"
    by code_simp+
  then show "\<exists>c. vc_client joined = Some c \<and> open_client (\<lambda>_. True) c \<and> cl_nextTxID c = 1 \<and>
      cl_pendingResponses c = []"
    by (auto simp: open_client_def)
qed


text \<open>C36. A grant in the answer to the request deadlocks: when the server answers a floor request
  at once with Granted, \<^verbatim>\<open>RequestFloor\<close> of the virtual client never returns, since the callback that
  runs before it returns waits for the mutex it holds.\<close>
theorem grant_in_answer_deadlocks:
  assumes "open_client writes c" "vc_client v = Some c" "vc_connected v" "\<not> vc_closed v" "k \<noteq> 0"
    and "Primitive m = PrimitiveFloorRequestStatus" "TransactionID m = ucast (cl_nextTxID c + 1)"
    and "GetFloorRequestID m = Some r" "GetRequestStatus m = Some (RequestStatusGranted, q)"
  shows "vc_RequestFloor now writes [Incoming t m] True k opts v = None"
proof -
  let ?b = "opt_beneficiaryID (request_options opts)" and ?p = "opt_priority (request_options opts)"
  let ?w = "requestWaiting writes k ?b ?p c"
  from requestWaiting_open [OF assms(1), of k ?b ?p] obtain c1 msg ch data where
    w: "floorRequestMessage k ?b ?p c = (c\<lparr>cl_nextTxID := cl_nextTxID c + 1\<rparr>, msg)"
      "beginWait msg (c\<lparr>cl_nextTxID := cl_nextTxID c + 1\<rparr>) = (c1, ch)"
      "cl_send writes msg c1 = (?w, None)"
      "lookup (cl_pendingResponses ?w) (ucast (cl_nextTxID c + 1)) = Some ch"
      "cl_chan_at ?w ch = \<lparr>ch_value = None, ch_closed = False\<rparr>"
      "cl_callbacks ?w = vc_callbacks" "cl_log ?w = cl_log c @ [CSent data]" by blast
  let ?w' = "?w\<lparr>cl_chan_at := (cl_chan_at ?w)(ch := \<lparr>ch_value = Some m, ch_closed = False\<rparr>)\<rparr>"
  have step: "run_step (Incoming t m) ?w = ?w'"
    using w(4,5) assms(7) by (simp add: cl_handleMessage_def pendingChan_def deliverMessage_def)
  have ub: "until_blocked [Incoming t m] ?w = ([Incoming t m], False, [])"
    using step by (simp add: new_events_def Let_def)
  obtain c' where c': "cl_RequestFloor now writes [Incoming t m] True k ?b ?p c = (c', Ok r)"
    "cl_log c' = cl_log c @ [CSent data, COnFloorGranted k r]"
    using cl_RequestFloor_waiting [OF assms(1) w(1-3), of now "[Incoming t m]" True] step assms(6,8,9) w(6,7)
    by (auto simp: Let_def floorAnswered_def endWait_def setState_def cl_emit_def vc_callbacks_def)
  then have "new_events c c' = [CSent data, COnFloorGranted k r]" by (simp add: new_events_def)
  with assms(2-5) ub c'(1) show ?thesis
    by (simp add: vc_RequestFloor_def Let_def del: run_step.simps until_blocked.simps)
qed

theorem grant_in_answer_deadlocks_witness:
  "vc_RequestFloor 6 (\<lambda>_. True) [Incoming 6 (status_message 2 1 RequestStatusGranted 3)] True 3 [] joined = None"
proof -
  from joined_facts(4) obtain c where "vc_client joined = Some c" "open_client (\<lambda>_. True) c"
    "cl_nextTxID c = 1" by blast
  then show ?thesis
    by (intro grant_in_answer_deadlocks [where c = c, OF _ _ joined_facts(3,2)]) (simp_all add: status_message_read)
qed

text \<open>C37. A release broadcast fails the request: a notification that some floor was released, arriving
  while \<^verbatim>\<open>RequestFloor\<close> waits, blocks the read loop on the mutex, so that the answer is not read and
  the call fails with a timeout, whatever the answer was.\<close>
theorem broadcast_fails_request:
  assumes "open_client writes c" "vc_client v = Some c" "vc_connected v" "\<not> vc_closed v" "k \<noteq> 0"
    and "Primitive b = PrimitiveFloorRequestStatus" "GetFloorID b = Some k'"
    and "GetRequestStatus b = Some (RequestStatusReleased, q)"
    and "lookup (cl_pendingResponses c) (TransactionID b) = None"
    and "TransactionID b \<noteq> ucast (cl_nextTxID c + 1)"
  shows "\<exists>v'. vc_RequestFloor now writes (Incoming t b # later) takes k opts v
    = Some (v', Fail (CallFailed (ResponseTimeout PrimitiveFloorRequest)))"
proof -
  let ?b = "opt_beneficiaryID (request_options opts)" and ?p = "opt_priority (request_options opts)"
  let ?w = "requestWaiting writes k ?b ?p c"
  from requestWaiting_open [OF assms(1), of k ?b ?p] obtain c1 msg ch data where
    w: "floorRequestMessage k ?b ?p c = (c\<lparr>cl_nextTxID := cl_nextTxID c + 1\<rparr>, msg)"
      "TransactionID msg = ucast (cl_nextTxID c + 1)"
      "beginWait msg (c\<lparr>cl_nextTxID := cl_nextTxID c + 1\<rparr>) = (c1, ch)"
      "cl_send writes msg c1 = (?w, None)"
      "cl_chan_at ?w ch = \<lparr>ch_value = None, ch_closed = False\<rparr>"
      "cl_callbacks ?w = vc_callbacks" "cl_log ?w = cl_log c @ [CSent data]" by blast
  have pend: "cl_pendingResponses ?w = put (TransactionID msg) ch (cl_pendingResponses c)"
    using w(3,4) same_calls_send [of c1 writes msg] by (auto simp: beginWait_def Let_def same_calls_def)
  define c2 where "c2 = run_step (Incoming t b) ?w"
  have c2: "cl_chan_at c2 ch = \<lparr>ch_value = None, ch_closed = False\<rparr>"
    "cl_log c2 = cl_log c @ [CSent data, COnFloorReleased k']" "cl_log ?w = cl_log c @ [CSent data]"
    using assms(6-10) w(2,5-7) pend
    by (simp_all add: c2_def cl_handleMessage_def pendingChan_def deliverMessage_def dispatch_def
        handleFloorRequestStatus_def Let_def cl_emit_def setState_def vc_callbacks_def)
  have ub: "until_blocked (Incoming t b # later) ?w = ([Incoming t b], True, later)"
    using c2(2,3) by (simp add: c2_def [symmetric] new_events_def Let_def del: run_step.simps)
  have "Primitive msg = PrimitiveFloorRequest"
    using floorRequestMessage_Primitive [of k ?b ?p c] w(1) by simp
  with cl_RequestFloor_waiting [OF assms(1) w(1,3,4), of now "[Incoming t b]" takes] c2(1)
  have r: "cl_RequestFloor now writes [Incoming t b] takes k ?b ?p c
      = (endWait msg ch c2, Fail (ResponseTimeout PrimitiveFloorRequest))"
    by (simp add: c2_def [symmetric] Let_def del: run_step.simps)
  have "new_events c (endWait msg ch c2) = [CSent data, COnFloorReleased k']"
    using c2(2) by (simp add: new_events_def endWait_def)
  with assms(2-5) ub r show ?thesis
    by (simp add: vc_RequestFloor_def Let_def del: run_step.simps until_blocked.simps)
qed

theorem broadcast_fails_request_witness:
  "\<exists>v'. vc_RequestFloor 6 (\<lambda>_. True)
      [Incoming 6 (status_message 77 0 RequestStatusReleased 8), Incoming 7 (status_message 2 1 RequestStatusGranted 3)]
      True 3 [] joined = Some (v', Fail (CallFailed (ResponseTimeout PrimitiveFloorRequest)))"
proof -
  from joined_facts(4) obtain c where "vc_client joined = Some c" "open_client (\<lambda>_. True) c"
    "cl_nextTxID c = 1" "cl_pendingResponses c = []" by blast
  then show ?thesis
    by (intro broadcast_fails_request [where c = c, OF _ _ joined_facts(3,2)]) (simp_all add: status_message_read)
qed

text \<open>Closing releases nothing: \<^verbatim>\<open>Close\<close> sends no floor release, though it means to release all
  floors first; it sends at most the Goodbye, and the tables keep the floors.\<close>
lemma close_releases_nothing:
  assumes "\<not> vc_closed v" "vc_client v = Some c" "\<And>n. writes n"
  shows "vc_heldFloors (vc_Close order writes waits v) = vc_heldFloors v \<and>
    (\<exists>c'. vc_client (vc_Close order writes waits v) = Some c' \<and>
       cl_activeRequests c' = cl_activeRequests c \<and>
       (\<forall>data \<in> {data. CSent data \<in> set (new_events c c')}.
          \<exists>m. Decode data = Ok m \<and> Primitive m = PrimitiveGoodbye))"
proof -
  let ?v = "v\<lparr>vc_closed := True\<rparr>"
  have r: "fst (ReleaseAllFloors order writes waits ?v) = ?v" by (simp add: ReleaseAllFloors_def)
  let ?c' = "cl_Disconnect writes c"
  have close: "vc_Close order writes waits v = fold vc_callback (new_events c ?c') (?v\<lparr>vc_client := Some ?c'\<rparr>)"
    using assms(1,2) r by (simp add: vc_Close_def vc_run_def Let_def)
  let ?g = "cl_newMessage PrimitiveGoodbye (ucast (cl_nextTxID c + 1)) c"
  have wf: "wfMessage ?g" by (simp add: cl_newMessage_def NewMessage_def wfMessage_def payloadSize_def)
  from Decode_Encode_wf [OF wf] obtain bs where bs: "Encode ?g = Ok (withPayloadLength ?g, bs)"
    "Decode bs = Ok (decodedMessage ?g)" by blast
  have g: "Primitive (decodedMessage ?g) = PrimitiveGoodbye"
    by (simp add: decodedMessage_def withPayloadLength_def cl_newMessage_def NewMessage_def)
  have ev: "new_events c ?c' = [] \<or> new_events c ?c' = [CSent bs]"
    using bs(1)
    by (auto simp: cl_Disconnect_def cl_Goodbye_def cl_nextTransactionID_def cl_send_def cl_emit_def
        new_events_def Let_def cl_newMessage_def tr_SendMessage_def split: option.splits)
  have act: "cl_activeRequests ?c' = cl_activeRequests c"
    by (simp add: cl_Disconnect_def cl_Goodbye_def cl_nextTransactionID_def cl_send_def cl_emit_def
        Let_def split: option.splits res.splits)
  from ev have "vc_Close order writes waits v = ?v\<lparr>vc_client := Some ?c'\<rparr>"
    by (auto simp: close vc_callback_def)
  with ev act bs(2) g show ?thesis by auto
qed

lemma close_releases_nothing_witness:
  "vc_heldFloors (vc_Close (\<lambda>m. m) (\<lambda>_. True) (\<lambda>_. ([], True))
     (vc_step (Incoming 6 (status_message 9 2 RequestStatusGranted 3)) joined)) = [(3, 2)]"
proof -
  let ?v = "vc_step (Incoming 6 (status_message 9 2 RequestStatusGranted 3)) joined"
  have "\<not> vc_closed ?v" "vc_heldFloors ?v = [(3, 2)]" "map_option cl_connected (vc_client ?v) = Some True"
    by code_simp+
  then obtain c where "\<not> vc_closed ?v" "vc_heldFloors ?v = [(3, 2)]" "vc_client ?v = Some c" by auto
  with close_releases_nothing [of ?v c "\<lambda>_. True"] show ?thesis by metis
qed

end
