(* ===== verification/TCP_End_To_End.thy ===== *)
theory TCP_End_To_End
  imports Connections Virtual_Client
begin

text \<open>
  The whole stack over TCP: the application of a virtual client asks for a floor, the TCP client sends the
  request, the server answers it, sleeps and grants the floor while it serves others, and what it writes
  on the connection reaches the callbacks of the virtual client.
\<close>

section \<open>What is written on a connection\<close>

definition written :: "string \<Rightarrow> Server \<Rightarrow> Server \<Rightarrow> byte list list" where
  "written r s s' = map snd (filter (\<lambda>x. fst x = r) (drop (length (outbox s)) (outbox s')))"

fun sent_of :: "client_event \<Rightarrow> byte list list" where
  "sent_of (CSent data) = [data]"
| "sent_of _ = []"

definition sent_data :: "Client \<Rightarrow> Client \<Rightarrow> byte list list" where
  "sent_data c c' = concat (map sent_of (new_events c c'))"

fun decoded :: "byte list list \<Rightarrow> message list" where
  "decoded [] = []"
| "decoded (bs # bss) = (case Decode bs of Ok m \<Rightarrow> m # decoded bss | _ \<Rightarrow> decoded bss)"

definition arrivals :: "Env \<Rightarrow> nat \<Rightarrow> byte list list \<Rightarrow> (Env \<times> tcp_action) list" where
  "arrivals e sid bss = map (\<lambda>m. (e, Arrive sid m)) (decoded bss)"

definition incoming :: "time \<Rightarrow> byte list list \<Rightarrow> client_step list" where
  "incoming now bss = map (Incoming now) (decoded bss)"

lemma decoded_append: "decoded (xs @ ys) = decoded xs @ decoded ys"
  by (induction xs) (simp_all split: res.splits)

lemma written_append:
  assumes "outbox s1 = outbox s0 @ xs" "outbox s2 = outbox s1 @ map (Pair r) bss"
  shows "written r s0 s2 = map snd (filter (\<lambda>x. fst x = r) xs) @ bss"
  using assms by (simp add: written_def filter_map comp_def)

text \<open>The log only grows.\<close>

definition extends :: "Server \<Rightarrow> Server \<Rightarrow> bool" where
  "extends s0 s \<longleftrightarrow> (\<exists>xs. outbox s = outbox s0 @ xs)"

lemma extends_refl [simp]: "extends s s"
  by (simp add: extends_def)

lemma extends_trans: "extends s t \<Longrightarrow> extends t u \<Longrightarrow> extends s u"
  by (auto simp: extends_def)

lemma extends_same: "extends s0 s \<Longrightarrow> outbox s' = outbox s \<Longrightarrow> extends s0 s'"
  by (simp add: extends_def)

lemma extends_frame: "extends s0 s \<Longrightarrow> frame s s' \<Longrightarrow> extends s0 s'"
  using frame_fields(15) [of s s']
  by (auto simp: extends_def outbox_def List.map_filter_def)

interpretation growing: handler_effects "extends s0" for s0
proof
  show "extends s0 s \<Longrightarrow> extends s0 (update_StateMachine sid g s)" for s sid g
    by (erule extends_frame) simp
  show "extends s0 s \<Longrightarrow> extends s0 (update_floor p f s)" for s p f
    by (erule extends_same) simp
  show "extends s0 s \<Longrightarrow> extends s0 (panic s)" for s
    by (erule extends_same) simp
qed (auto intro: extends_frame extends_same simp: outbox_emit outbox_def)

lemma extends_act:
  assumes "tcp_inv ts"
  shows "extends (ts_server ts) (ts_server (tcp_act e a ts))"
proof -
  let ?s = "ts_server ts"
  have l: "sv_udpListener ?s = None" using assms by (simp add: tcp_inv_def)
  show ?thesis
  proof (cases a)
    case (Arrive sid m)
    have "extends ?s (fst (handleMessage e sid m ?s))"
      by (rule growing.handles)
         (auto intro: extends_same [OF extends_refl] extends_same simp: update_transport_def outbox_def [of "_\<lparr>sv_transport_at := _\<rparr>"]
            outbox_def [symmetric])
    then show ?thesis by (auto simp: Arrive arrive_def split: prod.splits option.splits)
  next
    case (Wake sid)
    then show ?thesis
      by (auto simp: wake_def split: option.splits prod.splits intro!: growing.answers)
  next
    case (Keepalive t c u)
    have "frame ?s (sendKeepalive e t c u ?s)" by simp
    with Keepalive extends_frame [OF extends_refl] show ?thesis by simp
  next
    case (Application b)
    have "extends ?s (act e b ?s)"
    proof (cases b)
      case (ApiCreateFloor k)
      then show ?thesis by (simp add: growing.creates)
    next
      case (ApiBroadcastFloorStatus u k r st q)
      then show ?thesis by (simp add: growing.broadcasts)
    next
      case (ApiBroadcastFloorState k x st)
      then show ?thesis by (simp add: growing.broadcasts_state)
    qed (use l in \<open>auto simp: receiveDatagram_def RegisterClient_def NewUDPClient_def ReleaseFloor_def
        GrantFloor_def Let_def split_beta uc_Close_def update_client_def split: option.splits
        intro!: growing.floors extends_same [OF extends_refl] outbox_log\<close>)
    then show ?thesis by (simp add: Application)
  next
    case CloseServer
    have "outbox (fold closeSession sids s) = outbox s" for sids s
      by (induction sids arbitrary: s)
         (simp_all add: closeSession_def update_transport_def outbox_def split: option.splits)
    moreover have "outbox (UDPListener_Close l s) = outbox s" for l s
      by (simp add: UDPListener_Close_def outbox_def)
    ultimately show ?thesis
      by (auto simp: CloseServer Server_Close_def Let_def split: option.splits intro!: extends_same [OF extends_refl])
  next
    case (Lost sid)
    have "outbox (connectionClosed sid ?s) = outbox ?s"
      by (auto simp: connectionClosed_def Let_def update_transport_def split: option.splits intro!: outbox_log)
    then show ?thesis by (auto simp: Lost lose_def intro: extends_same [OF extends_refl])
  next
    case (Accept remote)
    have "outbox (fst (handleConnection e remote ?s)) = outbox ?s"
      by (simp add: handleConnection_def newSession_def Let_def outbox_def)
    then show ?thesis by (auto simp: Accept accept_def split_beta Let_def intro: extends_same [OF extends_refl])
  qed
qed

lemma extends_run:
  assumes "tcp_inv ts" "all_actions (\<lambda>_. True) as"
  shows "extends (ts_server ts) (ts_server (tcp_run as ts))"
  using tcp_run_invariant [where Q = "\<lambda>x. extends (ts_server ts) (ts_server x)", OF assms extends_refl]
    extends_act extends_trans by blast

section \<open>The server's side\<close>

text \<open>
  A handler sleeps on the pending request of its client, and no other handler on the same floor: one
  that does could grant the request before it, without telling its client.
\<close>

definition alone_on :: "nat \<Rightarrow> u16 \<Rightarrow> TCPServer \<Rightarrow> bool" where
  "alone_on sid k ts \<longleftrightarrow> (\<forall>(i, m, p, k', r) \<in> set (ts_sleeping ts). i \<noteq> sid \<longrightarrow> k' \<noteq> k)"

definition awaits :: "nat \<Rightarrow> message \<Rightarrow> nat \<Rightarrow> u16 \<Rightarrow> u16 \<Rightarrow> TCPServer \<Rightarrow> bool" where
  "awaits sid m p k r ts \<longleftrightarrow>
     lookup (ts_sleeping ts) sid = Some (m, p, k, r) \<and> lookup (sv_floors (ts_server ts)) k = Some p \<and>
     floors_view (ts_server ts) k = Some (Asked (UserID m) r) \<and> alone_on sid k ts"

text \<open>Steps that leave the request of user \<open>u\<close> pending.\<close>

fun leaves_pending :: "u16 \<Rightarrow> tcp_action \<Rightarrow> bool" where
  "leaves_pending u (Application (ApiGrantFloor k u')) \<longleftrightarrow> False"
| "leaves_pending u (Application (ApiOnFloor p (OpGrant now))) \<longleftrightarrow> False"
| "leaves_pending u a \<longleftrightarrow> spares u a"

lemma leaves_pending_spares: "leaves_pending u a \<Longrightarrow> spares u a"
  by (cases "(u, a)" rule: leaves_pending.cases) auto

lemma app_spec_pending:
  assumes "app_spec b v v'" "leaves_pending u (Application b)" "v k = Some (Asked u r)"
  shows "v' k = Some (Asked u r)"
proof (cases b)
  case (ApiOnFloor p oper)
  with assms(2) have "abs_op oper (Asked u r) = Asked u r" by (cases oper) simp_all
  with assms ApiOnFloor show ?thesis by auto
qed (use assms in \<open>auto simp: floor_or_free_def split: if_splits\<close>)

lemma sleeps_alone:
  assumes "tcp_inv ts" "env_ok e" "alone_on sid k ts" "floors_view (ts_server ts) k = Some (Asked u r)"
  shows "alone_on sid k (tcp_act e a ts)"
proof -
  let ?s = "ts_server ts"
  show ?thesis
  proof (cases a)
    case (Arrive i m)
    show ?thesis
    proof (cases "i \<in> set (ts_reading ts)")
      case True
      then have t: "tcp_session ?s i" and inv: "server_inv ?s" using assms(1) by (simp_all add: tcp_inv_def)
      have new: "k' \<noteq> k" if "snd (handleMessage e i m ?s) = Some (p, k', r')" for p k' r'
        using handleMessage_refines [OF assms(2) inv t, of m] that assms(4)
        by (auto simp: floor_or_free_def)
      show ?thesis
        using assms(3) True new
        by (auto simp: Arrive arrive_def alone_on_def split: prod.splits option.splits
            dest!: subsetD [OF set_put])
    qed (simp add: Arrive assms(3))
  next
    case (Wake i)
    with assms(3) show ?thesis
      by (auto simp: wake_def alone_on_def split: prod.splits option.splits dest!: subsetD [OF set_del])
  qed (use assms(3) in \<open>auto simp: accept_def lose_def alone_on_def split: prod.splits\<close>)
qed

lemma awaits_act:
  assumes "tcp_inv ts" "env_ok e" "leaves_pending (UserID m) a" "a \<noteq> Wake sid" "awaits sid m p k r ts"
  shows "awaits sid m p k r (tcp_act e a ts)"
proof -
  let ?s = "ts_server ts" and ?v' = "floors_view (ts_server (tcp_act e a ts))"
  have a: "lookup (ts_sleeping ts) sid = Some (m, p, k, r)" "floors_view ?s k = Some (Asked (UserID m) r)"
    "alone_on sid k ts" "request_alive sid m p k r ts"
    using assms(5) by (simp_all add: awaits_def request_alive_def)
  note alive = request_alive_act [OF assms(1,2) leaves_pending_spares [OF assms(3)] assms(4) a(4)]
  have spec: "tcp_spec ts a ?v'" by (rule tcp_act_refines [OF assms(1,2)])
  have "?v' k = Some (Asked (UserID m) r)"
  proof (cases a)
    case (Arrive i m')
    have "\<not> gives_up (UserID m) m'" using assms(3) by (simp add: Arrive)
    with spec a(2) tcp_serves_spares(2) show ?thesis
      by (fastforce simp: Arrive tcp_spec_def Let_def split: if_splits)
  next
    case (Wake i)
    have "k' \<noteq> k" if "lookup (ts_sleeping ts) i = Some (m', p', k', r')" for m' p' k' r'
      using a(3) lookup_in_set [OF that] assms(4) by (auto simp: alone_on_def Wake)
    with spec a(2) show ?thesis by (auto simp: Wake tcp_spec_def Let_def)
  next
    case (Application b)
    with spec a(2) app_spec_pending [of b _ _ "UserID m"] assms(3) show ?thesis
      by (fastforce simp: tcp_spec_def Let_def)
  qed (use spec a(2) in \<open>simp_all add: tcp_spec_def Let_def\<close>)
  with alive sleeps_alone [OF assms(1,2) a(3,2)] show ?thesis
    by (simp add: awaits_def request_alive_def)
qed

lemma request_undisturbed:
  assumes "Primitive m = PrimitiveFloorRequest" "se_Transport (sv_session_at s sid) = Some t"
  shows "undisturbed (update_StateMachine sid (\<lambda>x. x\<lparr>ssm_ClientVersion := Version m\<rparr>)
      (update_StateMachine sid (UpdateActivity (env_now e)) s)) t' (fst (handleMessage e sid m s))"
proof -
  have "se_Transport (sv_session_at (update_StateMachine sid (\<lambda>x. x\<lparr>ssm_ClientVersion := Version m\<rparr>)
      (update_StateMachine sid (UpdateActivity (env_now e)) s)) sid) = Some t"
    using frame_fields(13) [OF frame_update_StateMachine] assms(2) by simp
  with assms(1) show ?thesis
    by (simp add: handleMessage_def Let_def working.TCP_handlers working.calls)
qed

text \<open>The request arrives: its client is told Pending, and its handler sleeps.\<close>

lemma request_arrives:
  assumes "tcp_inv ts" "env_ok e" "writes_succeed e" "sid \<in> set (ts_reading ts)" "conn_open sid r0 ts"
    and "Primitive m = PrimitiveFloorRequest" "GetFloorID m = Some k" "supported (Version m)"
    and "floor_or_free (floors_view (ts_server ts)) k = Free"
    and "policy_of (ts_server ts) k (UserID m) (next_request (ts_server ts))" "alone_on sid k ts"
  defines "r \<equiv> next_request (ts_server ts)" and "ts1 \<equiv> tcp_act e (Arrive sid m) ts"
  shows "\<exists>p. awaits sid m p k r ts1" "conn_open sid r0 ts1"
    "ProtocolVersion_of (sv_session_at (ts_server ts1) sid) = Version m"
    "TCP_Grants.told r0 [says_status m k r RequestStatusPending] (ts_server ts) (ts_server ts1)"
proof -
  let ?s = "ts_server ts"
  have inv: "server_inv ?s" and t: "tcp_session ?s sid" using assms(1,4) by (simp_all add: tcp_inv_def)
  obtain tr where tr: "se_Transport (sv_session_at ?s sid) = Some tr" using t by (auto simp: tcp_session_def)
  from arrive_sleeps [OF assms(1,2,4,6,7,9,10)] obtain p where
    alive: "request_alive sid m p k r ts1" by (auto simp: r_def ts1_def)
  note R = handleMessage_refines [OF assms(2) inv t, of m]
  obtain g where g: "handleMessage e sid m ?s = (fst (handleMessage e sid m ?s), Some g)"
    using R assms(6,7,9,10) by (cases "handleMessage e sid m ?s") auto
  then have ts1: "ts_server ts1 = fst (handleMessage e sid m ?s)" "ts_sleeping ts1 = put sid (m, g) (ts_sleeping ts)"
    using assms(4) by (auto simp: ts1_def arrive_def split: prod.splits option.splits)
  have "alone_on sid k ts1"
    using assms(11) by (auto simp: alone_on_def ts1 dest!: subsetD [OF set_put])
  moreover have "snd (handleMessage e sid m ?s) = Some g" using g by (metis snd_conv)
  with R assms(7) have "floors_view (ts_server ts1) k = Some (Asked (UserID m) r)"
    by (auto simp: ts1 r_def)
  ultimately show "\<exists>p. awaits sid m p k r ts1" using alive by (auto simp: awaits_def request_alive_def)
  note U = request_undisturbed [OF assms(6) tr, of e "Suc tr", folded ts1(1)]
  then have link: "se_Transport (sv_session_at (ts_server ts1) sid) = Some tr"
    "se_UDPTransport (sv_session_at (ts_server ts1) sid) = None"
    "ssm_ClientVersion (se_StateMachine (sv_session_at (ts_server ts1) sid)) = Version m"
    "sv_transport_at (ts_server ts1) tr = sv_transport_at ?s tr" "sv_fresh ?s \<le> sv_fresh (ts_server ts1)"
    using t tr by (simp_all add: undisturbed_def session_link_def update_StateMachine_def tcp_session_def)
  have "Version m \<noteq> 0" using assms(8) by (auto simp: supported_def)
  then show "ProtocolVersion_of (sv_session_at (ts_server ts1) sid) = Version m"
    by (simp add: ProtocolVersion_of_def link word_greater_zero_iff)
  show "conn_open sid r0 ts1"
    using assms(5) link t tr by (auto simp: conn_open_def tcp_open_def tcp_session_def peer_def)
  have "request_answers (policy_of ?s) (next_request ?s) m (floors_view ?s) = [says_status m k r RequestStatusPending]"
    using assms(7,9,10) by (simp add: request_answers_def first_answers_def r_def)
  with arrive_told [OF assms(1,4,5,3,8,6)] show
    "TCP_Grants.told r0 [says_status m k r RequestStatusPending] (ts_server ts) (ts_server ts1)"
    by (simp add: ts1_def)
qed

text \<open>The handler wakes, after steps that leave its request and its connection alone.\<close>

lemma request_wakes:
  assumes "tcp_inv ts1" "own_transports (ts_server ts1)" "awaits sid m p k r ts1" "conn_open sid r0 ts1"
    and "ProtocolVersion_of (sv_session_at (ts_server ts1) sid) = Version m" "supported (Version m)"
    and "all_actions (\<lambda>a. leaves_pending (UserID m) a \<and> \<not> concerns sid a \<and> a \<noteq> Wake sid) as"
    and "writes_succeed e'"
  defines "ts2 \<equiv> tcp_run as ts1"
  defines "ts3 \<equiv> tcp_act e' (Wake sid) ts2"
  shows "TCP_Grants.told r0 [says_status m k r RequestStatusGranted] (ts_server ts2) (ts_server ts3)"
    "floors_view (ts_server ts3) k = Some (Held (UserID m) r)"
proof -
  obtain t where t: "se_Transport (sv_session_at (ts_server ts1) sid) = Some t"
    using assms(4) by (auto simp: conn_open_def tcp_open_def tcp_session_def)
  have q: "all_actions (\<lambda>a. \<not> concerns sid a) as" using assms(7) by (auto simp: all_actions_def)
  note alone = run_leaves_alone [OF assms(1,2) q t, folded ts2_def]
  from tcp_run_invariant [where Q = "awaits sid m p k r", OF assms(1,7,3)] awaits_act
  have inv2: "tcp_inv ts2" and a2: "awaits sid m p k r ts2" unfolding ts2_def by blast+
  have l2: "lookup (ts_sleeping ts2) sid = Some (m, p, k, r)" "request_alive sid m p k r ts2"
    and f2: "lookup (sv_floors (ts_server ts2)) k = Some p" "floors_view (ts_server ts2) k = Some (Asked (UserID m) r)"
    using a2 by (simp_all add: awaits_def request_alive_def)
  have "tcp_session (ts_server ts2) sid" by (rule asleep_ok(1) [OF inv2 l2(1)])
  then have "conn_open sid r0 ts2"
    using assms(4) t alone by (auto simp: conn_open_def tcp_open_def tcp_session_def peer_def session_link_def)
  moreover have "ProtocolVersion_of (sv_session_at (ts_server ts2) sid) = ProtocolVersion_of (sv_session_at (ts_server ts1) sid)"
    using alone(2) by (simp add: session_link_def ProtocolVersion_of_def)
  moreover have "fsm_CurrentState (sv_floor_at (ts_server ts2) p) = RequestStatusPending"
    using pending_view [OF _ f2(1)] inv2 f2(2) by (auto simp: tcp_inv_def)
  ultimately show "TCP_Grants.told r0 [says_status m k r RequestStatusGranted] (ts_server ts2) (ts_server ts3)"
    using wake_told [OF l2(1) _ assms(8,6)] assms(5) by (simp add: ts3_def)
  show "floors_view (ts_server ts3) k = Some (Held (UserID m) r)"
    unfolding ts3_def by (rule request_alive_wake [OF inv2 l2(2)])
qed

section \<open>The virtual client's side\<close>

text \<open>The request as the server decodes it.\<close>

lemma floorRequest_decoded:
  assumes "floorRequestMessage k b p c = (c', msg)"
  shows "Primitive (decodedMessage msg) = PrimitiveFloorRequest"
    "GetFloorID (decodedMessage msg) = Some k" "supported (Version (decodedMessage msg))"
    "UserID (decodedMessage msg) = clc_UserID (cl_config c)"
    "TransactionID (decodedMessage msg) = ucast (cl_nextTxID c + 1)"
proof -
  have m: "msg = snd (floorRequestMessage k b p c)" using assms by simp
  note ds = m floorRequestMessage_def cl_nextTransactionID_def Let_def split_beta AddFloorID_def
    AddBeneficiaryID_def AddPriority_def AddAttribute_def cl_newMessage_def NewMessage_def
    decodedMessage_def withPayloadLength_def
  show "Primitive (decodedMessage msg) = PrimitiveFloorRequest"
    "UserID (decodedMessage msg) = clc_UserID (cl_config c)"
    "TransactionID (decodedMessage msg) = ucast (cl_nextTxID c + 1)"
    "supported (Version (decodedMessage msg))"
    by (simp_all add: ds supported_def)
  have "GetAttribute AttrFloorID (decodedMessage msg) = Some (decodedAttr
      \<lparr>Type = AttrFloorID, Length = 2, Value = PutUint16 k, RawTLV = False\<rparr>)"
    by (simp add: ds GetAttribute_def decodedAttr_def)
  then show "GetFloorID (decodedMessage msg) = Some k"
    by (simp add: GetFloorID_def attrUint16_def decodedAttr_def)
qed

text \<open>The client has callbacks, and no call that waits for the transaction.\<close>

definition hears :: "u16 \<Rightarrow> VClient \<Rightarrow> bool" where
  "hears tx v \<longleftrightarrow> (\<exists>c. vc_client v = Some c \<and> cl_callbacks c = vc_callbacks \<and>
     lookup (cl_pendingResponses c) tx = None)"

lemma vc_callback_client: "vc_client (fold vc_callback evs v) = vc_client v"
proof (induction evs arbitrary: v)
  case (Cons ev evs)
  have "vc_client (vc_callback ev v) = vc_client v"
    by (cases ev) (auto simp: vc_callback_def vc_emit_def dropRequest_def Let_def split: option.splits)
  with Cons show ?case by simp
qed simp

lemma dispatch_keeps:
  "cl_callbacks (dispatch now m c) = cl_callbacks c"
  "cl_pendingResponses (dispatch now m c) = cl_pendingResponses c"
  by (simp_all add: dispatch_def handleFloorRequestStatus_def handleFloorStatus_def handleError_def
      cl_emit_def setState_def Let_def split: option.splits)

lemma hears_incoming: "hears tx v \<Longrightarrow> hears tx (vc_step (Incoming t m) v)"
  by (auto simp: hears_def vc_step_def vc_run_def Let_def vc_callback_client cl_handleMessage_def
      deliverMessage_def dispatch_keeps split: option.splits)

lemma hears_all: "hears tx v \<Longrightarrow> hears tx (fold vc_step (map (Incoming t) ms) v)"
  by (induction ms arbitrary: v) (simp_all add: hears_incoming)

lemma grant_heard:
  assumes "hears (TransactionID m) v" "tells_status k r RequestStatusGranted m"
  shows "lookup (vc_heldFloors (vc_step (Incoming t m) v)) k = Some r"
    "VOnFloorGranted k r \<in> set (vc_log (vc_step (Incoming t m) v))"
proof -
  from assms(1) obtain c where c: "vc_client v = Some c" "cl_callbacks c = vc_callbacks"
    "lookup (cl_pendingResponses c) (TransactionID m) = None" by (auto simp: hears_def)
  have "new_events c (run_step (Incoming t m) c) = [COnFloorGranted k r]"
    using assms(2) c(2,3)
    by (simp add: new_events_def cl_handleMessage_def pendingChan_def deliverMessage_def dispatch_def
        tells_status_def handleFloorRequestStatus_def Let_def cl_emit_def setState_def vc_callbacks_def)
  with c(1) show "lookup (vc_heldFloors (vc_step (Incoming t m) v)) k = Some r"
    "VOnFloorGranted k r \<in> set (vc_log (vc_step (Incoming t m) v))"
    by (auto simp: vc_step_def vc_run_def Let_def vc_callback_def vc_emit_def split: option.splits)
qed

text \<open>The call returns with the answer Pending, and the client listens on.\<close>

lemma request_pending:
  assumes "open_client writes c" "vc_client v = Some c" "vc_connected v" "\<not> vc_closed v" "k \<noteq> 0"
    and "TransactionID m = ucast (cl_nextTxID c + 1)" "tells_status k r RequestStatusPending m"
  shows "\<exists>v1. vc_RequestFloor now writes [Incoming t m] True k opts v = Some (v1, Ok r) \<and>
    hears (TransactionID m) v1"
proof -
  let ?b = "opt_beneficiaryID (request_options opts)" and ?p = "opt_priority (request_options opts)"
  let ?w = "requestWaiting writes k ?b ?p c"
  from requestWaiting_open [OF assms(1), of k ?b ?p] obtain c1 msg ch data where
    w: "floorRequestMessage k ?b ?p c = (c\<lparr>cl_nextTxID := cl_nextTxID c + 1\<rparr>, msg)"
      "beginWait msg (c\<lparr>cl_nextTxID := cl_nextTxID c + 1\<rparr>) = (c1, ch)"
      "cl_send writes msg c1 = (?w, None)"
      "lookup (cl_pendingResponses ?w) (ucast (cl_nextTxID c + 1)) = Some ch"
      "cl_chan_at ?w ch = \<lparr>ch_value = None, ch_closed = False\<rparr>"
      "cl_callbacks ?w = vc_callbacks" "cl_log ?w = cl_log c @ [CSent data]"
      "TransactionID msg = ucast (cl_nextTxID c + 1)" by blast
  let ?w' = "?w\<lparr>cl_chan_at := (cl_chan_at ?w)(ch := \<lparr>ch_value = Some m, ch_closed = False\<rparr>)\<rparr>"
  have step: "run_step (Incoming t m) ?w = ?w'"
    using w(4,5) assms(6) by (simp add: cl_handleMessage_def pendingChan_def deliverMessage_def)
  have ub: "until_blocked [Incoming t m] ?w = ([Incoming t m], False, [])"
    using step by (simp add: new_events_def Let_def)
  obtain c' where c': "cl_RequestFloor now writes [Incoming t m] True k ?b ?p c = (c', Ok r)"
    "cl_log c' = cl_log c @ [CSent data]" "cl_callbacks c' = vc_callbacks"
    "lookup (cl_pendingResponses c') (TransactionID m) = None"
    using cl_RequestFloor_waiting [OF assms(1) w(1-3), of now "[Incoming t m]" True] step assms(6,7) w(6-8)
    by (auto simp: Let_def floorAnswered_def tells_status_def endWait_def setState_def)
  have "new_events c c' = [CSent data]" by (simp add: new_events_def c'(2))
  with assms(2-5) ub c' show ?thesis
    by (simp add: vc_RequestFloor_def Let_def unlock_def vc_callback_def hears_def
        del: run_step.simps until_blocked.simps)
qed

section \<open>Properties\<close>

text \<open>An open client on an open connection the server reads.\<close>

definition stack_ready ::
    "(nat \<Rightarrow> bool) \<Rightarrow> VClient \<Rightarrow> Client \<Rightarrow> nat \<Rightarrow> string \<Rightarrow> TCPServer \<Rightarrow> bool" where
  "stack_ready writes v c sid r0 ts \<longleftrightarrow>
     vc_client v = Some c \<and> open_client writes c \<and> vc_connected v \<and> \<not> vc_closed v \<and>
     sid \<in> set (ts_reading ts) \<and> conn_open sid r0 ts"

text \<open>C3. The whole stack over TCP: a floor that is free, the policy in favour and no other handler
  asleep on it, the call of a virtual client for it returns the identifier of its request, and once
  its handler wakes, after the server has served anything on the other connections meanwhile that
  leaves the request pending, the client has read that the floor is granted: the server has the
  user as its holder, and the virtual client keeps the floor and has told its application.\<close>
theorem virtual_client_gets_floor:
  fixes e e' :: Env and k :: u16 and opts :: "(floorRequestOptions \<Rightarrow> floorRequestOptions) list"
  assumes "tcp_reachable config callbacks ts" "stack_ready writes v c sid r0 ts" "k \<noteq> 0"
    and "floor_or_free (floors_view (ts_server ts)) k = Free" "alone_on sid k ts"
    and "policy_of (ts_server ts) k (clc_UserID (cl_config c)) (next_request (ts_server ts))"
    and "env_ok e" "writes_succeed e" "writes_succeed e'"
    and "all_actions (\<lambda>a. leaves_pending (clc_UserID (cl_config c)) a \<and> \<not> concerns sid a \<and> a \<noteq> Wake sid) as"
  defines "r \<equiv> next_request (ts_server ts)" and "asked \<equiv> requestWaiting writes k
      (opt_beneficiaryID (request_options opts)) (opt_priority (request_options opts)) c"
  defines "ts1 \<equiv> tcp_run (arrivals e sid (sent_data c asked)) ts"
  defines "ts3 \<equiv> tcp_run (as @ [(e', Wake sid)]) ts1"
  shows "\<exists>v1. vc_RequestFloor now writes (incoming t (written r0 (ts_server ts) (ts_server ts1))) True k opts v
        = Some (v1, Ok r) \<and>
      (let v2 = fold vc_step (incoming t' (written r0 (ts_server ts1) (ts_server ts3))) v1
       in floors_view (ts_server ts3) k = Some (Held (clc_UserID (cl_config c)) r) \<and>
          lookup (vc_heldFloors v2) k = Some r \<and> VOnFloorGranted k r \<in> set (vc_log v2))"
proof -
  let ?b = "opt_beneficiaryID (request_options opts)" and ?p = "opt_priority (request_options opts)"
  note inv = tcp_reachable_inv [OF assms(1)]
  have v: "vc_client v = Some c" "open_client writes c" "vc_connected v" "\<not> vc_closed v"
    and conn: "sid \<in> set (ts_reading ts)" "conn_open sid r0 ts"
    using assms(2) by (simp_all add: stack_ready_def)
  from requestWaiting_open [OF v(2), of k ?b ?p] obtain msg data where
    w: "floorRequestMessage k ?b ?p c = (c\<lparr>cl_nextTxID := cl_nextTxID c + 1\<rparr>, msg)"
      "cl_log asked = cl_log c @ [CSent data]" "Decode data = Ok (decodedMessage msg)"
    unfolding asked_def by blast
  define m where "m = decodedMessage msg"
  note m = floorRequest_decoded [OF w(1), folded m_def]
  have ts1: "ts1 = tcp_act e (Arrive sid m) ts"
    by (simp add: ts1_def sent_data_def new_events_def w(2,3) arrivals_def m_def del: tcp_act.simps)
  have "policy_of (ts_server ts) k (UserID m) (next_request (ts_server ts))" by (simp add: m(4) assms(6))
  note R = request_arrives [OF inv assms(7,8) conn m(1-3) assms(4) this assms(5), folded ts1 r_def]
  from R(1) obtain p where aw: "awaits sid m p k r ts1" by blast
  have inv1: "tcp_inv ts1" unfolding ts1 by (rule tcp_inv_act [OF inv assms(7)])
  have own1: "own_transports (ts_server ts1)"
    unfolding ts1 by (rule own_transports_act [OF inv own_transports_reachable [OF assms(1)]])
  note quiet = assms(10) [folded m(4)]
  note W = request_wakes [OF inv1 own1 aw R(2,3) m(3) quiet assms(9)]
  have ts3: "ts3 = tcp_act e' (Wake sid) (tcp_run as ts1)"
    by (simp add: ts3_def tcp_run_def del: tcp_act.simps)
  from R(4) obtain bs m1 where 1: "outbox (ts_server ts1) = outbox (ts_server ts) @ map (Pair r0) [bs]"
      "Decode bs = Ok m1" "says_status m k r RequestStatusPending m1"
    unfolding TCP_Grants.told_def list_all2_Cons2 by auto
  have "written r0 (ts_server ts) (ts_server ts1) = [bs]" by (simp add: written_def 1(1))
  then have in1: "incoming t (written r0 (ts_server ts) (ts_server ts1)) = [Incoming t m1]"
    by (simp add: incoming_def 1(2))
  have "TransactionID m1 = ucast (cl_nextTxID c + 1)" "tells_status k r RequestStatusPending m1"
    using 1(3) by (simp_all add: says_status_def reply_of_def m(5))
  from request_pending [OF v(2,1,3,4) assms(3) this, of now t opts] obtain v1 where
    v1: "vc_RequestFloor now writes [Incoming t m1] True k opts v = Some (v1, Ok r)"
      "hears (TransactionID m) v1" using 1(3) by (auto simp: says_status_def reply_of_def)
  have "all_actions (\<lambda>_. True) as" using assms(10) by (auto simp: all_actions_def)
  from extends_run [OF inv1 this] obtain xs where
    xs: "outbox (ts_server (tcp_run as ts1)) = outbox (ts_server ts1) @ xs" by (auto simp: extends_def)
  from W(1) [folded ts3] obtain gs m2 where
    2: "outbox (ts_server ts3) = outbox (ts_server (tcp_run as ts1)) @ map (Pair r0) [gs]"
      "Decode gs = Ok m2" "says_status m k r RequestStatusGranted m2"
    unfolding TCP_Grants.told_def list_all2_Cons2 by auto
  define ms where "ms = decoded (map snd (filter (\<lambda>x. fst x = r0) xs))"
  have in2: "incoming t' (written r0 (ts_server ts1) (ts_server ts3)) = map (Incoming t') ms @ [Incoming t' m2]"
    unfolding written_append [OF xs 2(1)] by (simp add: incoming_def decoded_append ms_def 2(2))
  have "TransactionID m2 = TransactionID m" and g: "tells_status k r RequestStatusGranted m2"
    using 2(3) by (simp_all add: says_status_def reply_of_def)
  then have "hears (TransactionID m2) (fold vc_step (map (Incoming t') ms) v1)"
    using hears_all [OF v1(2)] by simp
  from grant_heard [OF this g] v1(1) in1 in2 W(2) [folded ts3, unfolded m(4)] show ?thesis by simp
qed

theorem virtual_client_gets_floor_witness:
  "\<exists>c. vc_client joined = Some c \<and> (\<exists>v1.
      let ts1 = tcp_run (arrivals plain_env 1 (sent_data c (requestWaiting (\<lambda>_. True) 3
              (opt_beneficiaryID (request_options [])) (opt_priority (request_options [])) c))) two_connections;
          ts3 = tcp_run ([(plain_env, Arrive 3 (NewMessage PrimitiveHello 1 9 5))] @ [(plain_env, Wake 1)]) ts1
      in vc_RequestFloor 6 (\<lambda>_. True)
           (incoming 6 (written ''10.0.0.1:5070'' (ts_server two_connections) (ts_server ts1))) True 3 [] joined
           = Some (v1, Ok 1) \<and>
         VOnFloorGranted 3 1 \<in> set (vc_log (fold vc_step
           (incoming 7 (written ''10.0.0.1:5070'' (ts_server ts1) (ts_server ts3))) v1)))"
proof -
  have "map_option (\<lambda>c. clc_UserID (cl_config c)) (vc_client joined) = Some 100" by code_simp
  with joined_facts(4) obtain c where c: "vc_client joined = Some c" "open_client (\<lambda>_. True) c"
    "clc_UserID (cl_config c) = 100" by auto
  have "conn_open 1 ''10.0.0.1:5070'' two_connections" by code_simp
  then have ready: "stack_ready (\<lambda>_. True) joined c 1 ''10.0.0.1:5070'' two_connections"
    using c joined_facts(2,3) by (simp add: stack_ready_def two_connections_reading)
  have s: "floor_or_free (floors_view (ts_server two_connections)) 3 = Free"
    "policy_of (ts_server two_connections) 3 100 1" "alone_on 1 3 two_connections"
    "next_request (ts_server two_connections) = 1" by code_simp+
  have env: "writes_succeed plain_env" by (simp add: writes_succeed_def plain_env_def)
  have quiet: "all_actions (\<lambda>a. leaves_pending 100 a \<and> \<not> concerns 1 a \<and> a \<noteq> Wake 1)
      [(plain_env, Arrive 3 (NewMessage PrimitiveHello 1 9 5))]"
    by (simp add: all_actions_def plain_env_ok gives_up_def NewMessage_def)
  have "(3::u16) \<noteq> 0" by simp
  note all = virtual_client_gets_floor [OF two_connections_reachable ready this s(1,3) _ plain_env_ok env env,
      unfolded s(4) c(3) Let_def, OF s(2) quiet, where opts = "[]" and now = 6 and t = 6 and t' = 7]
  show ?thesis unfolding Let_def
    by (rule exI [of _ c], rule conjI [OF c(1)], rule exE [OF all], elim conjE, rule exI, rule conjI, assumption, assumption)
qed

end
