(* ===== verification/Interleaving.thy ===== *)
theory Interleaving
  imports TCP_Grants
begin

text \<open>
  The TCP handlers at the grain of the locks. The read loops of the connections run in goroutines of
  their own, so between two critical sections of a handler other handlers run. A handler is here a
  chain of atomic steps, one per critical section or write to a socket; run without interruption the
  chain is the handler of \<^verbatim>\<open>Server\<close>, and what every interleaving keeps is proved step by step.
\<close>

section \<open>Steps and schedules\<close>

datatype steps = Done | Step "Server \<Rightarrow> Server \<times> steps"

primrec alone :: "steps \<Rightarrow> Server \<Rightarrow> Server" where
  "alone Done = (\<lambda>s. s)"
| "alone (Step f) = (\<lambda>s. case (map_prod (\<lambda>x. x) alone \<circ> f) s of (s', go_on) \<Rightarrow> go_on s')"

lemma alone_Step [simp]: "alone (Step f) s = alone (snd (f s)) (fst (f s))"
  by (simp add: split_beta)

declare alone.simps(2) [simp del]

text \<open>A schedule says whose step is next.\<close>

fun interleave :: "nat list \<Rightarrow> steps list \<Rightarrow> Server \<Rightarrow> Server \<times> steps list" where
  "interleave [] ps s = (s, ps)"
| "interleave (i # is) ps s =
     (if i < length ps then
        (case ps ! i of
           Done \<Rightarrow> interleave is ps s
         | Step f \<Rightarrow> let (s, p) = f s in interleave is (ps[i := p]) s)
      else interleave is ps s)"

definition change :: "(Server \<Rightarrow> Server) \<Rightarrow> steps \<Rightarrow> steps" where
  "change f p = Step (\<lambda>s. (f s, p))"

definition look :: "(Server \<Rightarrow> 'a) \<Rightarrow> ('a \<Rightarrow> steps) \<Rightarrow> steps" where
  "look g p = Step (\<lambda>s. (s, p (g s)))"

text \<open>A change of one floor, under the floor's own lock.\<close>

definition on_floor ::
    "nat \<Rightarrow> (FloorStateMachine \<Rightarrow> FloorStateMachine \<times> 'r) \<Rightarrow> ('r \<Rightarrow> steps) \<Rightarrow> steps" where
  "on_floor p oper k = Step (\<lambda>s. let (f, r) = oper (sv_floor_at s p) in (update_floor p f s, k r))"

definition countTx :: "(u16 \<Rightarrow> steps) \<Rightarrow> steps" where
  "countTx p = Step (\<lambda>s. let (s, txID) = nextTxID_Add s in (s, p txID))"

section \<open>The handlers as steps\<close>

text \<open>Broadcasts: the sessions are copied under the lock, and each is then written to.\<close>

primrec notifySteps ::
    "Env \<Rightarrow> nat option \<Rightarrow> u16 \<Rightarrow> u16 \<Rightarrow> u16 \<Rightarrow> RequestStatus \<Rightarrow> nat list \<Rightarrow> steps \<Rightarrow> steps" where
  "notifySteps e except userID floorID requestID status [] p = p"
| "notifySteps e except userID floorID requestID status (sid # sids) p =
     (if Some sid = except then notifySteps e except userID floorID requestID status sids p
      else countTx (\<lambda>txID. change (\<lambda>s. send e sid
             (statusMessage (cfg_ConferenceID (sv_config s)) txID userID requestID status floorID) s)
             (notifySteps e except userID floorID requestID status sids p)))"

definition broadcastSteps ::
    "Env \<Rightarrow> nat option \<Rightarrow> u16 \<Rightarrow> u16 \<Rightarrow> u16 \<Rightarrow> RequestStatus \<Rightarrow> steps \<Rightarrow> steps" where
  "broadcastSteps e except userID floorID requestID status p =
     Step (\<lambda>s. (tick s, notifySteps e except userID floorID requestID status (map snd (range_sessions e s)) p))"

text \<open>Searches: each floor is read under its own lock.\<close>

primrec findByRequestID :: "u16 \<Rightarrow> (nat option \<Rightarrow> steps) \<Rightarrow> nat list \<Rightarrow> steps" where
  "findByRequestID requestID k [] = k None"
| "findByRequestID requestID k (p # ps) =
     look (\<lambda>s. fsm_GetFloorRequestID (sv_floor_at s p))
       (\<lambda>r. if r = requestID then k (Some p) else findByRequestID requestID k ps)"

primrec findOwned :: "u16 \<Rightarrow> (nat option \<Rightarrow> steps) \<Rightarrow> nat list \<Rightarrow> steps" where
  "findOwned userID k [] = k None"
| "findOwned userID k (p # ps) =
     look (\<lambda>s. IsAvailable (sv_floor_at s p))
       (\<lambda>available. if available then findOwned userID k ps
          else look (\<lambda>s. GetOwner (sv_floor_at s p))
                 (\<lambda>owner. if owner = userID then k (Some p) else findOwned userID k ps))"

primrec collectOwned :: "u16 \<Rightarrow> nat list \<Rightarrow> (nat list \<Rightarrow> steps) \<Rightarrow> nat list \<Rightarrow> steps" where
  "collectOwned userID floors k [] = k floors"
| "collectOwned userID floors k (p # ps) =
     look (\<lambda>s. GetOwner (sv_floor_at s p))
       (\<lambda>owner. collectOwned userID (if owner = userID then floors @ [p] else floors) k ps)"

definition over_floors :: "Env \<Rightarrow> (nat list \<Rightarrow> steps) \<Rightarrow> steps" where
  "over_floors e k = Step (\<lambda>s. (tick s, k (map snd (range_floors e s))))"

text \<open>\<^verbatim>\<open>handleFloorRequest\<close>; its sleep is the time until its next step is scheduled.\<close>

definition grantSteps :: "Env \<Rightarrow> nat \<Rightarrow> message \<Rightarrow> nat \<Rightarrow> u16 \<Rightarrow> u16 \<Rightarrow> steps" where
  "grantSteps e sid msg p floorID requestID =
     on_floor p (Grant (env_now e)) (\<lambda>err. case err of
         Some err \<Rightarrow> Done
       | None \<Rightarrow>
           change (sendFloorStatus e sid msg floorID requestID RequestStatusGranted 0)
          (change (update_StateMachine sid (SetState (env_now e) StateFloorGranted))
          (change (\<lambda>s. emit_if (cb_OnFloorGranted (sv_callbacks s)) (FloorGranted floorID (UserID msg) requestID) s)
           Done)))"

definition denySteps :: "Env \<Rightarrow> nat \<Rightarrow> message \<Rightarrow> nat \<Rightarrow> u16 \<Rightarrow> u16 \<Rightarrow> steps" where
  "denySteps e sid msg p floorID requestID =
     on_floor p Deny (\<lambda>err. case err of
         Some err \<Rightarrow> Done
       | None \<Rightarrow>
           change (sendFloorStatus e sid msg floorID requestID RequestStatusDenied 0)
          (change (update_StateMachine sid (SetState (env_now e) StateFloorDenied))
          (change (\<lambda>s. emit_if (cb_OnFloorDenied (sv_callbacks s)) (FloorDenied floorID (UserID msg) requestID) s)
           Done)))"

definition answerSteps :: "Env \<Rightarrow> nat \<Rightarrow> message \<Rightarrow> nat \<Rightarrow> u16 \<Rightarrow> u16 \<Rightarrow> bool \<Rightarrow> steps" where
  "answerSteps e sid msg p floorID requestID shouldGrant =
     on_floor p (Request (UserID msg) requestID (requestPriority msg)) (\<lambda>(status, err). case err of
         Some err \<Rightarrow>
           change (sendError e sid msg ErrorUnauthorizedOperation (floor_error_Error err))
          (change (\<lambda>s. emit_if (cb_OnFloorDenied (sv_callbacks s)) (FloorDenied floorID (UserID msg) requestID) s)
           Done)
       | None \<Rightarrow>
           change (sendFloorStatus e sid msg floorID requestID status 0)
           (if shouldGrant \<and> status = RequestStatusPending then grantSteps e sid msg p floorID requestID
            else if \<not> shouldGrant \<and> status = RequestStatusPending then denySteps e sid msg p floorID requestID
            else change (update_StateMachine sid (SetState (env_now e) StateFloorRequested)) Done))"

definition requestSteps :: "Env \<Rightarrow> nat \<Rightarrow> message \<Rightarrow> steps" where
  "requestSteps e sid msg =
     (case GetFloorID msg of
        None \<Rightarrow> change (sendError e sid msg ErrorInvalidFloorID ''No floor ID in request'') Done
      | Some floorID \<Rightarrow>
          let decide = (\<lambda>p. countTx (\<lambda>requestID.
                Step (\<lambda>s. let (s, shouldGrant) = decideGrant floorID (UserID msg) requestID s
                          in (s, answerSteps e sid msg p floorID requestID shouldGrant))))
          in look (GetFloor floorID) (\<lambda>floor. case floor of
               Some p \<Rightarrow> decide p
             | None \<Rightarrow> Step (\<lambda>s. let (s, p) = CreateFloor e floorID s in (s, decide p))))"

text \<open>\<^verbatim>\<open>handleFloorRelease\<close>: the floor is looked up, then released.\<close>

definition releaseSteps :: "Env \<Rightarrow> nat \<Rightarrow> message \<Rightarrow> nat \<Rightarrow> u16 \<Rightarrow> steps" where
  "releaseSteps e sid msg p floorID =
     (let requestID = (case GetFloorRequestID msg of Some r \<Rightarrow> r | None \<Rightarrow> 0) in
      on_floor p (Release (UserID msg)) (\<lambda>err. case err of
         Some err \<Rightarrow> change (sendError e sid msg ErrorFloorReleaseDenied (floor_error_Error err)) Done
       | None \<Rightarrow>
           change (sendFloorStatus e sid msg floorID requestID RequestStatusReleased 0)
          (change (update_StateMachine sid (SetState (env_now e) StateFloorReleased))
          (change (\<lambda>s. emit_if (cb_OnFloorReleased (sv_callbacks s)) (FloorReleased floorID (UserID msg)) s)
          (broadcastSteps e (Some sid) (UserID msg) floorID requestID RequestStatusReleased Done)))))"

definition floorReleaseSteps :: "Env \<Rightarrow> nat \<Rightarrow> message \<Rightarrow> steps" where
  "floorReleaseSteps e sid msg =
     (let found = (\<lambda>p. look (\<lambda>s. fsm_FloorID (sv_floor_at s p)) (releaseSteps e sid msg p)) in
      case GetFloorID msg of
        Some fid \<Rightarrow>
          look (GetFloor fid) (\<lambda>floor. case floor of
              None \<Rightarrow> change (sendError e sid msg ErrorInvalidFloorID
                        (''Floor '' @ fmt_d (unat fid) @ '' does not exist'')) Done
            | Some p \<Rightarrow> releaseSteps e sid msg p fid)
      | None \<Rightarrow>
          (case GetFloorRequestID msg of
             Some reqID \<Rightarrow>
               over_floors e (findByRequestID reqID (\<lambda>floor. case floor of
                   Some p \<Rightarrow> found p
                 | None \<Rightarrow>
                     over_floors e (findOwned (UserID msg) (\<lambda>floor. case floor of
                         Some p \<Rightarrow> found p
                       | None \<Rightarrow> change (sendError e sid msg ErrorFloorRequestIDDoesNotExist
                           (''FloorRequestID '' @ fmt_d (unat reqID) @ '' does not exist'')) Done))))
           | None \<Rightarrow>
               change (sendError e sid msg ErrorUnknownMandatoryAttribute
                 ''Missing FLOOR-REQUEST-ID attribute'') Done))"

text \<open>\<^verbatim>\<open>handleFloorQuery\<close> reads the request and the state of the floor apart.\<close>

definition querySteps :: "Env \<Rightarrow> nat \<Rightarrow> message \<Rightarrow> steps" where
  "querySteps e sid msg =
     (case GetFloorID msg of
        None \<Rightarrow> change (sendError e sid msg ErrorUnknownMandatoryAttribute ''Missing FLOOR-ID attribute'') Done
      | Some floorID \<Rightarrow>
          look (GetFloor floorID) (\<lambda>floor. case floor of
              None \<Rightarrow> change (sendError e sid msg ErrorInvalidFloorID
                        (''Floor '' @ fmt_d (unat floorID) @ '' does not exist'')) Done
            | Some p \<Rightarrow>
                look (\<lambda>s. fsm_GetFloorRequestID (sv_floor_at s p)) (\<lambda>requestID.
                look (\<lambda>s. GetState (sv_floor_at s p)) (\<lambda>status.
                change (send e sid (AddRequestStatus status 0 (AddFloorRequestID requestID (AddFloorID floorID
                  (NewMessage PrimitiveFloorStatus (ConferenceID msg) (TransactionID msg) (UserID msg))))))
                Done))))"

text \<open>\<^verbatim>\<open>handleGoodbye\<close>: the floors are collected first and released one by one.\<close>

primrec goodbyeFloorsSteps :: "Env \<Rightarrow> nat \<Rightarrow> message \<Rightarrow> nat list \<Rightarrow> steps \<Rightarrow> steps" where
  "goodbyeFloorsSteps e sid msg [] k = k"
| "goodbyeFloorsSteps e sid msg (p # ps) k =
     on_floor p (Release (UserID msg)) (\<lambda>err. case err of
         Some err \<Rightarrow> goodbyeFloorsSteps e sid msg ps k
       | None \<Rightarrow>
           look (\<lambda>s. fsm_GetFloorRequestID (sv_floor_at s p)) (\<lambda>requestID.
           look (\<lambda>s. fsm_FloorID (sv_floor_at s p)) (\<lambda>floorID.
           broadcastSteps e (Some sid) (UserID msg) floorID requestID RequestStatusReleased
          (change (\<lambda>s. emit_if (cb_OnFloorReleased (sv_callbacks s)) (FloorReleased floorID (UserID msg)) s)
          (goodbyeFloorsSteps e sid msg ps k)))))"

definition goodbyeAckSteps :: "Env \<Rightarrow> nat \<Rightarrow> message \<Rightarrow> steps" where
  "goodbyeAckSteps e sid msg =
     change (send e sid (NewMessage PrimitiveGoodbyeAck (ConferenceID msg) (TransactionID msg) (UserID msg)))
    (change (update_StateMachine sid (SetState (env_now e) StateDisconnected))
    (change (\<lambda>s. case se_Transport (sv_session_at s sid) of
              None \<Rightarrow> panic s
            | Some t \<Rightarrow> update_transport t (tr_Close (sv_transport_at s t)) s)
     Done))"

definition goodbyeSteps :: "Env \<Rightarrow> nat \<Rightarrow> message \<Rightarrow> steps" where
  "goodbyeSteps e sid msg =
     over_floors e (collectOwned (UserID msg) [] (\<lambda>floors.
       goodbyeFloorsSteps e sid msg floors (goodbyeAckSteps e sid msg)))"

text \<open>
  \<^verbatim>\<open>handleHello\<close>: the fields only its session writes are set in one step.
\<close>

definition helloSteps :: "Env \<Rightarrow> nat \<Rightarrow> message \<Rightarrow> steps" where
  "helloSteps e sid msg =
     change (update_StateMachine sid (\<lambda>m. m\<lparr>ssm_ConferenceID := ConferenceID msg, ssm_UserID := UserID msg\<rparr>))
     (Step (\<lambda>s. case se_Transport (sv_session_at s sid) of
         None \<Rightarrow> (panic s, Done)
       | Some t \<Rightarrow>
           let remoteAddr = tr_RemoteAddr (sv_transport_at s t) in
           (s\<lparr>sv_sessions := put remoteAddr sid (sv_sessions s)\<rparr>,
            change (recordSupported sid msg)
           (change (send e sid (AddSupportedAttributes helloAttributes (AddSupportedPrimitives helloPrimitives
              (NewMessage PrimitiveHelloAck (ConferenceID msg) (TransactionID msg) (UserID msg)))))
           (change (update_StateMachine sid (SetState (env_now e) StateWaitFloorRequest))
           (change (\<lambda>s. update_transport t (EnableKeepalive True (sv_transport_at s t)) s)
           (change (\<lambda>s. update_transport t (StartKeepalive (sv_transport_at s t)) s)
           (change (\<lambda>s. emit_if (cb_OnClientConnect (sv_callbacks s)) (ClientConnect remoteAddr (UserID msg)) s)
            Done))))))))"

definition dispatchSteps :: "Env \<Rightarrow> nat \<Rightarrow> message \<Rightarrow> steps" where
  "dispatchSteps e sid msg =
     (if Primitive msg = PrimitiveHello then helloSteps e sid msg
      else if Primitive msg = PrimitiveFloorRequest then requestSteps e sid msg
      else if Primitive msg = PrimitiveFloorRelease then floorReleaseSteps e sid msg
      else if Primitive msg = PrimitiveFloorQuery then querySteps e sid msg
      else if Primitive msg = PrimitiveGoodbye then goodbyeSteps e sid msg
      else Done)"

definition messageSteps :: "Env \<Rightarrow> nat \<Rightarrow> message \<Rightarrow> steps" where
  "messageSteps e sid msg =
     change (update_StateMachine sid (UpdateActivity (env_now e)))
    (change (update_StateMachine sid (\<lambda>m. m\<lparr>ssm_ClientVersion := Version msg\<rparr>))
    (Step (\<lambda>s. case se_Transport (sv_session_at s sid) of
         None \<Rightarrow> (panic s, Done)
       | Some t \<Rightarrow>
           (callMessageIn (tr_RemoteAddr (sv_transport_at s t)) msg s, dispatchSteps e sid msg))))"

text \<open>Handlers of several messages at once, each in the goroutine of its connection.\<close>

definition handlers :: "(Env \<times> nat \<times> message) list \<Rightarrow> steps list" where
  "handlers ms = map (\<lambda>(e, sid, m). messageSteps e sid m) ms"

section \<open>Without interruption\<close>

lemma alone_steps [simp]:
  "alone (change f p) s = alone p (f s)"
  "alone (look g h) s = alone (h (g s)) s"
  "alone (on_floor p1 oper h1) s =
     alone (h1 (snd (oper (sv_floor_at s p1)))) (update_floor p1 (fst (oper (sv_floor_at s p1))) s)"
  "alone (countTx h2) s = alone (h2 (snd (nextTxID_Add s))) (fst (nextTxID_Add s))"
  "alone (over_floors e h3) s = alone (h3 (map snd (range_floors e s))) (tick s)"
  by (simp_all add: change_def look_def on_floor_def countTx_def over_floors_def Let_def split_beta)

lemma alone_notify:
  "alone (notifySteps e except u k r st sids p) s = alone p (fold (notifySession e except u k r st) sids s)"
  by (induction sids arbitrary: s) (auto simp: notifySession_def Let_def split_beta)

lemma alone_broadcast:
  "alone (broadcastSteps e except u k r st p) s = alone p (broadcastFloorStatus e except u k r st 0 s)"
  by (simp add: broadcastSteps_def alone_notify broadcastFloorStatus_def)

lemma alone_findByRequestID [simp]:
  "alone (findByRequestID r k ps) s =
     alone (k (List.find (\<lambda>p. fsm_GetFloorRequestID (sv_floor_at s p) = r) ps)) s"
  by (induction ps) simp_all

lemma alone_findOwned [simp]:
  "alone (findOwned u k ps) s =
     alone (k (List.find (\<lambda>p. \<not> IsAvailable (sv_floor_at s p) \<and> GetOwner (sv_floor_at s p) = u) ps)) s"
  by (induction ps) simp_all

lemma alone_collectOwned [simp]:
  "alone (collectOwned u floors k ps) s =
     alone (k (floors @ filter (\<lambda>p. GetOwner (sv_floor_at s p) = u) ps)) s"
  by (induction ps arbitrary: floors) simp_all

text \<open>A refused operation leaves the floor as it is.\<close>

lemma refused_same:
  "Release u f = (f', Some err) \<Longrightarrow> f' = f"
  "Grant now f = (f', Some err) \<Longrightarrow> f' = f"
  "Deny f = (f', Some err) \<Longrightarrow> f' = f"
  by (auto simp: floor_defs split: if_splits)

definition finish :: "Env \<Rightarrow> nat \<Rightarrow> message \<Rightarrow> Server \<times> sleeping option \<Rightarrow> Server" where
  "finish e sid msg x = (case x of (s, None) \<Rightarrow> s | (s, Some grant) \<Rightarrow> wakeFloorRequest e sid msg grant s)"

lemma alone_grant: "alone (grantSteps e sid m p k r) s = wakeFloorRequest e sid m (p, k, r) s"
  by (cases "Grant (env_now e) (sv_floor_at s p)")
     (auto simp: grantSteps_def wakeFloorRequest_def Let_def dest: refused_same split: option.splits)

definition denial :: "Env \<Rightarrow> nat \<Rightarrow> message \<Rightarrow> nat \<Rightarrow> u16 \<Rightarrow> u16 \<Rightarrow> Server \<Rightarrow> Server" where
  "denial e sid msg p floorID requestID s =
    (case Deny (sv_floor_at s p) of
       (f, None) \<Rightarrow>
         let s = update_floor p f s;
             s = sendFloorStatus e sid msg floorID requestID RequestStatusDenied 0 s;
             s = update_StateMachine sid (SetState (env_now e) StateFloorDenied) s
         in emit_if (cb_OnFloorDenied (sv_callbacks s)) (FloorDenied floorID (UserID msg) requestID) s
     | (f, Some err) \<Rightarrow> s)"

lemma alone_deny: "alone (denySteps e sid m p k r) s = denial e sid m p k r s"
  by (cases "Deny (sv_floor_at s p)")
     (auto simp: denySteps_def denial_def Let_def dest: refused_same split: option.splits)

lemma alone_answer:
  "alone (answerSteps e sid m p k r g) s = finish e sid m (answerFloorRequest e sid m p k r g s)"
proof -
  obtain f status err where R: "Request (UserID m) r (requestPriority m) (sv_floor_at s p) = (f, status, err)"
    by (cases "Request (UserID m) r (requestPriority m) (sv_floor_at s p)") auto
  have "sv_callbacks (sendError e sid m c info x) = sv_callbacks x" for c info x
    using frame_fields(2) [OF frame_send] by (simp add: sendError_def Let_def panic_def)
  then show ?thesis
    by (cases err)
       (simp_all add: answerSteps_def answerFloorRequest_def R finish_def Let_def alone_grant alone_deny denial_def
         split: option.split prod.split)
qed

lemma alone_request: "alone (requestSteps e sid m) s = finish e sid m (handleFloorRequest e sid m s)"
proof (cases "GetFloorID m")
  case None
  then show ?thesis by (simp add: requestSteps_def handleFloorRequest_def finish_def)
next
  case (Some k)
  then show ?thesis
    by (cases "GetFloor k s")
       (simp_all add: requestSteps_def handleFloorRequest_def floorFor_def Let_def split_beta alone_answer)
qed

lemma alone_releaseSteps:
  "alone (releaseSteps e sid m p k) s =
    (let requestID = (case GetFloorRequestID m of Some r \<Rightarrow> r | None \<Rightarrow> 0) in
     case Release (UserID m) (sv_floor_at s p) of
       (f, Some err) \<Rightarrow> sendError e sid m ErrorFloorReleaseDenied (floor_error_Error err) s
     | (f, None) \<Rightarrow>
         let s = update_floor p f s;
             s = sendFloorStatus e sid m k requestID RequestStatusReleased 0 s;
             s = update_StateMachine sid (SetState (env_now e) StateFloorReleased) s;
             s = emit_if (cb_OnFloorReleased (sv_callbacks s)) (FloorReleased k (UserID m)) s
         in broadcastFloorStatus e (Some sid) (UserID m) k requestID RequestStatusReleased 0 s)"
  by (cases "Release (UserID m) (sv_floor_at s p)")
     (auto simp: releaseSteps_def Let_def alone_broadcast dest: refused_same split: option.splits)

lemma alone_release: "alone (floorReleaseSteps e sid m) s = handleFloorRelease e sid m s"
  by (simp add: floorReleaseSteps_def handleFloorRelease_def floorToRelease_def alone_releaseSteps
      GetFloorByRequestID_def floorOwnedBy_def range_floors_def tick_def Let_def
      split: option.split)

lemma alone_query: "alone (querySteps e sid m) s = handleFloorQuery e sid m s"
  by (simp add: querySteps_def handleFloorQuery_def Let_def split: option.split)

lemma alone_goodbyeFloors:
  "alone (goodbyeFloorsSteps e sid m ps k) s = alone k (fold (goodbyeFloor e sid m) ps s)"
proof (induction ps arbitrary: s)
  case (Cons p ps)
  show ?case
  proof (cases "Release (UserID m) (sv_floor_at s p)")
    case (Pair f err)
    have "sv_floor_at (broadcastFloorStatus e (Some sid) u k' r st 0 x) = sv_floor_at x" for u k' r st x
      using frame_fields(7) [OF frame_broadcast] .
    with Cons Pair show ?thesis
      by (cases err) (auto simp: goodbyeFloor_def Let_def alone_broadcast dest: refused_same)
  qed
qed simp

lemma alone_goodbye: "alone (goodbyeSteps e sid m) s = handleGoodbye e sid m s"
  by (simp add: goodbyeSteps_def goodbyeAckSteps_def handleGoodbye_def floorsOwnedBy_def alone_goodbyeFloors Let_def tick_def
      range_floors_def split: option.split)

lemma alone_hello: "alone (helloSteps e sid m) s = handleHello e sid m s"
  by (auto simp: helloSteps_def handleHello_def Let_def update_transport_def split: option.split)


section \<open>What every step keeps\<close>

inductive keeps :: "(Server \<Rightarrow> bool) \<Rightarrow> steps \<Rightarrow> bool" for P where
  keeps_Done: "keeps P Done"
| keeps_Step: "(\<And>s. P s \<Longrightarrow> P (fst (f s)) \<and> keeps P (snd (f s))) \<Longrightarrow> keeps P (Step f)"

inductive_cases keeps_StepE: "keeps P (Step f)"

text \<open>A step of a kept chain leaves a kept chain.\<close>

lemma keeps_Step_iff [simp]:
  "keeps P (Step f) \<longleftrightarrow> (\<forall>s. P s \<longrightarrow> P (fst (f s)) \<and> keeps P (snd (f s)))"
  by (blast intro: keeps_Step elim: keeps_StepE)

lemma interleave_keeps:
  "\<forall>p \<in> set ps. keeps P p \<Longrightarrow> P s \<Longrightarrow> P (fst (interleave turns ps s))"
proof (induction turns arbitrary: ps s)
  case (Cons i turns)
  show ?case
  proof (cases "i < length ps")
    case True
    then have k: "keeps P (ps ! i)" using Cons.prems(1) by simp
    show ?thesis
    proof (cases "ps ! i")
      case Done
      with True Cons show ?thesis by simp
    next
      case (Step f)
      have *: "P (fst (f s))" "keeps P (snd (f s))" using k Step Cons.prems(2) by auto
      have "\<forall>p \<in> set (ps[i := snd (f s)]). keeps P p"
        using Cons.prems(1) *(2) by (auto dest!: subsetD [OF set_update_subset_insert])
      from Cons.IH [OF this *(1)] show ?thesis using True Step by (simp add: split_beta Let_def)
    qed
  next
    case False
    with Cons show ?thesis by simp
  qed
qed simp

text \<open>The operations on a floor that the handler of a message may perform.\<close>

fun asks_for :: "message \<Rightarrow> floor_op \<Rightarrow> bool" where
  "asks_for m (OpRequest u r prio) \<longleftrightarrow>
     Primitive m = PrimitiveFloorRequest \<and> u = UserID m \<and> prio = requestPriority m"
| "asks_for m (OpGrant now) \<longleftrightarrow> Primitive m = PrimitiveFloorRequest"
| "asks_for m OpDeny \<longleftrightarrow> Primitive m = PrimitiveFloorRequest"
| "asks_for m (OpRelease u) \<longleftrightarrow> Primitive m \<in> {PrimitiveFloorRelease, PrimitiveGoodbye} \<and> u = UserID m"
| "asks_for m OpRevoke \<longleftrightarrow> False"

lemma keeps_alone: "keeps P p \<Longrightarrow> P s \<Longrightarrow> P (alone p s)"
  by (induction arbitrary: s rule: keeps.induct) auto

text \<open>
  A property that survives what one step may do: a frame, a floor created, one operation on one floor,
  a session registered, a transport changed but not moved.
\<close>

locale interleaving =
  fixes P :: "Server \<Rightarrow> bool" and sids :: "nat set" and allowed :: "floor_op \<Rightarrow> bool"
  assumes session: "P s \<Longrightarrow> sid \<in> sids \<Longrightarrow> tcp_session s sid"
    and framed: "P s \<Longrightarrow> frame s s' \<Longrightarrow> P s'"
    and created: "P s \<Longrightarrow> P (fst (CreateFloor e k s))"
    and operated: "P s \<Longrightarrow> allowed oper \<Longrightarrow> P (update_floor p (run_op oper (sv_floor_at s p)) s)"
    and registered: "P s \<Longrightarrow> sid \<in> sids \<Longrightarrow> se_Transport (sv_session_at s sid) = Some t \<Longrightarrow>
      P (register (tr_RemoteAddr (sv_transport_at s t)) sid s)"
    and transported: "P s \<Longrightarrow> tr_RemoteAddr tr = tr_RemoteAddr (sv_transport_at s t) \<Longrightarrow>
      (tr_closed (sv_transport_at s t) \<Longrightarrow> tr_closed tr) \<Longrightarrow> P (update_transport t tr s)"
begin

lemma keeps_change: "(\<And>s. P s \<Longrightarrow> P (f s)) \<Longrightarrow> keeps P p \<Longrightarrow> keeps P (change f p)"
  unfolding change_def by (rule keeps_Step) simp

lemma keeps_frame: "(\<And>s. P s \<Longrightarrow> frame s (f s)) \<Longrightarrow> keeps P p \<Longrightarrow> keeps P (change f p)"
  by (rule keeps_change) (use framed in blast)

lemma keeps_look: "(\<And>x. keeps P (k x)) \<Longrightarrow> keeps P (look g k)"
  unfolding look_def by (rule keeps_Step) simp

lemma keeps_over_floors: "(\<And>ps. keeps P (k ps)) \<Longrightarrow> keeps P (over_floors e k)"
  unfolding over_floors_def by (rule keeps_Step) (simp add: framed [OF _ frame_tick])

lemma keeps_countTx: "(\<And>r. keeps P (k r)) \<Longrightarrow> keeps P (countTx k)"
  unfolding countTx_def by (rule keeps_Step) (simp add: split_beta Let_def framed [OF _ frame_nextTxID])

lemma keeps_on_floor:
  assumes "\<And>f. fst (oper f) = run_op opr f" "allowed opr" "\<And>x. keeps P (k x)"
  shows "keeps P (on_floor p oper k)"
  unfolding on_floor_def
  by (rule keeps_Step) (use operated [OF _ assms(2)] assms(1,3) in \<open>simp add: split_beta Let_def\<close>)

lemma keeps_send: "keeps P p \<Longrightarrow> keeps P (change (send e sid m) p)"
  and keeps_status: "keeps P p \<Longrightarrow> keeps P (change (sendFloorStatus e sid m k r st q) p)"
  and keeps_machine: "keeps P p \<Longrightarrow> keeps P (change (update_StateMachine sid g) p)"
  and keeps_event: "keeps P p \<Longrightarrow> keeps P (change (\<lambda>s. emit_if (b s) (ev s) s) p)"
  by (rule keeps_frame; simp)+

lemma keeps_error: "sid \<in> sids \<Longrightarrow> keeps P p \<Longrightarrow> keeps P (change (sendError e sid m c info) p)"
  by (rule keeps_frame) (use session in \<open>auto simp: tcp_session_def intro!: frame_sendError\<close>)

lemma keeps_notify: "keeps P p \<Longrightarrow> keeps P (notifySteps e except u k r st ids p)"
  by (induction ids) (auto intro!: keeps_countTx keeps_frame)

lemma keeps_broadcast: "keeps P p \<Longrightarrow> keeps P (broadcastSteps e except u k r st p)"
  unfolding broadcastSteps_def by (rule keeps_Step) (simp add: framed [OF _ frame_tick] keeps_notify)

lemma keeps_search:
  "(\<And>x. keeps P (k x)) \<Longrightarrow> keeps P (findByRequestID r k ps)"
  "(\<And>x. keeps P (k x)) \<Longrightarrow> keeps P (findOwned u k ps)"
  "(\<And>xs. keeps P (k' xs)) \<Longrightarrow> keeps P (collectOwned u floors k' ps)"
  by (induction ps arbitrary: floors) (auto intro!: keeps_look)

lemmas keeps_intros = keeps_Done keeps_look keeps_over_floors keeps_countTx keeps_send keeps_status
  keeps_machine keeps_event keeps_error keeps_broadcast keeps_search

lemma keeps_request:
  assumes "sid \<in> sids"
    and allow: "allowed OpDeny" "\<And>r. allowed (OpRequest (UserID m) r (requestPriority m))"
      "allowed (OpGrant (env_now e))"
  shows "keeps P (requestSteps e sid m)"
proof -
  have g: "keeps P (grantSteps e sid m p k r)" "keeps P (denySteps e sid m p k r)" for p k r
    unfolding grantSteps_def denySteps_def
    by (rule keeps_on_floor [where opr = "OpGrant (env_now e)"] keeps_on_floor [where opr = OpDeny];
        auto split: option.split intro!: keeps_intros allow)+
  have a: "keeps P (answerSteps e sid m p k r b)" for p k r b
    unfolding answerSteps_def
    by (rule keeps_on_floor [where opr = "OpRequest (UserID m) r (requestPriority m)"])
       (auto split: option.split intro!: keeps_intros allow g assms(1))
  have d: "keeps P (Step (\<lambda>s. let (s, b) = decideGrant k (UserID m) r s in (s, answerSteps e sid m p k r b)))" for k r p
    by (simp add: split_beta Let_def a framed [OF _ frame_decideGrant])
  show ?thesis
  proof (cases "GetFloorID m")
    case None
    then show ?thesis by (simp add: requestSteps_def keeps_error assms keeps_Done)
  next
    case (Some k)
    have c: "keeps P (countTx (\<lambda>r. Step (\<lambda>s. let (s, b) = decideGrant k (UserID m) r s
        in (s, answerSteps e sid m p k r b))))" (is "keeps P (?decide p)") for p
      by (rule keeps_countTx) (rule d)
    have "keeps P (case floor of Some p \<Rightarrow> ?decide p
        | None \<Rightarrow> Step (\<lambda>s. let (s, p) = CreateFloor e k s in (s, ?decide p)))" for floor
      by (cases floor) (use c created in \<open>simp_all add: split_beta Let_def del: keeps_countTx\<close>)
    then show ?thesis unfolding requestSteps_def Let_def Some option.case by (rule keeps_look)
  qed
qed

lemma keeps_release:
  assumes "sid \<in> sids" "allowed (OpRelease (UserID m))"
  shows "keeps P (floorReleaseSteps e sid m)" "keeps P (goodbyeSteps e sid m)"
proof -
  have r: "keeps P (releaseSteps e sid m p k)" for p k
    unfolding releaseSteps_def Let_def
    by (rule keeps_on_floor [where opr = "OpRelease (UserID m)"])
       (auto split: option.split intro!: keeps_intros assms)
  then show "keeps P (floorReleaseSteps e sid m)"
    by (auto simp: floorReleaseSteps_def Let_def split: option.split intro!: keeps_intros assms)
  have g: "keeps P k \<Longrightarrow> keeps P (goodbyeFloorsSteps e sid m ps k)" for ps k
    by (induction ps)
       (auto split: option.split intro!: keeps_intros assms keeps_on_floor [where opr = "OpRelease (UserID m)"])
  have c: "P (case se_Transport (sv_session_at s sid) of None \<Rightarrow> panic s
      | Some t \<Rightarrow> update_transport t (tr_Close (sv_transport_at s t)) s)" if "P s" for s
    using session [OF that assms(1)] transported [OF that]
    by (auto simp: tcp_session_def tr_Close_def)
  show "keeps P (goodbyeSteps e sid m)"
    unfolding goodbyeSteps_def goodbyeAckSteps_def by (intro keeps_intros g keeps_change c)
qed

text \<open>The steps that first read the transport of the session.\<close>

lemma keeps_transport:
  assumes "sid \<in> sids"
    and "\<And>s t. P s \<Longrightarrow> se_Transport (sv_session_at s sid) = Some t \<Longrightarrow> P (fst (f s t)) \<and> keeps P (snd (f s t))"
  shows "keeps P (Step (\<lambda>s. case se_Transport (sv_session_at s sid) of
           None \<Rightarrow> (panic s, Done) | Some t \<Rightarrow> f s t))"
  by (rule keeps_Step) (use assms session in \<open>fastforce simp: tcp_session_def split: option.split\<close>)

lemma keeps_keepalive:
  "keeps P p \<Longrightarrow> keeps P (change (\<lambda>s. update_transport t (EnableKeepalive b (sv_transport_at s t)) s) p)"
  "keeps P p \<Longrightarrow> keeps P (change (\<lambda>s. update_transport t (StartKeepalive (sv_transport_at s t)) s) p)"
  by (rule keeps_change, rule transported; simp add: EnableKeepalive_def StartKeepalive_def)+

lemma keeps_hello:
  assumes "sid \<in> sids"
  shows "keeps P (helloSteps e sid m)"
proof -
  have k: "keeps P (change (recordSupported sid m)
     (change (send e sid (AddSupportedAttributes helloAttributes (AddSupportedPrimitives helloPrimitives
        (NewMessage PrimitiveHelloAck (ConferenceID m) (TransactionID m) (UserID m)))))
     (change (update_StateMachine sid (SetState (env_now e) StateWaitFloorRequest))
     (change (\<lambda>s. update_transport t (EnableKeepalive True (sv_transport_at s t)) s)
     (change (\<lambda>s. update_transport t (StartKeepalive (sv_transport_at s t)) s)
     (change (\<lambda>s. emit_if (cb_OnClientConnect (sv_callbacks s)) (ClientConnect r (UserID m)) s) Done))))))" for r t
    by (rule keeps_frame, simp, rule keeps_send, rule keeps_machine, rule keeps_keepalive,
        rule keeps_keepalive, rule keeps_event, rule keeps_Done)
  show ?thesis
    unfolding helloSteps_def
    by (rule keeps_machine, rule keeps_transport [OF assms])
       (use k registered [OF _ assms] in \<open>simp add: register_def Let_def\<close>)
qed

lemma keeps_query:
  assumes "sid \<in> sids"
  shows "keeps P (querySteps e sid m)"
  by (auto simp: querySteps_def split: option.split intro!: keeps_intros assms)

text \<open>A message keeps the property when the release it may stand for is allowed.\<close>

lemma keeps_message:
  assumes "sid \<in> sids" "\<And>oper. asks_for m oper \<Longrightarrow> allowed oper"
  shows "keeps P (messageSteps e sid m)"
  unfolding messageSteps_def dispatchSteps_def
  by (rule keeps_machine, rule keeps_machine, rule keeps_transport [OF assms(1)])
     (use assms framed [OF _ frame_callMessageIn] keeps_hello keeps_request keeps_release keeps_query
       in \<open>simp add: keeps_Done\<close>)

lemma keeps_handlers:
  assumes "\<forall>(e, sid, m) \<in> set ms. sid \<in> sids \<and> (\<forall>oper. asks_for m oper \<longrightarrow> allowed oper)" "P s"
  shows "P (fst (interleave turns (handlers ms) s))"
  by (rule interleave_keeps [where P = P and s = s, OF _ assms(2)]) (use assms(1) in \<open>auto simp: handlers_def intro!: keeps_message\<close>)

end

section \<open>Messages\<close>

lemma alone_message: "alone (messageSteps e sid m) s = finish e sid m (handleMessage e sid m s)"
  by (simp add: messageSteps_def dispatchSteps_def handleMessage_def Let_def finish_def alone_hello alone_request
      alone_release alone_query alone_goodbye split: option.split)


text \<open>
  The floors as their specification lets them move: a floor is created free, or one allowed operation
  acts on one floor.
\<close>

inductive floors_move :: "(floor_op \<Rightarrow> bool) \<Rightarrow> (u16 \<Rightarrow> floor option) \<Rightarrow> (u16 \<Rightarrow> floor option) \<Rightarrow> bool"
  for allowed :: "floor_op \<Rightarrow> bool" and v :: "u16 \<Rightarrow> floor option" where
  unmoved: "floors_move allowed v v"
| created: "floors_move allowed v w \<Longrightarrow> w k = None \<Longrightarrow> floors_move allowed v (w(k \<mapsto> Free))"
| operated: "floors_move allowed v w \<Longrightarrow> w k = Some a \<Longrightarrow> allowed oper \<Longrightarrow>
     floors_move allowed v (w(k \<mapsto> abs_op oper a))"

definition served :: "(floor_op \<Rightarrow> bool) \<Rightarrow> nat set \<Rightarrow> (u16 \<Rightarrow> floor option) \<Rightarrow> Server \<Rightarrow> bool" where
  "served allowed sids v s \<longleftrightarrow>
     server_inv s \<and> (\<forall>sid \<in> sids. tcp_session s sid) \<and> floors_move allowed v (floors_view s)"

lemma served_grows:
  "served allowed sids v s \<Longrightarrow> grows s s' \<Longrightarrow> server_inv s' \<Longrightarrow> floors_move allowed v (floors_view s') \<Longrightarrow>
     served allowed sids v s'"
  using tcp_session_grows by (auto simp: served_def)

lemma floors_view_run_op:
  assumes "server_inv s"
  shows "floors_view (update_floor p (run_op oper (sv_floor_at s p)) s) = floors_view s \<or>
    (\<exists>k a. floors_view s k = Some a \<and>
       floors_view (update_floor p (run_op oper (sv_floor_at s p)) s) = (floors_view s)(k \<mapsto> abs_op oper a))"
proof (cases "\<exists>k. lookup (sv_floors s) k = Some p")
  case True
  then obtain k where k: "lookup (sv_floors s) k = Some p" ..
  have "floor_abs (run_op oper (sv_floor_at s p)) = abs_op oper (floor_abs (sv_floor_at s p))"
    by (rule floor_abs_run_op [OF server_inv_floor [OF assms]])
  with floors_view_update_floor [OF _ k] assms k show ?thesis
    by (auto simp: floors_view_def server_inv_def)
next
  case False
  then show ?thesis by (auto simp: floors_view_def fun_eq_iff intro!: option.map_cong0)
qed

lemma floors_view_CreateFloor:
  assumes "server_inv s"
  shows "floors_view (fst (CreateFloor e k s)) = floors_view s \<or>
    (floors_view s k = None \<and> floors_view (fst (CreateFloor e k s)) = (floors_view s)(k \<mapsto> Free))"
proof (cases "lookup (sv_floors s) k")
  case None
  with CreateFloor_ok(2) [OF assms None] show ?thesis
    by (cases "CreateFloor e k s") (auto simp: floors_view_def)
qed (simp add: CreateFloor_def)

interpretation served: interleaving "served allowed sids v" sids allowed
proof (unfold_locales)
  fix s s' sid e k p oper t tr
  assume s: "served allowed sids v s"
  then have inv: "server_inv s" and mv: "floors_move allowed v (floors_view s)"
    by (simp_all add: served_def)
  show "tcp_session s sid" if "sid \<in> sids" using s that by (simp add: served_def)
  show "served allowed sids v s'" if f: "frame s s'"
    by (rule served_grows [OF s grows_frame [OF f] server_inv_frame [OF f inv]])
       (simp add: floors_view_frame [OF f] mv)
  show "served allowed sids v (fst (CreateFloor e k s))"
    by (rule served_grows [OF s grows_CreateFloor CreateFloor_inv [OF inv]])
       (use floors_view_CreateFloor [OF inv, of e k] mv floors_move.created in auto)
  show "served allowed sids v (update_floor p (run_op oper (sv_floor_at s p)) s)" if "allowed oper"
    by (rule served_grows [OF s grows_update_floor server_inv_run_op [OF inv]])
       (use floors_view_run_op [OF inv, of p oper] mv that floors_move.operated in auto)
  show "served allowed sids v (register (tr_RemoteAddr (sv_transport_at s t)) sid s)"
    if "sid \<in> sids" "se_Transport (sv_session_at s sid) = Some t"
  proof (rule served_grows [OF s grows_register])
    have ts: "tcp_session s sid" using s that(1) by (simp add: served_def)
    then show "server_inv (register (tr_RemoteAddr (sv_transport_at s t)) sid s)"
      by (intro server_inv_register [OF inv] tcp_peer [OF ts that(2)]) (simp add: tcp_session_def)
  qed (simp add: mv)
  show "served allowed sids v (update_transport t tr s)"
    if "tr_RemoteAddr tr = tr_RemoteAddr (sv_transport_at s t)" "tr_closed (sv_transport_at s t) \<Longrightarrow> tr_closed tr"
    by (rule served_grows [OF s grows_update_transport server_inv_update_transport [OF inv that(1)]])
       (simp_all add: mv that)
qed

text \<open>An operation of a handler; sessions that messages arrive on.\<close>

definition asked_by :: "(Env \<times> nat \<times> message) list \<Rightarrow> floor_op \<Rightarrow> bool" where
  "asked_by ms oper \<longleftrightarrow> (\<exists>(e, sid, m) \<in> set ms. asks_for m oper)"

definition on_sessions :: "(Env \<times> nat \<times> message) list \<Rightarrow> Server \<Rightarrow> bool" where
  "on_sessions ms s \<longleftrightarrow> (\<forall>(e, sid, m) \<in> set ms. tcp_session s sid)"

lemma handlers_served:
  assumes "server_inv s" "on_sessions ms s"
  shows "served (asked_by ms) {sid. \<exists>e m. (e, sid, m) \<in> set ms} (floors_view s)
    (fst (interleave turns (handlers ms) s))"
  by (rule served.keeps_handlers)
     (use assms in \<open>auto simp: asked_by_def on_sessions_def served_def intro: floors_move.unmoved\<close>)

text \<open>C12. Any number of handlers at once: however the steps of the handlers of any messages on any
  connections interleave, and wherever the schedule stops, no handler has panicked, the invariant
  of the server holds, every session still has its transport, and the floors have moved only by
  creations and by atomic operations that one of the messages asks for.\<close>
theorem interleaved_handlers_refine:
  assumes "server_inv s" "on_sessions ms s"
    and "s' = fst (interleave turns (handlers ms) s)"
  shows "server_inv s' \<and> \<not> sv_panicked s' \<and> on_sessions ms s' \<and>
    floors_move (asked_by ms) (floors_view s) (floors_view s')"
  using handlers_served [OF assms(1,2), of turns]
  by (auto simp: served_def on_sessions_def server_inv_def assms(3))

text \<open>A held floor moves only if it is taken away.\<close>

lemma floors_move_held:
  assumes "floors_move allowed v w" "v k = Some (Held u r)" "\<forall>oper. allowed oper \<longrightarrow> \<not> takes_away u oper"
  shows "w k = Some (Held u r)"
  using assms(1)
proof induction
  case (operated w k' a oper)
  moreover have "abs_op oper (Held u r) = Held u r"
    using abs_ops_held [of u "[oper]" r] operated.hyps(3) assms(3) by simp
  ultimately show ?case by auto
qed (use assms(2) in auto)

text \<open>
  Serving one message at a time, a Goodbye of user 0 releases no held floor; between the steps of
  other handlers it may.
\<close>

definition may_take :: "u16 \<Rightarrow> message \<Rightarrow> bool" where
  "may_take u m \<longleftrightarrow>
     Primitive m \<in> {PrimitiveFloorRelease, PrimitiveGoodbye} \<and> (UserID m = u \<or> UserID m = 0)"

lemma asks_to_take_away: "asks_for m oper \<Longrightarrow> takes_away u oper \<Longrightarrow> may_take u m"
  by (cases oper) (auto simp: may_take_def)

text \<open>C19. Mutual exclusion between concurrent handlers: a held floor stays with its holder and
  request through every interleaving of handlers, none of which serves a release or a Goodbye of
  the holder or of user 0.\<close>
theorem held_floor_survives_interleaving:
  assumes "server_inv s" "on_sessions ms s" "floors_view s k = Some (Held u r)"
    and "\<forall>(e, sid, m) \<in> set ms. \<not> may_take u m"
  shows "floors_view (fst (interleave turns (handlers ms) s)) k = Some (Held u r)"
proof (rule floors_move_held [where allowed = "asked_by ms"])
  show "floors_move (asked_by ms) (floors_view s) (floors_view (fst (interleave turns (handlers ms) s)))"
    using handlers_served [OF assms(1,2)] by (simp add: served_def)
  show "\<forall>oper. asked_by ms oper \<longrightarrow> \<not> takes_away u oper"
    using assms(4) asks_to_take_away [of _ _ u] by (fastforce simp: asked_by_def)
qed (rule assms(3))

text \<open>
  The hypotheses of the theorems above, on two connections of a server that grants.
\<close>

lemma two_connections_ok:
  "server_inv (ts_server two_connections)" "tcp_session (ts_server two_connections) 1"
  "tcp_session (ts_server two_connections) 3"
  using tcp_reachable_inv [OF two_connections_reachable] two_connections_reading
  by (simp_all add: tcp_inv_def)

text \<open>User 4 asks on the first connection and releases on the second, where user 5 asks then.\<close>

definition racing :: "(Env \<times> nat \<times> message) list" where
  "racing = [(plain_env, 1, tcpRequest),
     (plain_env, 3, tcpRequest\<lparr>Primitive := PrimitiveFloorRelease\<rparr>),
     (plain_env, 3, tcpRequest\<lparr>UserID := 5\<rparr>)]"

theorem interleaved_handlers_refine_witness:
  "floors_move (asked_by racing) (floors_view (ts_server two_connections))
     (floors_view (fst (interleave [0, 1, 2, 0, 1, 2, 0, 1, 2, 0, 2, 0, 2] (handlers racing)
       (ts_server two_connections))))"
proof -
  have "on_sessions racing (ts_server two_connections)"
    using two_connections_ok by (simp add: on_sessions_def racing_def)
  from interleaved_handlers_refine [OF two_connections_ok(1) this refl] show ?thesis by blast
qed

theorem held_floor_survives_interleaving_witness:
  "floors_view (fst (interleave [0, 1, 0, 1, 0, 1, 0, 1, 0, 1, 0, 1]
     (handlers [(plain_env, 3, tcpRequest\<lparr>UserID := 5\<rparr>),
        (plain_env, 1, tcpRequest\<lparr>UserID := 5, Primitive := PrimitiveGoodbye\<rparr>)])
     (ts_server floor_held_by_4))) 3 = Some (Held 4 1)"
proof (rule held_floor_survives_interleaving)
  have "tcp_reachable (DefaultServerConfig 1) no_callbacks floor_held_by_4"
    unfolding floor_held_by_4_def
    by (rule tcp_reachable_run [OF two_connections_reachable, where P = "\<lambda>_. True"])
       (simp add: all_actions_def plain_env_ok)
  note inv = tcp_reachable_inv [OF this]
  show "server_inv (ts_server floor_held_by_4)" using inv by (simp add: tcp_inv_def)
  have "set (ts_reading floor_held_by_4) = {1, 3}" by code_simp
  then show "on_sessions [(plain_env, 3, tcpRequest\<lparr>UserID := 5\<rparr>),
      (plain_env, 1, tcpRequest\<lparr>UserID := 5, Primitive := PrimitiveGoodbye\<rparr>)] (ts_server floor_held_by_4)"
    using inv by (auto simp: tcp_inv_def on_sessions_def)
  show "floors_view (ts_server floor_held_by_4) 3 = Some (Held 4 1)" by code_simp
qed (simp add: may_take_def tcpRequest_def requestMessage_def)

end
