(* ===== verification/Races.thy ===== *)
theory Races
  imports Interleaving
begin

text \<open>
  Two races between TCP handlers, each with a schedule that ends in a state which no order of whole
  handlers reaches: a denial that falls on another request, and a Goodbye that releases a floor
  granted after the Goodbye has looked for floors.
\<close>

section \<open>What a handler reaches\<close>

text \<open>A handler may be interrupted anywhere: what it reaches by steps of its own.\<close>

inductive reaches :: "steps \<Rightarrow> Server \<Rightarrow> steps \<Rightarrow> Server \<Rightarrow> bool" where
  stay: "reaches p s p s"
| go: "reaches (snd (f s)) (fst (f s)) p' s' \<Longrightarrow> reaches (Step f) s p' s'"

lemma reaches_alone: "reaches p s Done (alone p s)"
proof (induction p arbitrary: s)
  case (Step f)
  have "snd (f s) \<in> Basic_BNFs.snds (f s)" by (cases "f s") simp
  with Step.IH [of "f s" "snd (f s)"] show ?case by (auto intro: reaches.go)
qed (simp add: reaches.stay)

lemma reaches_steps:
  "reaches p (f s) p' s' \<Longrightarrow> reaches (change f p) s p' s'"
  "reaches (h (g s)) s p' s' \<Longrightarrow> reaches (look g h) s p' s'"
  "reaches (h1 (snd (oper (sv_floor_at s p1)))) (update_floor p1 (fst (oper (sv_floor_at s p1))) s) p' s' \<Longrightarrow>
     reaches (on_floor p1 oper h1) s p' s'"
  "reaches (h2 (snd (nextTxID_Add s))) (fst (nextTxID_Add s)) p' s' \<Longrightarrow> reaches (countTx h2) s p' s'"
  "reaches (h3 (map snd (range_floors e s))) (tick s) p' s' \<Longrightarrow> reaches (over_floors e h3) s p' s'"
  by (auto simp: change_def look_def on_floor_def countTx_def over_floors_def Let_def split_beta
      intro: reaches.go)

lemma interleave_reaches:
  assumes "reaches p s p' s'" "i < length ps" "ps ! i = p" "\<exists>turns. interleave turns (ps[i := p']) s' = z"
  shows "\<exists>turns. interleave turns ps s = z"
  using assms
proof (induction arbitrary: ps)
  case (stay p s)
  then show ?case by auto
next
  case (go f s p' s')
  have "\<exists>turns. interleave turns (ps[i := snd (f s)]) (fst (f s)) = z"
    by (rule go.IH) (use go.prems in simp_all)
  then obtain turns where "interleave turns (ps[i := snd (f s)]) (fst (f s)) = z" ..
  then have "interleave (i # turns) ps s = z" using go.prems by (simp add: split_beta Let_def)
  then show ?case ..
qed

lemma reaches_message:
  assumes "tcp_session s sid" "reaches (dispatchSteps e sid m) (received_TCP e sid m s) p' s'"
  shows "reaches (messageSteps e sid m) s p' s'"
proof -
  obtain t where t: "se_Transport (sv_session_at s sid) = Some t"
    using assms(1) by (auto simp: tcp_session_def)
  have "se_Transport (sv_session_at (update_StateMachine sid g (update_StateMachine sid h s)) sid) = Some t" for g h
    using frame_fields(13) [OF frame_trans [OF frame_update_StateMachine frame_update_StateMachine]] t by simp
  with assms(2) show ?thesis
    unfolding messageSteps_def
    by (intro reaches_steps(1) reaches.go) (simp add: received_TCP_def Let_def)
qed

text \<open>The first half of a request: to the status that answers it.\<close>

definition pendingRequest ::
    "Env \<Rightarrow> nat \<Rightarrow> message \<Rightarrow> u16 \<Rightarrow> Server \<Rightarrow> Server \<times> nat \<times> u16 \<times> bool \<times> RequestStatus \<times> floor_error option" where
  "pendingRequest e sid m k s =
     (let s = received_TCP e sid m s;
          (s, p) = floorFor e k s;
          (s, r) = nextTxID_Add s;
          (s, shouldGrant) = decideGrant k (UserID m) r s;
          (f, status, err) = Request (UserID m) r (requestPriority m) (sv_floor_at s p)
      in (sendFloorStatus e sid m k r status 0 (update_floor p f s), p, r, shouldGrant, status, err))"

lemma reaches_pending:
  assumes "pendingRequest e sid m k s = (s', p, r, False, RequestStatusPending, None)"
    and "Primitive m = PrimitiveFloorRequest" "GetFloorID m = Some k" "tcp_session s sid"
  shows "reaches (messageSteps e sid m) s (denySteps e sid m p k r) s'"
proof -
  let ?s1 = "received_TCP e sid m s"
  obtain s2 where s2: "floorFor e k ?s1 = (s2, p)"
    using assms(1) by (auto simp: pendingRequest_def Let_def split: prod.splits)
  obtain s3 where s3: "nextTxID_Add s2 = (s3, r)"
    using assms(1) s2 by (auto simp: pendingRequest_def Let_def split: prod.splits)
  obtain s4 where s4: "decideGrant k (UserID m) r s3 = (s4, False)"
    using assms(1) s2 s3 by (auto simp: pendingRequest_def Let_def split: prod.splits)
  obtain f where f: "Request (UserID m) r (requestPriority m) (sv_floor_at s4 p) = (f, RequestStatusPending, None)"
    using assms(1) s2 s3 s4 by (auto simp: pendingRequest_def Let_def split: prod.splits)
  have s': "s' = sendFloorStatus e sid m k r RequestStatusPending 0 (update_floor p f s4)"
    using assms(1) s2 s3 s4 f by (simp add: pendingRequest_def)
  have a: "reaches (answerSteps e sid m p k r False) s4 (denySteps e sid m p k r) s'"
    unfolding answerSteps_def
    by (rule reaches_steps(3)) (simp add: f s' reaches_steps(1) reaches.stay)
  have d: "reaches (countTx (\<lambda>r. Step (\<lambda>s. let (s, b) = decideGrant k (UserID m) r s
      in (s, answerSteps e sid m p k r b)))) s2 (denySteps e sid m p k r) s'"
    by (rule reaches_steps(4), rule reaches.go) (simp add: s3 s4 a)
  have "reaches (requestSteps e sid m) ?s1 (denySteps e sid m p k r) s'"
    unfolding requestSteps_def assms(3) Let_def option.case
  proof (rule reaches_steps(2), cases "GetFloor k ?s1")
    case None
    with s2 have c: "CreateFloor e k ?s1 = (s2, p)" by (simp add: floorFor_def)
    show "reaches (case GetFloor k ?s1 of Some p \<Rightarrow> countTx (\<lambda>r. Step (\<lambda>s. case decideGrant k (UserID m) r s of
          (s, b) \<Rightarrow> (s, answerSteps e sid m p k r b)))
        | None \<Rightarrow> Step (\<lambda>s. case CreateFloor e k s of (s, p) \<Rightarrow> (s, countTx (\<lambda>r. Step (\<lambda>s.
            case decideGrant k (UserID m) r s of (s, b) \<Rightarrow> (s, answerSteps e sid m p k r b))))))
        ?s1 (denySteps e sid m p k r) s'"
      unfolding None option.case by (rule reaches.go) (use d c in \<open>simp add: Let_def\<close>)
  qed (use s2 d in \<open>simp add: floorFor_def Let_def\<close>)
  then show ?thesis by (intro reaches_message [OF assms(4)]) (simp add: dispatchSteps_def assms(2))
qed

text \<open>The first half of a Goodbye: to the floors it will release.\<close>

lemma reaches_collectOwned:
  "reaches (k (floors @ filter (\<lambda>p. GetOwner (sv_floor_at s p) = u) ps)) s p' s' \<Longrightarrow>
     reaches (collectOwned u floors k ps) s p' s'"
  by (induction ps arbitrary: floors) (auto intro!: reaches_steps(2))

lemma reaches_goodbye:
  assumes "floorsOwnedBy e (UserID m) (received_TCP e sid m s) = (s', floors)"
    and "Primitive m = PrimitiveGoodbye" "tcp_session s sid"
  shows "reaches (messageSteps e sid m) s (goodbyeFloorsSteps e sid m floors (goodbyeAckSteps e sid m)) s'"
proof -
  have "reaches (goodbyeSteps e sid m) (received_TCP e sid m s)
      (goodbyeFloorsSteps e sid m floors (goodbyeAckSteps e sid m)) s'"
    unfolding goodbyeSteps_def
    by (rule reaches_steps(5), rule reaches_collectOwned)
       (use assms(1) in \<open>auto simp: floorsOwnedBy_def tick_def intro: reaches.stay\<close>)
  then show ?thesis by (intro reaches_message [OF assms(3)]) (simp add: dispatchSteps_def assms(2))
qed

section \<open>A denial that comes late\<close>

text \<open>
  A server that refuses every request, with two connections.
\<close>

definition refusing :: TCPServer where
  "refusing = tcp_run
     [(plain_env, Accept ''10.0.0.1:5070''), (plain_env, Accept ''10.0.0.2:5070'')]
     (TCPServer_start ((DefaultServerConfig 1)\<lparr>cfg_AutoGrant := False\<rparr>) no_callbacks)"

text \<open>The statuses told to user \<open>u\<close>; an error tells none.\<close>

definition answers_to :: "u16 \<Rightarrow> Server \<Rightarrow> RequestStatus option list" where
  "answers_to u s =
     map (\<lambda>m. map_option fst (GetRequestStatus m))
       (filter (\<lambda>m. UserID m = u)
         (List.map_filter (\<lambda>(r, bs). case Decode bs of Ok m \<Rightarrow> Some m | _ \<Rightarrow> None) (outbox s)))"

lemma refusing_ok: "tcp_session (ts_server refusing) 1" "tcp_session (ts_server refusing) 3"
  by code_simp+

definition asked_first :: Server where
  "asked_first = fst (pendingRequest plain_env 1 tcpRequest 3 (ts_server refusing))"

definition freed :: Server where
  "freed = fst (handleMessage plain_env 3 (tcpRequest\<lparr>Primitive := PrimitiveFloorRelease\<rparr>) asked_first)"

definition asked_again :: Server where
  "asked_again = fst (pendingRequest plain_env 3 (tcpRequest\<lparr>UserID := 5\<rparr>) 3 freed)"

lemma race_requests:
  "pendingRequest plain_env 1 tcpRequest 3 (ts_server refusing) =
     (asked_first, 4, 1, False, RequestStatusPending, None)"
  "pendingRequest plain_env 3 (tcpRequest\<lparr>UserID := 5\<rparr>) 3 freed =
     (asked_again, 4, 2, False, RequestStatusPending, None)"
proof -
  have "snd (pendingRequest plain_env 1 tcpRequest 3 (ts_server refusing)) =
      (4, 1, False, RequestStatusPending, None)" by code_simp
  then show "pendingRequest plain_env 1 tcpRequest 3 (ts_server refusing) =
      (asked_first, 4, 1, False, RequestStatusPending, None)"
    unfolding asked_first_def by (metis prod.collapse)
  have "snd (pendingRequest plain_env 3 (tcpRequest\<lparr>UserID := 5\<rparr>) 3 freed) =
      (4, 2, False, RequestStatusPending, None)" by code_simp
  then show "pendingRequest plain_env 3 (tcpRequest\<lparr>UserID := 5\<rparr>) 3 freed =
      (asked_again, 4, 2, False, RequestStatusPending, None)"
    unfolding asked_again_def by (metis prod.collapse)
qed

definition late_denial :: Server where
  "late_denial = denial plain_env 3 (tcpRequest\<lparr>UserID := 5\<rparr>) 4 3 2 (denial plain_env 1 tcpRequest 4 3 1 asked_again)"

lemma racing_turns:
  "\<exists>turns. interleave turns (handlers racing) (ts_server refusing) = (late_denial, [Done, Done, Done])"
proof -
  let ?rel = "tcpRequest\<lparr>Primitive := PrimitiveFloorRelease\<rparr>" and ?m5 = "tcpRequest\<lparr>UserID := 5\<rparr>"
  have h: "handlers racing = [messageSteps plain_env 1 tcpRequest, messageSteps plain_env 3 ?rel,
      messageSteps plain_env 3 ?m5]" by (simp add: handlers_def racing_def)
  have m: "Primitive tcpRequest = PrimitiveFloorRequest" "GetFloorID tcpRequest = Some 3"
    "Primitive ?m5 = PrimitiveFloorRequest" "GetFloorID ?m5 = Some 3" by code_simp+
  have fr: "snd (handleMessage plain_env 3 ?rel asked_first) = None" by code_simp
  then have f: "alone (messageSteps plain_env 3 ?rel) asked_first = freed"
    by (cases "handleMessage plain_env 3 ?rel asked_first") (simp add: alone_message finish_def freed_def)
  have ts: "tcp_session freed 3" by code_simp
  have r1: "reaches (messageSteps plain_env 1 tcpRequest) (ts_server refusing)
      (denySteps plain_env 1 tcpRequest 4 3 1) asked_first"
    by (rule reaches_pending [OF race_requests(1) m(1,2) refusing_ok(1)])
  have r2: "reaches (messageSteps plain_env 3 ?rel) asked_first Done freed"
    using reaches_alone [of "messageSteps plain_env 3 ?rel" asked_first] unfolding f .
  have r3: "reaches (messageSteps plain_env 3 ?m5) freed (denySteps plain_env 3 ?m5 4 3 2) asked_again"
    by (rule reaches_pending [OF race_requests(2) m(3,4) ts])
  have r4: "reaches (denySteps plain_env 1 tcpRequest 4 3 1) asked_again Done
      (denial plain_env 1 tcpRequest 4 3 1 asked_again)"
    using reaches_alone alone_deny by metis
  have r5: "reaches (denySteps plain_env 3 ?m5 4 3 2) (denial plain_env 1 tcpRequest 4 3 1 asked_again) Done late_denial"
    using reaches_alone alone_deny unfolding late_denial_def by metis
  show ?thesis
    unfolding h
    by (rule interleave_reaches [where i = 0, OF r1], simp, simp, rule interleave_reaches [where i = 1, OF r2], simp, simp,
        rule interleave_reaches [where i = 2, OF r3], simp, simp, rule interleave_reaches [where i = 0, OF r4], simp, simp,
        rule interleave_reaches [where i = 2, OF r5], simp, simp, rule exI [where x = "[]"], simp)
qed

text \<open>A message served to its end before the next.\<close>

fun serve :: "Env \<times> nat \<times> message \<Rightarrow> Server \<Rightarrow> Server" where
  "serve (e, sid, m) s = finish e sid m (handleMessage e sid m s)"

text \<open>The handlers one after the other.\<close>

lemma order_012: "answers_to 5 (fold (\<lambda>i. serve (racing ! i)) [0, 1, 2] (ts_server refusing)) = [None]"
  by code_simp

lemma order_102: "answers_to 5 (fold (\<lambda>i. serve (racing ! i)) [1, 0, 2] (ts_server refusing)) = [None]"
  by code_simp

lemma order_120: "answers_to 5 (fold (\<lambda>i. serve (racing ! i)) [1, 2, 0] (ts_server refusing)) = [Some RequestStatusPending, Some RequestStatusDenied]"
  by code_simp

lemmas in_orders = order_012 order_102 order_120


text \<open>A granted request for a free floor, served to its end, holds the floor.\<close>

lemma serve_ok:
  assumes "server_inv s" "tcp_session s sid" "tcp_session s sid'"
  shows "server_inv (serve (e, sid, m) s)" "tcp_session (serve (e, sid, m) s) sid'"
proof -
  have "served (asks_for m) {sid, sid'} (floors_view s) s"
    using assms by (simp add: served_def floors_move.unmoved)
  then have "served (asks_for m) {sid, sid'} (floors_view s) (alone (messageSteps e sid m) s)"
    by (intro keeps_alone [where P = "served (asks_for m) {sid, sid'} (floors_view s)"] served.keeps_message) auto
  then show "server_inv (serve (e, sid, m) s)" "tcp_session (serve (e, sid, m) s) sid'"
    by (simp_all add: alone_message served_def)
qed

text \<open>A Goodbye, served to its end, takes no floor from another user.\<close>

lemma serve_goodbye_spares:
  assumes "env_ok e" "server_inv s" "tcp_session s sid" "floors_view s k = Some (Held u r)"
    and "Primitive m = PrimitiveGoodbye" "UserID m \<noteq> u"
  shows "floors_view (serve (e, sid, m) s) k = Some (Held u r)"
proof -
  have ok: "handled s m (handleMessage e sid m s)" by (rule handleMessage_handled [OF assms(1-3)])
  then have "snd (handleMessage e sid m s) = None"
    using assms(5) unfolding handled_def by (cases "snd (handleMessage e sid m s)") auto
  then have "serve (e, sid, m) s = fst (handleMessage e sid m s)" by (simp add: finish_def split_beta)
  moreover have "\<not> gives_up u m" using assms(5,6) by (simp add: gives_up_def)
  ultimately show ?thesis
    using ok tcp_serves_spares(1) assms(4) unfolding handled_def by metis
qed

lemma serve_granted:
  assumes "env_ok e" "server_inv s" "tcp_session s sid"
    and "Primitive m = PrimitiveFloorRequest" "GetFloorID m = Some k" "floor_or_free (floors_view s) k = Free"
    and "policy_of s k (UserID m) (next_request s)"
  shows "floors_view (serve (e, sid, m) s) k = Some (Held (UserID m) (next_request s))"
proof -
  obtain s1 x where h: "handleMessage e sid m s = (s1, x)" by (cases "handleMessage e sid m s")
  have ok: "handled s m (s1, x)" using handleMessage_handled [OF assms(1-3)] h by metis
  then have inv: "server_inv s1" and "x \<noteq> None" using assms(4-7) unfolding handled_def by simp_all
  then obtain g where g: "x = Some g" by auto
  from ok have "\<exists>p k'. g = (p, k', next_request s) \<and> lookup (sv_floors s1) k' = Some p \<and>
      GetFloorID m = Some k' \<and> floors_view s1 k' = Some (Asked (UserID m) (next_request s))"
    unfolding handled_def g fst_conv snd_conv by blast
  with assms(5) g obtain p where x: "x = Some (p, k, next_request s)" "lookup (sv_floors s1) k = Some p"
    "floors_view s1 k = Some (Asked (UserID m) (next_request s))" by force
  have "floors_view (wakeFloorRequest e sid m (p, k, next_request s) s1) k =
      Some (floor_abs (fst (Grant (env_now e) (sv_floor_at s1 p))))"
    using floors_view_frame [OF frame_wakeFloorRequest [of p e s1 sid m k "next_request s"]]
      floors_view_update_floor [OF _ x(2)] inv by (simp add: server_inv_def)
  then show ?thesis
    using x by (simp add: h finish_def floor_abs_Grant [where now' = 0] floors_view_def)
qed

section \<open>A Goodbye that releases too much\<close>

text \<open>
  Floor 3 is free; on the first connection comes a Goodbye of user 0, who owns every free floor, and
  on the second a request of user 5.
\<close>

definition open_floor :: TCPServer where
  "open_floor = tcp_run [(plain_env, Application (ApiCreateFloor 3))] two_connections"

definition parting :: "(Env \<times> nat \<times> message) list" where
  "parting = [(plain_env, 1, tcpRequest\<lparr>Primitive := PrimitiveGoodbye, UserID := 0\<rparr>),
     (plain_env, 3, tcpRequest\<lparr>UserID := 5\<rparr>)]"

definition looked :: Server where
  "looked = fst (floorsOwnedBy plain_env 0 (received_TCP plain_env 1
     (tcpRequest\<lparr>Primitive := PrimitiveGoodbye, UserID := 0\<rparr>) (ts_server open_floor)))"

definition granted_meanwhile :: Server where
  "granted_meanwhile = serve (plain_env, 3, tcpRequest\<lparr>UserID := 5\<rparr>) looked"

definition taken :: Server where
  "taken = alone (goodbyeAckSteps plain_env 1 (tcpRequest\<lparr>Primitive := PrimitiveGoodbye, UserID := 0\<rparr>))
     (goodbyeFloor plain_env 1 (tcpRequest\<lparr>Primitive := PrimitiveGoodbye, UserID := 0\<rparr>) 4 granted_meanwhile)"

lemma goodbyeAck_view:
  "floors_view (alone (goodbyeAckSteps e sid m) s) = floors_view s"
proof -
  have "floors_view (panic x) = floors_view x" for x by (simp add: panic_def floors_view_def fun_eq_iff)
  then show ?thesis
    by (simp add: goodbyeAckSteps_def floors_view_frame [OF frame_send]
        floors_view_frame [OF frame_update_StateMachine] split: option.split)
qed

lemma taken_view: "floors_view taken 3 = Some Free"
  unfolding taken_def goodbyeAck_view by code_simp

lemma taken_answers: "answers_to 5 taken = [Some RequestStatusPending, Some RequestStatusGranted]"
  by code_simp

lemma parting_turns:
  "\<exists>turns. interleave turns (handlers parting) (ts_server open_floor) = (taken, [Done, Done])"
proof -
  let ?bye = "tcpRequest\<lparr>Primitive := PrimitiveGoodbye, UserID := 0\<rparr>" and ?m5 = "tcpRequest\<lparr>UserID := 5\<rparr>"
  have h: "handlers parting = [messageSteps plain_env 1 ?bye, messageSteps plain_env 3 ?m5]"
    by (simp add: handlers_def parting_def)
  have "snd (floorsOwnedBy plain_env 0 (received_TCP plain_env 1 ?bye (ts_server open_floor))) = [4]"
    by code_simp
  then have l: "floorsOwnedBy plain_env (UserID ?bye) (received_TCP plain_env 1 ?bye (ts_server open_floor)) = (looked, [4])"
    by (simp add: looked_def prod_eq_iff)
  have ts: "tcp_session (ts_server open_floor) 1" by code_simp
  have r1: "reaches (messageSteps plain_env 1 ?bye) (ts_server open_floor)
      (goodbyeFloorsSteps plain_env 1 ?bye [4] (goodbyeAckSteps plain_env 1 ?bye)) looked"
    by (rule reaches_goodbye [OF l _ ts]) simp
  have r2: "reaches (messageSteps plain_env 3 ?m5) looked Done granted_meanwhile"
    using reaches_alone [of "messageSteps plain_env 3 ?m5" looked]
    unfolding alone_message granted_meanwhile_def serve.simps .
  have r3: "reaches (goodbyeFloorsSteps plain_env 1 ?bye [4] (goodbyeAckSteps plain_env 1 ?bye))
      granted_meanwhile Done taken"
    using reaches_alone [of "goodbyeFloorsSteps plain_env 1 ?bye [4] (goodbyeAckSteps plain_env 1 ?bye)" granted_meanwhile]
    by (simp only: alone_goodbyeFloors taken_def fold_simps)
  show ?thesis
    unfolding h
    by (rule interleave_reaches [where i = 0, OF r1], simp, simp, rule interleave_reaches [where i = 1, OF r2],
        simp, simp, rule interleave_reaches [where i = 0, OF r3], simp, simp del: goodbyeFloorsSteps.simps,
        rule exI [where x = "[]"], simp)
qed

text \<open>Either handler after the other.\<close>

lemma open_floor_ok: "server_inv (ts_server open_floor)"
proof -
  have "tcp_reachable (DefaultServerConfig 1) no_callbacks open_floor"
    unfolding open_floor_def
    by (rule tcp_reachable_run [OF two_connections_reachable, where P = "\<lambda>_. True"])
       (simp add: all_actions_def plain_env_ok)
  then show ?thesis using tcp_reachable_inv by (simp add: tcp_inv_def)
qed

lemma parted:
  "floors_view (fold serve parting (ts_server open_floor)) 3 = Some (Held 5 1)"
  "floors_view (fold serve (rev parting) (ts_server open_floor)) 3 = Some (Held 5 1)"
proof -
  let ?bye = "tcpRequest\<lparr>Primitive := PrimitiveGoodbye, UserID := 0\<rparr>" and ?m5 = "tcpRequest\<lparr>UserID := 5\<rparr>"
  let ?s = "ts_server open_floor"
  let ?s1 = "serve (plain_env, 1, ?bye) ?s" and ?s5 = "serve (plain_env, 3, ?m5) ?s"
  have ts: "tcp_session ?s 1" "tcp_session ?s 3" by code_simp+
  have m: "Primitive ?m5 = PrimitiveFloorRequest" "GetFloorID ?m5 = Some 3" "UserID ?m5 = 5" by code_simp+
  have v: "floor_or_free (floors_view ?s) 3 = Free" "policy_of ?s 3 5 1" "next_request ?s = 1" by code_simp+
  have v1: "floor_or_free (floors_view ?s1) 3 = Free" "policy_of ?s1 3 5 1" "next_request ?s1 = 1" by code_simp+
  have "floors_view (serve (plain_env, 3, ?m5) ?s1) 3 = Some (Held 5 1)"
    using serve_granted [OF plain_env_ok serve_ok(1,2) [OF open_floor_ok ts] m(1,2) v1(1)] v1(2,3) m(3) by simp
  then show "floors_view (fold serve parting ?s) 3 = Some (Held 5 1)" by (simp add: parting_def del: serve.simps)
  have "floors_view ?s5 3 = Some (Held 5 1)"
    using serve_granted [OF plain_env_ok open_floor_ok ts(2) m(1,2) v(1)] v(2,3) m(3) by simp
  then have "floors_view (serve (plain_env, 1, ?bye) ?s5) 3 = Some (Held 5 1)"
    by (rule serve_goodbye_spares [OF plain_env_ok serve_ok(1,2) [OF open_floor_ok ts(2,1)]]) simp_all
  then show "floors_view (fold serve (rev parting) ?s) 3 = Some (Held 5 1)"
    by (simp add: parting_def del: serve.simps)
qed


end
