(* ===== verification/Wire_Types.thy ===== *)
theory Wire_Types
  imports TCP_Runs Handler_Effects
begin

text \<open>
  The types the server keeps: every session records a version that the protocol has, every client role
  sends with one, and every packet in the log is one that \<^verbatim>\<open>Decode\<close> accepts. Every handler, over UDP
  and TCP, and every call of the application with a version of the protocol keeps this.
\<close>

section \<open>Well-typed states\<close>

definition version_known :: "u8 \<Rightarrow> bool" where
  "version_known v \<longleftrightarrow> v = 0 \<or> supported v"

definition decodes :: "byte list \<Rightarrow> bool" where
  "decodes bs \<longleftrightarrow> (\<exists>m. Decode bs = Ok m)"

definition packets_typed :: "Server \<Rightarrow> bool" where
  "packets_typed s \<longleftrightarrow> (\<forall>(r, bs) \<in> set (outbox s). decodes bs)"

definition versions_typed :: "Server \<Rightarrow> bool" where
  "versions_typed s \<longleftrightarrow>
     (\<forall>sid. version_known (ssm_ClientVersion (se_StateMachine (sv_session_at s sid)))) \<and>
     (\<forall>(r, c) \<in> set (sv_udpClients s). supported (ucc_Version (uc_config (sv_client_at s c))))"

definition typed :: "Server \<Rightarrow> bool" where
  "typed s \<longleftrightarrow> packets_typed s \<and> versions_typed s"

lemma typed_cong:
  assumes "outbox s' = outbox s" "sv_session_at s' = sv_session_at s" "sv_udpClients s' = sv_udpClients s"
    and "sv_client_at s' = sv_client_at s"
  shows "typed s' = typed s"
  using assms by (simp add: typed_def packets_typed_def versions_typed_def)

lemma typed_same [simp]:
  "typed (tick s) = typed s" "typed (panic s) = typed s" "typed (update_floor p f s) = typed s"
  "typed (fst (nextTxID_Add s)) = typed s" "typed (s\<lparr>sv_nextTxID := n\<rparr>) = typed s"
  "typed (s\<lparr>sv_sessions := ss\<rparr>) = typed s" "typed (s\<lparr>sv_udpListener := l\<rparr>) = typed s"
  "typed (s\<lparr>sv_floors := fs\<rparr>) = typed s" "typed (s\<lparr>sv_fresh := fresh\<rparr>) = typed s"
  "typed (s\<lparr>sv_udp_at := ua\<rparr>) = typed s" "typed (s\<lparr>sv_transport_at := ta\<rparr>) = typed s"
  "typed (update_transport t tr s) = typed s"
  by (intro typed_cong; simp add: outbox_def tick_def panic_def nextTxID_Add_def Let_def update_transport_def)+

lemma versions_typed_emit [simp]: "versions_typed (emit ev s) = versions_typed s"
  by (simp add: versions_typed_def emit_def)

lemma typed_quiet [simp]: "sent_by ev = None \<Longrightarrow> typed (emit_if b ev s) = typed s"
  by (simp add: typed_def packets_typed_def emit_if_def outbox_emit)

lemma typed_callMessage [simp]:
  "typed (callMessageIn remote m s) = typed s" "typed (callMessageOut remote m s) = typed s"
  by (simp_all add: callMessageIn_def callMessageOut_def)

lemma typed_decideGrant [simp]: "typed (fst (decideGrant k u r s)) = typed s"
  by (simp add: decideGrant_def typed_def packets_typed_def outbox_emit split: option.splits)

lemma typed_sent: "typed s \<Longrightarrow> decodes bs \<Longrightarrow> typed (emit (Sent r bs) s)"
  by (auto simp: typed_def packets_typed_def outbox_emit)

lemma typed_update_StateMachine:
  assumes "typed s" "\<And>m. ssm_ClientVersion (g m) = ssm_ClientVersion m \<or> version_known (ssm_ClientVersion (g m))"
  shows "typed (update_StateMachine sid g s)"
proof -
  have "version_known (ssm_ClientVersion (g (se_StateMachine (sv_session_at s sid))))"
    using assms(1) assms(2) [of "se_StateMachine (sv_session_at s sid)"]
    by (auto simp: typed_def versions_typed_def)
  with assms(1) show ?thesis
    by (auto simp: typed_def packets_typed_def versions_typed_def) (auto simp: update_StateMachine_def)
qed

lemma typed_ClientVersion:
  "typed s \<Longrightarrow> version_known v \<Longrightarrow> typed (update_StateMachine sid (\<lambda>x. x\<lparr>ssm_ClientVersion := v\<rparr>) s)"
  by (rule typed_update_StateMachine) simp_all

section \<open>Sending\<close>

lemma wf_decodes: "wfMessage m \<Longrightarrow> Encode m = Ok (m', bs) \<Longrightarrow> decodes bs"
  using Decode_Encode_wf [of m] by (auto simp: decodes_def)

lemma supported_default: "supported ProtocolVersion"
  by (simp add: supported_def ProtocolVersion_def)

lemma typed_version: "typed s \<Longrightarrow> supported (ProtocolVersion_of (sv_session_at s sid))"
proof -
  assume "typed s"
  then have "version_known (ssm_ClientVersion (se_StateMachine (sv_session_at s sid)))"
    by (simp add: typed_def versions_typed_def)
  then show ?thesis by (auto simp: ProtocolVersion_of_def version_known_def supported_def)
qed

lemma wf_sendable: "sendable m \<Longrightarrow> supported v \<Longrightarrow> wfMessage (m\<lparr>Version := v\<rparr>)"
  by (auto simp: wfMessage_def sendable_def supported_def payloadSize_def)

lemma typed_sendUDP:
  assumes "typed s" "sendable m"
  shows "typed (sendUDP e sid m s)"
proof (cases "se_UDPTransport (sv_session_at s sid)")
  case (Some t)
  let ?m = "outgoing (ProtocolVersion_of (sv_session_at s sid)) m"
  have wf: "wfMessage ?m" using wf_outgoing [OF assms(2) typed_version [OF assms(1)]] .
  have "sendUDP e sid m s =
      (case udp_SendMessage (env_write e (sv_ticks s)) ?m (sv_udp_at s t) of
         Ok (msg, data) \<Rightarrow> callMessageOut (udp_RemoteAddr (sv_udp_at s t)) msg
           (emit (Sent (udp_RemoteAddr (sv_udp_at s t)) data) (tick s))
       | Fail err \<Rightarrow> tick s
       | Panic \<Rightarrow> panic s)"
    using Some by (simp add: sendUDP_def outgoing_def Let_def)
  with assms(1) wf_decodes [OF wf] show ?thesis
    by (auto simp: udp_SendMessage_def intro!: typed_sent split: res.splits if_splits)
qed (simp add: sendUDP_def assms(1))

lemma typed_send:
  assumes "typed s" "sendable m"
  shows "typed (send e sid m s)"
proof (cases "se_UDPTransport (sv_session_at s sid)")
  case None
  show ?thesis
  proof (cases "se_Transport (sv_session_at s sid)")
    case (Some t)
    let ?m = "m\<lparr>Version := ProtocolVersion_of (sv_session_at s sid)\<rparr>"
    have wf: "wfMessage ?m" using wf_sendable [OF assms(2) typed_version [OF assms(1)]] .
    show ?thesis
      using None Some assms(1) wf_decodes [OF wf]
      by (auto simp: send_def Let_def tr_SendMessage_def intro!: typed_sent split: res.splits if_splits)
  qed (simp add: send_def None assms(1))
qed (use assms in \<open>simp add: send_def typed_sendUDP\<close>)

lemma typed_sendRaw: "typed s \<Longrightarrow> decodes bs \<Longrightarrow> typed (sendRaw e sid bs s)"
  by (auto simp: sendRaw_def udp_SendRawData_def tr_SendRawData_def intro!: typed_sent
      split: option.splits res.splits if_splits)

lemma decodes_built: "supported v \<Longrightarrow> decodes (BuildFloorStatusMessage v c t u k r st)"
proof -
  assume "supported v"
  then have "wfMessage (builtStatus v c t u k r st)"
    by (auto simp: wfMessage_def builtStatus_def AddFloorRequestInformationRFC4582_def Let_def payloadSize_def
        attrSize_def AddFloorID_def AddAttribute_def supported_def floorInfo_wf)
       (auto simp: wfAttr_def NewMessage_def)
  from wf_decodes [OF this Encode_builtStatus] show ?thesis .
qed

text \<open>The elementary effects keep the types, and so do the handlers.\<close>

interpretation typing: handler_effects typed
proof
  show "typed s \<Longrightarrow> sent_by ev = None \<Longrightarrow> typed (emit ev s)" for s ev
    by (simp add: typed_def packets_typed_def outbox_emit)
  show "typed s \<Longrightarrow> typed (s\<lparr>sv_fresh := Suc (sv_fresh s), sv_floors := fs\<rparr>)" for s fs
    by (simp add: typed_def packets_typed_def versions_typed_def outbox_def)
  show "typed s \<Longrightarrow> (\<And>x. ssm_ClientVersion (g x) = ssm_ClientVersion x) \<Longrightarrow>
      typed (update_StateMachine sid g s)" for s g sid
    by (rule typed_update_StateMachine) simp_all
  show "typed s \<Longrightarrow> v = ProtocolVersion_of (sv_session_at s sid) \<Longrightarrow>
      typed (sendRaw e sid (BuildFloorStatusMessage v c t u k r st) s)" for s v sid e c t u k r st
    by (simp add: typed_sendRaw decodes_built typed_version)
qed (simp_all add: typed_send typed_sendUDP)

section \<open>The client role\<close>

definition client_typed :: "nat \<Rightarrow> Server \<Rightarrow> bool" where
  "client_typed c s \<longleftrightarrow> typed s \<and> supported (ucc_Version (uc_config (sv_client_at s c)))"

lemma client_typed_quiet [simp]:
  "sent_by ev = None \<Longrightarrow> client_typed c (emit_if b ev s) = client_typed c s"
  "client_typed c (callMessageIn remote m s) = client_typed c s"
proof -
  show q: "sent_by ev = None \<Longrightarrow> client_typed c (emit_if b ev s) = client_typed c s" for b ev s
    by (simp add: client_typed_def) (simp add: emit_if_def emit_def)
  show "client_typed c (callMessageIn remote m s) = client_typed c s"
    unfolding callMessageIn_def by (rule q) simp
qed

lemma client_typed_update:
  assumes "client_typed c s" "uc_config client = uc_config (sv_client_at s c)"
  shows "client_typed c (update_client c client s)"
proof -
  have "outbox (update_client c client s) = outbox s"
    by (simp add: outbox_def update_client_def)
  with assms show ?thesis
    by (auto simp: client_typed_def typed_def packets_typed_def)
       (auto simp: versions_typed_def update_client_def)
qed

lemma client_typed_notifyFloor: "client_typed c s \<Longrightarrow> client_typed c (notifyFloor e c r b st fl s)"
  by (auto simp: notifyFloor_def applyOwnStatus_def Let_def intro!: client_typed_update)

lemma client_typed_fold:
  "client_typed c s \<Longrightarrow> (\<And>x s. client_typed c s \<Longrightarrow> client_typed c (f x s)) \<Longrightarrow> client_typed c (fold f xs s)"
  by (induction xs arbitrary: s) simp_all

lemma client_typed_notification: "client_typed c s \<Longrightarrow> client_typed c (handleNotification e c m s)"
  by (auto simp: handleNotification_def notifyInfo_def Let_def split: option.splits
      intro!: client_typed_fold client_typed_notifyFloor)

lemma typed_ack: "client_typed c s \<Longrightarrow> typed (ack e c m p s)"
proof -
  assume t: "client_typed c s"
  let ?v = "ucc_Version (uc_config (sv_client_at s c))"
  have "wfMessage ((SetResponse True (NewMessage q k r u))\<lparr>Version := ?v\<rparr>)" for q k r u
    using t by (intro wf_sendable) (simp_all add: client_typed_def)
  from wf_decodes [OF this] t show ?thesis
    by (auto simp: ack_def uc_send_def Let_def udp_SendMessage_def client_typed_def intro!: typed_sent
        split: res.splits if_splits)
qed

lemma typed_uc_handleMessage: "client_typed c s \<Longrightarrow> typed (uc_handleMessage e c m s)"
proof -
  assume t: "client_typed c s"
  have u: "typed (update_client c (sv_client_at s c\<lparr>uc_chan_at := h\<rparr>) s)" for h
    using client_typed_update [OF t] by (simp add: client_typed_def)
  from t u show ?thesis
    by (auto simp: uc_handleMessage_def Let_def client_typed_def [of c s] split: option.splits
        intro!: typed_ack client_typed_notification)
qed

section \<open>Datagrams, connections, the application\<close>

lemma typed_new:
  "typed s \<Longrightarrow> typed (fst (newSession e tr utr u r s))"
  "typed s \<Longrightarrow> typed (fst (getOrCreateTransport l remote s))"
  by (auto simp: typed_def packets_typed_def versions_typed_def newSession_def getOrCreateTransport_def
      NewSessionStateMachine_def version_known_def outbox_def Let_def split: option.splits)

lemma client_of: "typed s \<Longrightarrow> lookup (sv_udpClients s) remote = Some c \<Longrightarrow> client_typed c s"
  using lookup_in_set by (fastforce simp: client_typed_def typed_def versions_typed_def)

lemma typed_session_handleUDPMessage:
  "typed s \<Longrightarrow> version_known (Version m) \<Longrightarrow> typed (session_handleUDPMessage e sid m s)"
  by (auto simp: session_handleUDPMessage_def Let_def
      intro!: typing.UDP_handlers typed_ClientVersion typing.machines)

lemma typed_handleUDPMessage:
  "typed s \<Longrightarrow> version_known (Version m) \<Longrightarrow> typed (handleUDPMessage e t m s)"
  by (auto simp: handleUDPMessage_def Let_def split_beta client_of split: option.splits
      intro!: typed_session_handleUDPMessage typed_new typed_uc_handleMessage)

lemma decoded_version: "Decode bs = Ok m \<Longrightarrow> version_known (Version m)"
  using Decode_accepts(1) [of bs m]
  by (auto simp: wfMessage_def version_known_def supported_def ProtocolVersionRFC4582_def ProtocolVersionRFC8855_def)

lemma typed_receiveDatagram: "typed s \<Longrightarrow> typed (receiveDatagram e remote data s)"
  by (auto simp: receiveDatagram_def split_beta decoded_version split: option.splits res.splits
      intro!: typed_handleUDPMessage typed_new)

text \<open>What the application passes: a version is one of the protocol, or 0 for the default.\<close>

fun typed_action :: "action \<Rightarrow> bool" where
  "typed_action (ApiRegisterClient resolve addr u k v) \<longleftrightarrow> version_known v"
| "typed_action (ApiNewUDPClient resolve addr config) \<longleftrightarrow> version_known (ucc_Version config)"
| "typed_action _ \<longleftrightarrow> True"

lemma typed_RegisterClient:
  assumes "typed s" "version_known v"
  shows "typed (fst (RegisterClient e resolve addr u k v s))"
  using assms
  by (auto simp: RegisterClient_def Let_def split_beta split: option.splits
      intro!: typing.sends_state typed_ClientVersion typed_new)

lemma typed_NewUDPClient:
  assumes "typed s" "version_known (ucc_Version config)"
  shows "typed (fst (NewUDPClient resolve addr config s))"
proof (cases "sv_udpListener s")
  case (Some l)
  show ?thesis
  proof (cases "resolve addr")
    case a: (Some key)
    obtain s1 t where g: "getOrCreateTransport l key s = (s1, t)" by (cases "getOrCreateTransport l key s")
    have s1: "typed s1" using typed_new(2) [OF assms(1), of l key] g by simp
    have v: "supported (ucc_Version (fillDefaults config))"
      using assms(2) by (auto simp: fillDefaults_def Let_def version_known_def supported_def)
    from s1 v show ?thesis
      by (auto simp: NewUDPClient_def Some a g Let_def typed_def packets_typed_def outbox_def versions_typed_def
          dest!: subsetD [OF set_put])
  qed (simp add: NewUDPClient_def Some assms(1))
qed (simp add: NewUDPClient_def assms(1))

lemma typed_uc_Close: "typed s \<Longrightarrow> typed (uc_Close c s)"
  by (auto simp: uc_Close_def Let_def update_client_def typed_def packets_typed_def outbox_def versions_typed_def
      dest!: subsetD [OF set_del])

lemma typed_act: "typed s \<Longrightarrow> typed_action a \<Longrightarrow> typed (act e a s)"
  by (cases a)
     (auto simp: typed_receiveDatagram ReleaseFloor_def GrantFloor_def Let_def split_beta typed_RegisterClient
       typed_NewUDPClient typed_uc_Close split: option.splits
       intro!: typing.creates typing.broadcasts typing.broadcasts_state)

lemma typed_connections:
  "typed s \<Longrightarrow> typed (fst (handleConnection e remote s))"
  "typed s \<Longrightarrow> typed (connectionClosed sid s)"
  "typed s \<Longrightarrow> typed (Server_Close e s)"
  "typed s \<Longrightarrow> typed (sendKeepalive e t c u s)"
proof -
  assume t: "typed s"
  show "typed (fst (handleConnection e remote s))"
    using t by (simp add: handleConnection_def Let_def typed_new)
  show "typed (connectionClosed sid s)"
    using t by (simp add: connectionClosed_def Let_def split: option.splits)
  show "typed (Server_Close e s)"
    using t by (auto simp: Server_Close_def closeSession_def UDPListener_Close_def Let_def
        intro!: typing.folds split: option.splits)
  have "wfMessage (NewMessage p c' x u')" for p c' x u'
    using wf_sendable [OF sendable_bare(1) supported_default, of p c' x u'] by (simp add: NewMessage_def)
  from wf_decodes [OF this] t show "typed (sendKeepalive e t' c u s)" for t'
    by (auto simp: sendKeepalive_def Let_def split_beta tr_SendMessage_def intro!: typed_sent
        split: res.splits if_splits)
qed

lemma typed_handleMessage:
  "typed s \<Longrightarrow> version_known (Version m) \<Longrightarrow> typed (fst (handleMessage e sid m s))"
  by (rule typing.handles) (simp_all add: typed_ClientVersion typing.machines)

fun typed_tcp_action :: "tcp_action \<Rightarrow> bool" where
  "typed_tcp_action (Arrive sid m) \<longleftrightarrow> (\<exists>bs. Decode bs = Ok m)"
| "typed_tcp_action (Application a) \<longleftrightarrow> typed_action a"
| "typed_tcp_action _ \<longleftrightarrow> True"

lemma typed_tcp_act: "typed (ts_server ts) \<Longrightarrow> typed_tcp_action a \<Longrightarrow> typed (ts_server (tcp_act e a ts))"
proof (cases a)
  case (Accept remote)
  then show "typed (ts_server ts) \<Longrightarrow> typed (ts_server (tcp_act e a ts))"
    using typed_connections(1) [of "ts_server ts" e remote]
    by (simp add: accept_def split_beta Let_def)
next
  case (Arrive sid m)
  assume "typed (ts_server ts)" "typed_tcp_action a"
  then show "typed (ts_server (tcp_act e a ts))"
    using typed_handleMessage [of "ts_server ts" m e sid] decoded_version [of _ m]
    by (auto simp: Arrive arrive_def split: prod.splits option.splits)
next
  case (Wake sid)
  then show "typed (ts_server ts) \<Longrightarrow> typed (ts_server (tcp_act e a ts))"
    by (auto simp: wake_def split: option.splits prod.splits intro!: typing.answers)
qed (simp_all add: lose_def typed_act typed_connections)

section \<open>Properties\<close>

definition server_run :: "(Env \<times> action) list \<Rightarrow> Server \<Rightarrow> Server" where
  "server_run = fold (\<lambda>(e, a). act e a)"



text \<open>C18. Typing over TCP: the same for connections, messages that the read loop decoded, sleeping
  handlers, keepalives and calls of the application in any order.\<close>
theorem tcp_server_well_typed:
  assumes "\<forall>(e, a) \<in> set as. typed_tcp_action a"
  shows "typed (ts_server (tcp_run as (TCPServer_start config callbacks)))"
proof -
  have "typed (ts_server (TCPServer_start config callbacks))"
    by (simp add: typed_def packets_typed_def versions_typed_def outbox_def TCPServer_start_def NewServer_def
        List.map_filter_simps NewSessionStateMachine_def version_known_def)
  with assms show ?thesis
    unfolding tcp_run_def
    by (induction as arbitrary: config callbacks rule: rev_induct) (auto intro: typed_tcp_act)
qed

theorem tcp_server_well_typed_witness:
  "\<exists>remote bs. (remote, bs) \<in> set (outbox (ts_server (tcp_run
     [(plain_env, Accept ''10.0.0.1:5070''), (plain_env, Keepalive 0 1 4)]
     (TCPServer_start (DefaultServerConfig 1) no_callbacks)))) \<and> decodes bs"
proof -
  let ?s = "ts_server (tcp_run [(plain_env, Accept ''10.0.0.1:5070''), (plain_env, Keepalive 0 1 4)]
     (TCPServer_start (DefaultServerConfig 1) no_callbacks))"
  have "packets_typed ?s"
    using tcp_server_well_typed [of "[(plain_env, Accept ''10.0.0.1:5070''), (plain_env, Keepalive 0 1 4)]"]
    by (simp add: typed_def del: tcp_run_simps)
  moreover have "map fst (outbox ?s) = [''10.0.0.1:5070'']" by code_simp
  ultimately show ?thesis unfolding packets_typed_def by (cases "outbox ?s") force+
qed

end
