(* ===== verification/Listening.thy ===== *)
theory Listening
  imports TCP_Runs UDP_Transactions "HOL-Library.Sublist"
begin

text \<open>
  Connections and listeners of \<^verbatim>\<open>transport.go\<close> and how \<^verbatim>\<open>server.go\<close> opens them: dialling, binding
  an address or the first free port of a range, the accept loop of the TCP listener and the read
  loop of the UDP listener. The operating system is a parameter: \<open>bind\<close> says what binding an
  address gives, the text of an error or the bound address, \<open>dial\<close> the same for a connection.
\<close>

section \<open>Dialling\<close>

type_synonym network = "string \<Rightarrow> string + string"

definition ask_network :: "network \<Rightarrow> string \<Rightarrow> (string, string) res" where
  "ask_network net address = (case net address of Inl err \<Rightarrow> Fail err | Inr addr \<Rightarrow> Ok addr)"

definition wrap_error :: "string \<Rightarrow> (string, 'a) res \<Rightarrow> (string, 'a) res" where
  "wrap_error context r = (case r of Fail err \<Rightarrow> Fail (context @ '': '' @ err) | _ \<Rightarrow> r)"

lemma wrap_error_simps [simp]:
  "wrap_error context (Ok x) = Ok x" "wrap_error context (Fail err) = Fail (context @ '': '' @ err)"
  "wrap_error context Panic = Panic"
  by (simp_all add: wrap_error_def)

definition Dial :: "network \<Rightarrow> string \<Rightarrow> (string, Transport) res" where
  "Dial dial address =
     bind_res (wrap_error (''failed to dial '' @ address) (ask_network dial address))
       (\<lambda>remote. Ok (NewTransport remote RoleActive))"

text \<open>The logger only observes.\<close>

definition DialWithLogger :: "network \<Rightarrow> string \<Rightarrow> (string, Transport) res" where
  "DialWithLogger dial address =
     bind_res (wrap_error (''failed to dial '' @ address) (ask_network dial address))
       (\<lambda>remote. Ok (NewTransport remote RoleActive))"

text \<open>
  \<^verbatim>\<open>DialContext\<close> replaces the context of the transport by the caller's. Closing still cancels the
  one that \<^verbatim>\<open>NewTransport\<close> made: the second component says whether it is the transport's.
\<close>

definition DialContext :: "network \<Rightarrow> string \<Rightarrow> (string, Transport \<times> bool) res" where
  "DialContext dial address =
     bind_res (wrap_error (''failed to dial '' @ address) (ask_network dial address))
       (\<lambda>remote. Ok (NewTransport remote RoleActive, False))"

section \<open>TCP listeners\<close>

text \<open>\<open>ln_cancels\<close> says whether \<^verbatim>\<open>cancel\<close> is set: \<^verbatim>\<open>ListenContext\<close> leaves it \<^verbatim>\<open>nil\<close>.\<close>

record Listener =
  ln_addr :: string
  ln_closed :: bool
  ln_cancels :: bool

definition Listen :: "network \<Rightarrow> string \<Rightarrow> (string, Listener) res" where
  "Listen bind address =
     bind_res (wrap_error (''failed to listen on '' @ address) (ask_network bind address))
       (\<lambda>addr. Ok \<lparr>ln_addr = addr, ln_closed = False, ln_cancels = True\<rparr>)"

definition ListenContext :: "network \<Rightarrow> string \<Rightarrow> (string, Listener) res" where
  "ListenContext bind address =
     bind_res (wrap_error (''failed to listen on '' @ address) (ask_network bind address))
       (\<lambda>addr. Ok \<lparr>ln_addr = addr, ln_closed = False, ln_cancels = False\<rparr>)"

definition Listener_Close :: "Listener \<Rightarrow> Listener" where
  "Listener_Close l = (if ln_closed l then l else l\<lparr>ln_closed := True\<rparr>)"

definition Listener_IsClosed :: "Listener \<Rightarrow> bool" where
  "Listener_IsClosed l = ln_closed l"

definition Listener_Addr :: "Listener \<Rightarrow> string" where
  "Listener_Addr l = ln_addr l"

definition fmt_int :: "int \<Rightarrow> string" where
  "fmt_int i = (if i < 0 then ''-'' @ fmt_d (nat (- i)) else fmt_d (nat i))"

definition portAddress :: "string \<Rightarrow> int \<Rightarrow> string" where
  "portAddress ip port = ip @ '':'' @ fmt_int port"

text \<open>Formatting a \<^verbatim>\<open>nil\<close> error with \<^verbatim>\<open>%w\<close>.\<close>

definition fmt_error :: "string option \<Rightarrow> string" where
  "fmt_error err = (case err of Some text \<Rightarrow> text | None \<Rightarrow> ''%!w(<nil>)'')"

text \<open>\<^verbatim>\<open>for port := portMin; port < portMax; port++\<close>, with the error of the last attempt.\<close>

function firstPort ::
    "(string \<Rightarrow> (string, 'l) res) \<Rightarrow> string \<Rightarrow> int \<Rightarrow> int \<Rightarrow> string option \<Rightarrow> (string option, 'l) res" where
  "firstPort listen ip port portMax lastErr =
     (if port < portMax then
        (case listen (portAddress ip port) of
           Ok l \<Rightarrow> Ok l
         | Fail err \<Rightarrow> firstPort listen ip (port + 1) portMax (Some err)
         | Panic \<Rightarrow> Panic)
      else Fail lastErr)"
  by pat_completeness auto
termination
  by (relation "measure (\<lambda>(listen, ip, port, portMax, lastErr). nat (portMax - port))") auto

definition noPort :: "string \<Rightarrow> int \<Rightarrow> int \<Rightarrow> string option \<Rightarrow> string" where
  "noPort net portMin portMax lastErr =
     ''no available '' @ net @ '' port in range '' @ fmt_int portMin @ ''-'' @ fmt_int portMax
     @ '': '' @ fmt_error lastErr"

definition ListenPortRange :: "network \<Rightarrow> string \<Rightarrow> int \<Rightarrow> int \<Rightarrow> (string, Listener) res" where
  "ListenPortRange bind ip portMin portMax =
     (case firstPort (ask_network bind) ip portMin portMax None of
        Ok addr \<Rightarrow> Ok \<lparr>ln_addr = addr, ln_closed = False, ln_cancels = True\<rparr>
      | Fail lastErr \<Rightarrow> Fail (noPort ''TCP'' portMin portMax lastErr)
      | Panic \<Rightarrow> Panic)"

section \<open>UDP listeners\<close>

text \<open>The address of the socket comes beside the listener.\<close>

definition ListenUDP :: "network \<Rightarrow> network \<Rightarrow> string \<Rightarrow> (string, string \<times> UDPListener) res" where
  "ListenUDP resolve bind address =
     bind_res (wrap_error (''failed to resolve address '' @ address) (ask_network resolve address))
       (\<lambda>addr. bind_res (wrap_error (''failed to listen on '' @ address) (ask_network bind addr))
         (\<lambda>local. Ok (local, \<lparr>ul_sessions = [], ul_closed = False\<rparr>)))"

definition ListenUDPPortRange ::
    "network \<Rightarrow> network \<Rightarrow> string \<Rightarrow> int \<Rightarrow> int \<Rightarrow> (string, string \<times> UDPListener) res" where
  "ListenUDPPortRange resolve bind ip portMin portMax =
     (case firstPort (ListenUDP resolve bind) ip portMin portMax None of
        Ok l \<Rightarrow> Ok l
      | Fail lastErr \<Rightarrow> Fail (noPort ''UDP'' portMin portMax lastErr)
      | Panic \<Rightarrow> Panic)"

section \<open>The server's listeners\<close>

text \<open>The part of \<^verbatim>\<open>ServerConfig\<close> that says where to listen.\<close>

datatype TransportType = TransportTCP | TransportUDP

record ListenConfig =
  lc_Address :: string
  lc_PortMin :: int
  lc_PortMax :: int
  lc_Transport :: TransportType

definition usesRange :: "ListenConfig \<Rightarrow> bool" where
  "usesRange config \<longleftrightarrow>
     suffix '':0'' (lc_Address config) \<and> lc_PortMin config > 0 \<and> lc_PortMax config > 0"

definition TrimSuffix :: "string \<Rightarrow> string \<Rightarrow> string" where
  "TrimSuffix s suf = (if suffix suf s then take (length s - length suf) s else s)"

definition listenTCP :: "network \<Rightarrow> ListenConfig \<Rightarrow> (string, Listener) res" where
  "listenTCP bind config =
     wrap_error ''failed to create TCP listener''
       (if usesRange config
        then ListenPortRange bind (TrimSuffix (lc_Address config) '':0'') (lc_PortMin config)
               (lc_PortMax config)
        else Listen bind (lc_Address config))"

definition listenUDP :: "network \<Rightarrow> network \<Rightarrow> ListenConfig \<Rightarrow> (string, string \<times> UDPListener) res" where
  "listenUDP resolve bind config =
     wrap_error ''failed to create UDP listener''
       (if usesRange config
        then ListenUDPPortRange resolve bind (TrimSuffix (lc_Address config) '':0'')
               (lc_PortMin config) (lc_PortMax config)
        else ListenUDP resolve bind (lc_Address config))"

text \<open>
  \<^verbatim>\<open>Server.Listen\<close> stores the listener it opened. The TCP listener and the address of the UDP socket
  are beside the server's state, since no handler reads them.
\<close>

definition Server_Listen ::
    "network \<Rightarrow> network \<Rightarrow> network \<Rightarrow> ListenConfig \<Rightarrow> Server \<Rightarrow>
     (string, Listener option \<times> string option \<times> Server) res" where
  "Server_Listen resolve bindTCP bindUDP config s =
     (case lc_Transport config of
        TransportUDP \<Rightarrow>
          bind_res (listenUDP resolve bindUDP config)
            (\<lambda>(local, l). Ok (None, Some local, s\<lparr>sv_udpListener := Some l\<rparr>))
      | TransportTCP \<Rightarrow>
          bind_res (listenTCP bindTCP config) (\<lambda>l. Ok (Some l, None, s)))"

definition Server_Addr :: "Listener option \<Rightarrow> string option \<Rightarrow> string option" where
  "Server_Addr listener udpAddr =
     (case listener of Some l \<Rightarrow> Some (Listener_Addr l) | None \<Rightarrow> udpAddr)"

section \<open>The loops\<close>

text \<open>
  What \<^verbatim>\<open>Accept\<close> returns, one result per iteration, and the point at which \<^verbatim>\<open>Close\<close> is called. An
  iteration begins with the check of the context, which is done when the listener has been closed
  and its \<^verbatim>\<open>cancel\<close> was set.
\<close>

datatype accept_event = Accepted string | AcceptTimeout | AcceptFailed string | ListenerCloses

datatype accept_end = Accepting | AcceptDone | AcceptError "string option"

fun acceptLoop ::
    "(Env \<times> accept_event) list \<Rightarrow> Listener \<Rightarrow> TCPServer \<Rightarrow> Listener \<times> TCPServer \<times> accept_end" where
  "acceptLoop [] l ts = (l, ts, Accepting)"
| "acceptLoop ((e, ListenerCloses) # evs) l ts = acceptLoop evs (Listener_Close l) ts"
| "acceptLoop ((e, ev) # evs) l ts =
     (if ln_closed l \<and> ln_cancels l then (l, ts, AcceptDone)
      else case ev of
          Accepted remoteAddr \<Rightarrow> acceptLoop evs l (tcp_act e (Accept remoteAddr) ts)
        | AcceptTimeout \<Rightarrow> acceptLoop evs l ts
        | AcceptFailed err \<Rightarrow>
            (l, ts, AcceptError (if Listener_IsClosed l then None
                                 else Some (''failed to accept connection: '' @ err)))
        | ListenerCloses \<Rightarrow> (l, ts, Accepting))"

text \<open>The UDP read loop, in the same way; a datagram that does not decode is dropped.\<close>

datatype udp_event =
  DatagramRead string "byte list" | ReadTimeout | UDPReadFailed string | DeadlineFailed string | SocketCloses

datatype udp_end = Reading | ReadDone | ReadError "string option"

text \<open>
  A read that fails because of \<^verbatim>\<open>Close\<close> ends the loop without an error, as the check of the next
  iteration does: closing is an event between two iterations.
\<close>

definition listener_closed :: "Server \<Rightarrow> bool" where
  "listener_closed s \<longleftrightarrow> (case sv_udpListener s of Some l \<Rightarrow> ul_closed l | None \<Rightarrow> False)"

fun udpReadLoop :: "(Env \<times> udp_event) list \<Rightarrow> Server \<Rightarrow> Server \<times> udp_end" where
  "udpReadLoop [] s = (s, Reading)"
| "udpReadLoop ((e, SocketCloses) # evs) s =
     udpReadLoop evs (case sv_udpListener s of Some l \<Rightarrow> UDPListener_Close l s | None \<Rightarrow> s)"
| "udpReadLoop ((e, ev) # evs) s =
     (if listener_closed s then (s, ReadDone)
      else case ev of
          DatagramRead remoteAddr data \<Rightarrow> udpReadLoop evs (receiveDatagram e remoteAddr data s)
        | ReadTimeout \<Rightarrow> udpReadLoop evs s
        | UDPReadFailed err \<Rightarrow> (s, ReadError (Some (''failed to read UDP: '' @ err)))
        | DeadlineFailed err \<Rightarrow> (s, ReadError (Some (''failed to set read deadline: '' @ err)))
        | SocketCloses \<Rightarrow> (s, Reading))"

section \<open>Ports\<close>

declare firstPort.simps [simp del]

lemma firstPort_spec:
  "case firstPort listen ip port portMax lastErr of
     Ok l \<Rightarrow> \<exists>q. port \<le> q \<and> q < portMax \<and> listen (portAddress ip q) = Ok l \<and>
              (\<forall>q'. port \<le> q' \<longrightarrow> q' < q \<longrightarrow> (\<exists>err. listen (portAddress ip q') = Fail err))
   | Fail err \<Rightarrow> (\<forall>q. port \<le> q \<longrightarrow> q < portMax \<longrightarrow> (\<exists>err. listen (portAddress ip q) = Fail err)) \<and>
              (portMax \<le> port \<longrightarrow> err = lastErr)
   | Panic \<Rightarrow> \<exists>q. listen (portAddress ip q) = Panic"
proof (induction listen ip port portMax lastErr rule: firstPort.induct)
  case (1 listen ip port portMax lastErr)
  have split: "port \<le> q \<longleftrightarrow> q = port \<or> port + 1 \<le> q" for q by auto
  show ?case
  proof (cases "port < portMax")
    case True
    show ?thesis
    proof (cases "listen (portAddress ip port)")
      case (Ok l)
      with True show ?thesis
        by (simp add: firstPort.simps [of listen ip port]) (rule exI [of _ port], simp)
    next
      case (Fail err)
      with 1 [OF True this] True show ?thesis
        by (subst firstPort.simps) (auto simp: split split: res.splits)
    next
      case Panic
      with True show ?thesis by (simp add: firstPort.simps [of listen ip port]) blast
    qed
  qed (simp add: firstPort.simps [of listen ip port])
qed

lemma ask_network_not_Panic [simp]: "ask_network net address \<noteq> Panic"
  by (simp add: ask_network_def split: sum.splits)

definition bindable :: "network \<Rightarrow> string \<Rightarrow> int \<Rightarrow> string option" where
  "bindable net ip port = (case net (portAddress ip port) of Inr addr \<Rightarrow> Some addr | Inl _ \<Rightarrow> None)"

lemma ask_network_bindable:
  "ask_network net (portAddress ip port) = Ok addr \<longleftrightarrow> bindable net ip port = Some addr"
  "(\<exists>err. ask_network net (portAddress ip port) = Fail err) \<longleftrightarrow> bindable net ip port = None"
  by (simp_all add: ask_network_def bindable_def split: sum.splits)

text \<open>Resolving an address and binding what it resolves to, as \<^verbatim>\<open>ListenUDP\<close> does.\<close>

definition resolved_bind :: "network \<Rightarrow> network \<Rightarrow> network" where
  "resolved_bind resolve bind address =
     (case resolve address of Inl err \<Rightarrow> Inl err | Inr addr \<Rightarrow> bind addr)"

lemma ListenUDP_bindable:
  "ListenUDP resolve bind (portAddress ip port) = Ok (local, l) \<longleftrightarrow>
     bindable (resolved_bind resolve bind) ip port = Some local \<and> l = \<lparr>ul_sessions = [], ul_closed = False\<rparr>"
  "(\<exists>err. ListenUDP resolve bind (portAddress ip port) = Fail err) \<longleftrightarrow>
     bindable (resolved_bind resolve bind) ip port = None"
  "ListenUDP resolve bind address \<noteq> Panic"
  by (auto simp: ListenUDP_def ask_network_def bindable_def resolved_bind_def split: sum.splits)

section \<open>The loops\<close>

fun accepted :: "(Env \<times> accept_event) list \<Rightarrow> (Env \<times> tcp_action) list" where
  "accepted [] = []"
| "accepted ((e, Accepted remoteAddr) # evs) = (e, Accept remoteAddr) # accepted evs"
| "accepted (_ # evs) = accepted evs"

definition goes_on :: "accept_event \<Rightarrow> bool" where
  "goes_on ev \<longleftrightarrow> (case ev of Accepted _ \<Rightarrow> True | AcceptTimeout \<Rightarrow> True | _ \<Rightarrow> False)"

lemma acceptLoop_open:
  assumes "\<forall>(e, ev) \<in> set evs. goes_on ev" "\<not> ln_closed l"
  shows "acceptLoop (evs @ rest) l ts = acceptLoop rest l (tcp_run (accepted evs) ts)"
  using assms
proof (induction evs arbitrary: ts)
  case (Cons x evs)
  obtain e ev where x: "x = (e, ev)" by (cases x)
  with Cons show ?case by (cases ev) (auto simp: goes_on_def)
qed simp

lemma acceptLoop_closed:
  assumes "ln_closed l" "ln_cancels l"
  shows "\<exists>stop. acceptLoop evs l ts = (l, ts, stop)"
  using assms
proof (induction evs)
  case (Cons x evs)
  obtain e ev where x: "x = (e, ev)" by (cases x)
  with Cons show ?case by (cases ev) (auto simp: Listener_Close_def)
qed simp

fun datagrams :: "(Env \<times> udp_event) list \<Rightarrow> (Env \<times> string \<times> byte list) list" where
  "datagrams [] = []"
| "datagrams ((e, DatagramRead remoteAddr data) # evs) = (e, remoteAddr, data) # datagrams evs"
| "datagrams (_ # evs) = datagrams evs"

definition reads_on :: "udp_event \<Rightarrow> bool" where
  "reads_on ev \<longleftrightarrow> (case ev of DatagramRead _ _ \<Rightarrow> True | ReadTimeout \<Rightarrow> True | _ \<Rightarrow> False)"

lemma listener_closed_map:
  "listener_closed s \<longleftrightarrow> map_option ul_closed (sv_udpListener s) = Some True"
  by (simp add: listener_closed_def split: option.splits)

lemma listener_frame_client: "frame_client s s' \<Longrightarrow> sv_udpListener s' = sv_udpListener s"
  by (auto simp: frame_client_def frame_def)

lemma listener_receiveDatagram:
  assumes "server_inv s"
  shows "map_option ul_closed (sv_udpListener (receiveDatagram e remote data s)) =
    map_option ul_closed (sv_udpListener s)"
proof (cases "lookup (sv_udpClients s) remote")
  case None
  then show ?thesis
    using keeps_roles_receiveDatagram [OF assms None]
    by (simp add: keeps_roles_def)
next
  case (Some c)
  show ?thesis
  proof (cases "sv_udpListener s")
    case l: (Some l)
    obtain s1 t where g: "getOrCreateTransport l remote s = (s1, t)"
      by (cases "getOrCreateTransport l remote s")
    note ok = getOrCreateTransport_ok [OF assms l g]
    have "map_option ul_closed (sv_udpListener s1) = map_option ul_closed (sv_udpListener s)"
      using keeps_roles_getOrCreateTransport [OF l keeps_roles_refl, of remote] g
      by (simp add: keeps_roles_def)
    moreover have "sv_udpListener (uc_handleMessage e c m (callMessageIn r m s1)) = sv_udpListener s1" for r m
      using listener_frame_client [OF frame_client_uc_handleMessage] frame_fields(3) [OF frame_callMessageIn]
      by simp
    ultimately show ?thesis
      using l g Some ok
      by (simp add: receiveDatagram_def handleUDPMessage_def panic_def split: res.splits)
  qed (simp add: receiveDatagram_def)
qed

lemma listener_closed_receiveDatagram:
  "server_inv s \<Longrightarrow> listener_closed (receiveDatagram e remote data s) = listener_closed s"
  by (simp add: listener_closed_map listener_receiveDatagram)

lemma udpReadLoop_open:
  assumes "server_inv s" "udp_only s" "\<not> listener_closed s"
    and "\<forall>(e, ev) \<in> set evs. env_ok e \<and> reads_on ev"
  shows "udpReadLoop (evs @ rest) s = udpReadLoop rest (deliver (datagrams evs) s)"
    "\<not> listener_closed (deliver (datagrams evs) s)"
proof -
  have "udpReadLoop (evs @ rest) s = udpReadLoop rest (deliver (datagrams evs) s) \<and>
    \<not> listener_closed (deliver (datagrams evs) s)"
    using assms
  proof (induction evs arbitrary: s)
    case (Cons x evs)
    obtain e ev where x: "x = (e, ev)" by (cases x)
    show ?case
    proof (cases ev)
      case (DatagramRead remote data)
      let ?s = "receiveDatagram e remote data s"
      have "env_ok e" using Cons.prems(4) by (simp add: x)
      from receiveDatagram_refines [OF this Cons.prems(1,2), of remote data]
      have "server_inv ?s" "udp_only ?s" by simp_all
      with Cons.IH [of ?s] Cons.prems listener_closed_receiveDatagram [OF Cons.prems(1)]
      show ?thesis by (simp add: x DatagramRead deliver_def)
    qed (use Cons x in \<open>simp_all add: reads_on_def\<close>)
  qed (simp add: deliver_def)
  then show "udpReadLoop (evs @ rest) s = udpReadLoop rest (deliver (datagrams evs) s)"
    "\<not> listener_closed (deliver (datagrams evs) s)" by simp_all
qed

lemma udpReadLoop_closed:
  assumes "listener_closed s"
  shows "fst (udpReadLoop evs s) = s"
proof (induction evs)
  case (Cons x evs)
  obtain e ev where x: "x = (e, ev)" by (cases x)
  have "(case sv_udpListener s of Some l \<Rightarrow> UDPListener_Close l s | None \<Rightarrow> s) = s"
    using assms by (simp add: listener_closed_def UDPListener_Close_def split: option.splits)
  with Cons assms show ?case by (cases ev) (simp_all add: x)
qed simp

lemma listener_closed_Close:
  "sv_udpListener s = Some l \<Longrightarrow> listener_closed (UDPListener_Close l s)"
  by (simp add: UDPListener_Close_def listener_closed_def)

section \<open>Closing the server\<close>

lemma closeSession_closes:
  "tr_closed (sv_transport_at (closeSession sid s) t) \<longleftrightarrow>
     tr_closed (sv_transport_at s t) \<or> se_Transport (sv_session_at s sid) = Some t"
  "sv_session_at (closeSession sid s) = sv_session_at s"
  "sv_udpListener (closeSession sid s) = sv_udpListener s"
  by (auto simp: closeSession_def update_transport_def tr_Close_def split: option.splits)

lemma closeSessions_close:
  "(tr_closed (sv_transport_at (fold closeSession sids s) t) \<longleftrightarrow>
     tr_closed (sv_transport_at s t) \<or> (\<exists>sid \<in> set sids. se_Transport (sv_session_at s sid) = Some t)) \<and>
   sv_udpListener (fold closeSession sids s) = sv_udpListener s"
  by (induction sids arbitrary: s) (auto simp: closeSession_closes)

section \<open>Properties\<close>

text \<open>C24. Listening with a range of ports: the server listens, over TCP or UDP as configured, on the
  first port of the range that can be bound, not trying the end of the range; its address is the
  one bound, and its state differs in the UDP listener only, which is new and open. It reports an error
  exactly when no port below the end can be bound.\<close>
theorem server_listens_on_first_port:
  fixes resolve bindTCP bindUDP :: network
  assumes "usesRange config"
  defines "ip \<equiv> TrimSuffix (lc_Address config) '':0''"
    and "udp \<equiv> lc_Transport config = TransportUDP"
  defines "net \<equiv> if udp then resolved_bind resolve bindUDP else bindTCP"
  shows "case Server_Listen resolve bindTCP bindUDP config s of
      Ok (l, local, s') \<Rightarrow>
        \<exists>port. lc_PortMin config \<le> port \<and> port < lc_PortMax config \<and>
          bindable net ip port \<noteq> None \<and> Server_Addr l local = bindable net ip port \<and>
          (\<forall>q. lc_PortMin config \<le> q \<and> q < port \<longrightarrow> bindable net ip q = None) \<and>
          s' = (if udp then s\<lparr>sv_udpListener := Some \<lparr>ul_sessions = [], ul_closed = False\<rparr>\<rparr> else s)
    | Fail err \<Rightarrow> \<forall>q. lc_PortMin config \<le> q \<and> q < lc_PortMax config \<longrightarrow> bindable net ip q = None
    | Panic \<Rightarrow> False"
proof (cases "lc_Transport config")
  case TransportTCP
  have eq: "listenTCP bindTCP config = wrap_error ''failed to create TCP listener''
      (ListenPortRange bindTCP ip (lc_PortMin config) (lc_PortMax config))"
    using assms(1) by (simp add: listenTCP_def ip_def)
  show ?thesis
    using firstPort_spec [where listen = "ask_network bindTCP" and ip = ip and port = "lc_PortMin config"
        and portMax = "lc_PortMax config" and lastErr = None]
    by (auto simp: Server_Listen_def TransportTCP eq ListenPortRange_def net_def udp_def Server_Addr_def
        ask_network_bindable Listener_Addr_def split: res.splits)
next
  case TransportUDP
  have eq: "listenUDP resolve bindUDP config = wrap_error ''failed to create UDP listener''
      (ListenUDPPortRange resolve bindUDP ip (lc_PortMin config) (lc_PortMax config))"
    using assms(1) by (simp add: listenUDP_def ip_def)
  show ?thesis
    using firstPort_spec [where listen = "ListenUDP resolve bindUDP" and ip = ip and port = "lc_PortMin config"
        and portMax = "lc_PortMax config" and lastErr = None]
    by (auto simp: Server_Listen_def TransportUDP eq ListenUDPPortRange_def net_def udp_def Server_Addr_def
        ListenUDP_bindable split: res.splits)
qed

definition portsTaken :: network where
  "portsTaken address = (if address = ''10.0.0.1:5072'' then Inr address else Inl ''in use'')"

definition portRange :: ListenConfig where
  "portRange = \<lparr>lc_Address = ''10.0.0.1:0'', lc_PortMin = 5070, lc_PortMax = 5074,
     lc_Transport = TransportTCP\<rparr>"

lemma portRange_listens:
  "Server_Listen Inr portsTaken Inr portRange s =
     Ok (Some \<lparr>ln_addr = ''10.0.0.1:5072'', ln_closed = False, ln_cancels = True\<rparr>, None, s)"
proof -
  have "usesRange portRange" "TrimSuffix (lc_Address portRange) '':0'' = ''10.0.0.1''" by code_simp+
  then show ?thesis
    by (simp add: Server_Listen_def listenTCP_def ListenPortRange_def portRange_def firstPort.simps
        portAddress_def fmt_int_def fmt_d.simps digit_chars ask_network_def portsTaken_def)
qed

theorem server_listens_on_first_port_witness:
  "\<exists>port. 5070 \<le> port \<and> port < 5074 \<and> bindable portsTaken ''10.0.0.1'' port = Some ''10.0.0.1:5072'' \<and>
     (\<forall>q. 5070 \<le> q \<and> q < port \<longrightarrow> bindable portsTaken ''10.0.0.1'' q = None)"
proof -
  have u: "usesRange portRange" and i: "TrimSuffix (lc_Address portRange) '':0'' = ''10.0.0.1''"
    by code_simp+
  from server_listens_on_first_port [OF u, where resolve = Inr and bindTCP = portsTaken and bindUDP = Inr
      and s = "UDPServer (DefaultServerConfig 1) no_callbacks"]
  obtain port where "5070 \<le> port" "port < 5074" "Some ''10.0.0.1:5072'' = bindable portsTaken ''10.0.0.1'' port"
      "\<forall>q. 5070 \<le> q \<and> q < port \<longrightarrow> bindable portsTaken ''10.0.0.1'' q = None"
    unfolding i portRange_listens by (auto simp: portRange_def Listener_Addr_def Server_Addr_def)
  then show ?thesis by (intro exI [of _ port] conjI) simp_all
qed

text \<open>The end of the range is never tried: a range of one port fails whatever ports are free, with
  no cause in the error.\<close>
lemma single_port_range_fails:
  assumes "usesRange config" "lc_PortMin config = lc_PortMax config"
  shows "listenTCP bind config = Fail (''failed to create TCP listener: '' @
    noPort ''TCP'' (lc_PortMin config) (lc_PortMax config) None)"
  using assms by (simp add: listenTCP_def ListenPortRange_def firstPort.simps)

lemma single_port_range_fails_witness:
  "listenTCP Inr (portRange\<lparr>lc_PortMax := 5070\<rparr>) =
     Fail ''failed to create TCP listener: no available TCP port in range 5070-5070: %!w(<nil>)''"
proof -
  have "usesRange (portRange\<lparr>lc_PortMax := 5070\<rparr>)"
    by code_simp
  moreover have "noPort ''TCP'' 5070 5070 None = ''no available TCP port in range 5070-5070: %!w(<nil>)''"
    by (simp add: noPort_def fmt_int_def fmt_d.simps digit_chars fmt_error_def)
  ultimately show ?thesis
    using single_port_range_fails [of "portRange\<lparr>lc_PortMax := 5070\<rparr>" Inr]
    by (simp add: portRange_def)
qed

text \<open>The accept loop hands every connection it accepts to the server, in order, until the first
  failure or until the listener is closed; then it ends for good, and whatever \<^verbatim>\<open>Accept\<close> would
  return later is not handled, even if the failure was transient and the listener still open.\<close>
lemma accept_loop_serves_until_stopped:
  assumes "\<forall>(e, ev) \<in> set evs. goes_on ev" "\<not> goes_on stop" "\<not> ln_closed l" "ln_cancels l"
  shows "\<exists>l' end'. acceptLoop (evs @ (e, stop) # later) l ts = (l', tcp_run (accepted evs) ts, end') \<and>
    (case stop of AcceptFailed err \<Rightarrow> \<not> Listener_IsClosed l' | _ \<Rightarrow> Listener_IsClosed l')"
proof (cases stop)
  case ListenerCloses
  have "ln_closed (Listener_Close l)" "ln_cancels (Listener_Close l)"
    using assms(4) by (simp_all add: Listener_Close_def)
  moreover from acceptLoop_closed [OF this, of later "tcp_run (accepted evs) ts"] obtain end' where
    "acceptLoop later (Listener_Close l) (tcp_run (accepted evs) ts) =
       (Listener_Close l, tcp_run (accepted evs) ts, end')" by blast
  ultimately show ?thesis
    using ListenerCloses acceptLoop_open [OF assms(1,3)] by (simp add: Listener_IsClosed_def)
qed (use assms acceptLoop_open [OF assms(1,3)] in
      \<open>auto simp: goes_on_def Listener_IsClosed_def\<close>)

lemma accept_loop_serves_until_stopped_witness:
  "\<exists>l' end'. acceptLoop ([(plain_env, Accepted ''10.0.0.1:5070''), (plain_env, AcceptTimeout)]
       @ (plain_env, AcceptFailed ''too many open files'') # [(plain_env, Accepted ''10.0.0.2:5070'')])
     \<lparr>ln_addr = '':5070'', ln_closed = False, ln_cancels = True\<rparr>
     (TCPServer_start (DefaultServerConfig 1) no_callbacks) =
     (l', tcp_run [(plain_env, Accept ''10.0.0.1:5070'')]
        (TCPServer_start (DefaultServerConfig 1) no_callbacks), end') \<and> \<not> Listener_IsClosed l'"
  using accept_loop_serves_until_stopped
    [of "[(plain_env, Accepted ''10.0.0.1:5070''), (plain_env, AcceptTimeout)]"
      "AcceptFailed ''too many open files''"
      "\<lparr>ln_addr = '':5070'', ln_closed = False, ln_cancels = True\<rparr>" plain_env
      "[(plain_env, Accepted ''10.0.0.2:5070'')]" "TCPServer_start (DefaultServerConfig 1) no_callbacks"]
  by (simp add: goes_on_def del: tcp_run_simps)

text \<open>The UDP read loop hands every datagram it reads to the server, in order, whatever the timeouts
  between them, until the first failure of a read or until the listener is closed; then it ends,
  with its socket closed in the second case, and later datagrams are not handled.\<close>
lemma udp_loop_delivers_until_stopped:
  assumes "reachable config callbacks s" "\<not> listener_closed s" "sv_udpListener s \<noteq> None"
    and "\<forall>(e, ev) \<in> set evs. env_ok e \<and> reads_on ev" "\<not> reads_on stop"
  shows "\<exists>s'. fst (udpReadLoop (evs @ (e, stop) # later) s) = s' \<and>
    (case stop of UDPReadFailed err \<Rightarrow> s' = deliver (datagrams evs) s
     | DeadlineFailed err \<Rightarrow> s' = deliver (datagrams evs) s
     | _ \<Rightarrow> listener_closed s' \<and> floors_view s' = floors_view (deliver (datagrams evs) s))"
proof -
  have inv: "server_inv s" "udp_only s" using reachable_ok [OF assms(1)] by simp_all
  let ?s = "deliver (datagrams evs) s"
  note open_loop = udpReadLoop_open [OF inv assms(2,4)]
  show ?thesis
  proof (cases stop)
    case (UDPReadFailed err)
    with open_loop show ?thesis by simp
  next
    case (DeadlineFailed err)
    with open_loop show ?thesis by simp
  next
    case SocketCloses
    have "sv_udpListener ?s \<noteq> None"
      using inv assms(3,4)
    proof (induction evs arbitrary: s)
      case (Cons x evs)
      obtain e ev where x: "x = (e, ev)" by (cases x)
      show ?case
      proof (cases ev)
        case (DatagramRead remote data)
        let ?t = "receiveDatagram e remote data s"
        have "env_ok e" using Cons.prems(4) by (simp add: x)
        from receiveDatagram_refines [OF this Cons.prems(1,2), of remote data]
        have "server_inv ?t" "udp_only ?t" by simp_all
        moreover have "sv_udpListener ?t \<noteq> None"
          using listener_receiveDatagram [OF Cons.prems(1)] Cons.prems(3)
          by (metis option.map_disc_iff)
        ultimately show ?thesis using Cons by (simp add: x DatagramRead deliver_def)
      qed (use Cons x in \<open>simp_all add: reads_on_def\<close>)
    qed (simp add: deliver_def)
    then obtain l where l: "sv_udpListener ?s = Some l" by blast
    have "floors_view (UDPListener_Close l ?s) = floors_view ?s"
      by (simp add: UDPListener_Close_def floors_view_def fun_eq_iff)
    with SocketCloses open_loop l udpReadLoop_closed [OF listener_closed_Close [OF l]]
      listener_closed_Close [OF l] show ?thesis by simp
  qed (use assms(5) in \<open>simp_all add: reads_on_def\<close>)
qed

lemma udp_loop_delivers_until_stopped_witness:
  "\<exists>s'. fst (udpReadLoop ([(plain_env, DatagramRead ''10.0.0.1:5070'' request_bytes), (plain_env, ReadTimeout)]
       @ (plain_env, UDPReadFailed ''reset'') # [])
     (UDPServer (DefaultServerConfig 1) no_callbacks)) = s' \<and>
     s' = deliver [(plain_env, ''10.0.0.1:5070'', request_bytes)]
       (UDPServer (DefaultServerConfig 1) no_callbacks)"
  using udp_loop_delivers_until_stopped
    [OF reachable.start, of "DefaultServerConfig 1" no_callbacks
      "[(plain_env, DatagramRead ''10.0.0.1:5070'' request_bytes), (plain_env, ReadTimeout)]"
      "UDPReadFailed ''reset''" plain_env "[]"]
  by (simp add: reads_on_def plain_env_ok listener_closed_def UDPServer_def del: udpReadLoop.simps)

text \<open>\<^verbatim>\<open>Close\<close> of a TCP server closes exactly the transports of the registered sessions: a connection
  whose client has not said Hello, or whose registration another connection from the same address
  has taken over, stays open and goes on being served.\<close>
lemma close_misses_unregistered_connections:
  assumes "env_ok e" "sv_udpListener s = None"
  shows "tr_closed (sv_transport_at (Server_Close e s) t) \<longleftrightarrow>
    tr_closed (sv_transport_at s t) \<or>
    (\<exists>(r, sid) \<in> set (sv_sessions s). se_Transport (sv_session_at s sid) = Some t)"
proof -
  have "set (range_sessions e s) = set (sv_sessions s)"
    using assms(1) unfolding range_sessions_def env_ok_def by (metis mset_eq_setD)
  then show ?thesis
    using closeSessions_close [of "map snd (range_sessions e s)" "tick s" t] assms(2)
    by (auto simp: Server_Close_def Let_def tick_def split_beta)
qed

lemma close_misses_unregistered_connections_witness:
  "\<not> tr_closed (sv_transport_at (Server_Close plain_env (ts_server two_connections)) 0) \<and>
   se_Transport (sv_session_at (ts_server two_connections) 1) = Some 0"
proof -
  have "sv_udpListener (ts_server two_connections) = None" "sv_sessions (ts_server two_connections) = []"
    "\<not> tr_closed (sv_transport_at (ts_server two_connections) 0)"
    "se_Transport (sv_session_at (ts_server two_connections) 1) = Some 0"
    by code_simp+
  with close_misses_unregistered_connections [OF plain_env_ok, of "ts_server two_connections" 0]
  show ?thesis by simp
qed

end
