(* ===== verification/Keepalives.thy ===== *)
theory Keepalives
  imports TCP_Runs
begin

text \<open>
  The keepalive goroutine of a TCP transport: what \<^verbatim>\<open>Transport.Start\<close> and \<^verbatim>\<open>StartKeepalive\<close> start,
  with the steps of the server between the events of its \<^verbatim>\<open>select\<close>. A loop writes nothing once
  its transport is closed and then ends; every Hello starts one more loop.
\<close>

section \<open>The loop\<close>

definition tr_Start :: "Transport \<Rightarrow> Transport" where
  "tr_Start t = (if tr_keepalive t then t\<lparr>tr_loops := Suc (tr_loops t)\<rparr> else t)"

lemma tr_Start_new [simp]: "tr_Start (NewTransport remote role) = NewTransport remote role"
  by (simp add: tr_Start_def NewTransport_def)

text \<open>
  The cases of the \<^verbatim>\<open>select\<close>, and what the server does between two of them. The context of a
  transport is done exactly when the transport has been closed; a case that is not ready is not
  chosen. The sender is the one that \<^verbatim>\<open>handleHello\<close> installs. The result says whether the loop is still running.
\<close>

datatype ka_event = ContextDone | TickerFires | Meanwhile tcp_action

fun keepaliveLoop ::
    "nat \<Rightarrow> u32 \<Rightarrow> u16 \<Rightarrow> (Env \<times> ka_event) list \<Rightarrow> TCPServer \<Rightarrow> TCPServer \<times> bool" where
  "keepaliveLoop t conf u [] ts = (ts, True)"
| "keepaliveLoop t conf u ((e, Meanwhile a) # evs) ts = keepaliveLoop t conf u evs (tcp_act e a ts)"
| "keepaliveLoop t conf u ((e, ContextDone) # evs) ts =
     (if tr_closed (sv_transport_at (ts_server ts) t) then (ts, False)
      else keepaliveLoop t conf u evs ts)"
| "keepaliveLoop t conf u ((e, TickerFires) # evs) ts =
     (if tr_closed (sv_transport_at (ts_server ts) t) then (ts, False)
      else keepaliveLoop t conf u evs (ts\<lparr>ts_server := sendKeepalive e t conf u (ts_server ts)\<rparr>))"

section \<open>Closed transports\<close>

fun other_steps :: "(Env \<times> ka_event) list \<Rightarrow> (Env \<times> tcp_action) list" where
  "other_steps ((e, Meanwhile a) # evs) = (e, a) # other_steps evs"
| "other_steps _ = []"

definition fires :: "Env \<times> ka_event \<Rightarrow> bool" where
  "fires x \<longleftrightarrow> (case snd x of Meanwhile _ \<Rightarrow> False | _ \<Rightarrow> True)"

definition closed_for_good :: "nat \<Rightarrow> TCPServer \<Rightarrow> bool" where
  "closed_for_good t ts \<longleftrightarrow>
     t < sv_fresh (ts_server ts) \<and> tr_closed (sv_transport_at (ts_server ts) t)"

lemma closed_for_good_act:
  assumes "tcp_inv ts" "env_ok e" "closed_for_good t ts"
  shows "closed_for_good t (tcp_act e a ts)"
proof (cases "\<exists>k. a = Application (ApiReleaseFloor k)")
  case True
  with assms(3) show ?thesis by (auto simp: closed_for_good_def ReleaseFloor_def)
next
  case False
  with grows_tcp_act [OF assms(1,2), of a] assms(3) show ?thesis
    by (auto simp: closed_for_good_def grows_def)
qed

lemma keepaliveLoop_closed:
  assumes "tcp_inv ts" "closed_for_good t ts" "\<forall>x \<in> set evs. env_ok (fst x)"
  shows "keepaliveLoop t conf u evs ts = (tcp_run (other_steps evs) ts, \<not> list_ex fires evs)"
  using assms
proof (induction evs arbitrary: ts)
  case (Cons x evs)
  obtain e ev where x: "x = (e, ev)" by (cases x)
  show ?case
  proof (cases ev)
    case (Meanwhile a)
    have "env_ok e" using Cons.prems(3) by (simp add: x)
    from Cons.IH [OF tcp_inv_act [OF Cons.prems(1) this] closed_for_good_act [OF Cons.prems(1) this Cons.prems(2)]]
      Cons.prems(3) show ?thesis by (simp add: x Meanwhile fires_def del: tcp_act.simps)
  qed (use Cons.prems(2) in \<open>simp_all add: x fires_def closed_for_good_def\<close>)
qed simp

section \<open>Hello\<close>

lemma handleMessage_Hello:
  assumes "Primitive m = PrimitiveHello" "tcp_session s sid" "se_Transport (sv_session_at s sid) = Some t"
  shows "sv_transport_at (fst (handleMessage e sid m s)) t =
    (sv_transport_at s t)\<lparr>tr_keepalive := True, tr_loops := Suc (tr_loops (sv_transport_at s t))\<rparr>"
    "snd (handleMessage e sid m s) = None"
proof -
  define s2 where "s2 = update_StateMachine sid (\<lambda>st. st\<lparr>ssm_ClientVersion := Version m\<rparr>)
      (update_StateMachine sid (UpdateActivity (env_now e)) s)"
  have f2: "frame s s2" unfolding s2_def by (intro frame_intros frame_refl)
  define s1 where "s1 = callMessageIn (tr_RemoteAddr (sv_transport_at s2 t)) m s2"
  have f: "frame s s1" unfolding s1_def by (rule frame_trans [OF f2]) simp
  have t: "se_Transport (sv_session_at s1 sid) = Some t" "se_Transport (sv_session_at s2 sid) = Some t"
    using frame_fields(13) [OF f] frame_fields(13) [OF f2] assms(3) by simp_all
  have h: "handleMessage e sid m s = (handleHello e sid m s1, None)"
    using t assms(1) by (simp add: handleMessage_def Let_def s2_def [symmetric] s1_def)
  from frame_fields(8) [OF frame_handleHello [OF t(1), of e m]] frame_fields(8) [OF f]
  show "sv_transport_at (fst (handleMessage e sid m s)) t =
    (sv_transport_at s t)\<lparr>tr_keepalive := True, tr_loops := Suc (tr_loops (sv_transport_at s t))\<rparr>"
    by (simp add: h update_transport_def register_def StartKeepalive_def EnableKeepalive_def)
  show "snd (handleMessage e sid m s) = None" by (simp add: h)
qed

definition keepalive_loops :: "nat \<Rightarrow> TCPServer \<Rightarrow> nat" where
  "keepalive_loops t ts = tr_loops (sv_transport_at (ts_server ts) t)"

definition serves_on :: "nat \<Rightarrow> nat \<Rightarrow> TCPServer \<Rightarrow> bool" where
  "serves_on sid t ts \<longleftrightarrow>
     sid \<in> set (ts_reading ts) \<and> se_Transport (sv_session_at (ts_server ts) sid) = Some t"

lemma Hello_adds_loop:
  assumes "tcp_inv ts" "env_ok e" "serves_on sid t ts" "Primitive m = PrimitiveHello"
  shows "serves_on sid t (tcp_act e (Arrive sid m) ts)"
    "keepalive_loops t (tcp_act e (Arrive sid m) ts) = Suc (keepalive_loops t ts)"
proof -
  have t: "tcp_session (ts_server ts) sid" using assms(1,3) by (simp add: tcp_inv_def serves_on_def)
  note H = handleMessage_Hello [OF assms(4) t, of t e]
  have "tcp_act e (Arrive sid m) ts = ts\<lparr>ts_server := fst (handleMessage e sid m (ts_server ts))\<rparr>"
    using H(2) assms(3) by (cases "handleMessage e sid m (ts_server ts)") (simp add: serves_on_def arrive_def)
  moreover from grows_tcp_act [OF assms(1,2), of "Arrive sid m"] t
  have "se_Transport (sv_session_at (ts_server (tcp_act e (Arrive sid m) ts)) sid)
      = se_Transport (sv_session_at (ts_server ts) sid)"
    unfolding grows_def tcp_session_def by blast
  ultimately show "serves_on sid t (tcp_act e (Arrive sid m) ts)"
    "keepalive_loops t (tcp_act e (Arrive sid m) ts) = Suc (keepalive_loops t ts)"
    using assms(3) H(1) by (simp_all add: serves_on_def keepalive_loops_def)
qed

section \<open>Properties\<close>

text \<open>Once its transport is closed a keepalive loop sends nothing more, whatever else the server
  does meanwhile, and ends with the next event of its select.\<close>
lemma keepalive_ends_with_transport:
  assumes "tcp_reachable config callbacks ts" "closed_for_good t ts" "\<forall>x \<in> set evs. env_ok (fst x)"
  shows "keepaliveLoop t conf u evs ts = (tcp_run (other_steps evs) ts, \<not> list_ex fires evs)"
  using keepaliveLoop_closed [OF tcp_reachable_inv [OF assms(1)] assms(2,3)] .

lemma keepalive_ends_with_transport_witness:
  "keepaliveLoop 0 1 4 [(plain_env, Meanwhile (Arrive 3 requestMessage)), (plain_env, TickerFires),
       (plain_env, TickerFires)] (tcp_run [(plain_env, Lost 1)] two_connections) =
     (tcp_run [(plain_env, Lost 1), (plain_env, Arrive 3 requestMessage)] two_connections, False)"
proof -
  have r: "tcp_reachable (DefaultServerConfig 1) no_callbacks (tcp_run [(plain_env, Lost 1)] two_connections)"
    by (rule tcp_reachable_run [OF two_connections_reachable, where P = "\<lambda>_. True"])
       (simp add: all_actions_def plain_env_ok)
  have "closed_for_good 0 (tcp_run [(plain_env, Lost 1)] two_connections)" by code_simp
  from keepalive_ends_with_transport [OF r this, of "[(plain_env, Meanwhile (Arrive 3 requestMessage)),
      (plain_env, TickerFires), (plain_env, TickerFires)]" 1 4]
  show ?thesis by (simp add: plain_env_ok fires_def del: tcp_act.simps)
qed

text \<open>Every Hello on a connection starts one more keepalive loop and stops none: after \<open>n\<close> Hellos
  the connection has \<open>n\<close> more of them, each of which sends its own keepalives.\<close>
lemma hello_starts_another_loop:
  assumes "tcp_reachable config callbacks ts" "serves_on sid t ts"
    and "\<forall>(e, m) \<in> set hellos. env_ok e \<and> Primitive m = PrimitiveHello"
  shows "keepalive_loops t (tcp_run (map (\<lambda>(e, m). (e, Arrive sid m)) hellos) ts) =
    keepalive_loops t ts + length hellos"
  using tcp_reachable_inv [OF assms(1)] assms(2,3)
proof (induction hellos arbitrary: ts)
  case (Cons x hellos)
  obtain e m where x: "x = (e, m)" by (cases x)
  from Cons.prems(3) have e: "env_ok e" "Primitive m = PrimitiveHello" by (simp_all add: x)
  note H = Hello_adds_loop [OF Cons.prems(1) e(1) Cons.prems(2) e(2)]
  from Cons.IH [OF tcp_inv_act [OF Cons.prems(1) e(1)] H(1)] Cons.prems(3) H(2)
  show ?case by (simp add: x del: tcp_act.simps)
qed simp

lemma hello_starts_another_loop_witness:
  "keepalive_loops 0 (tcp_run (map (\<lambda>(e, m). (e, Arrive 1 m))
     [(plain_env, NewMessage PrimitiveHello 1 1 4), (plain_env, NewMessage PrimitiveHello 1 2 4)])
     two_connections) = 2"
proof -
  have "serves_on 1 0 two_connections" "keepalive_loops 0 two_connections = 0" by code_simp+
  with hello_starts_another_loop [OF two_connections_reachable, of 1 0
      "[(plain_env, NewMessage PrimitiveHello 1 1 4), (plain_env, NewMessage PrimitiveHello 1 2 4)]"]
  show ?thesis by (simp add: plain_env_ok NewMessage_def del: tcp_run_simps)
qed

end
