(* ===== verification/User_ID_Pool.thy ===== *)
theory User_ID_Pool
  imports Prelude
begin

text \<open>
  The pool of user identifiers of \<^verbatim>\<open>virtual/manager.go\<close>. The loop of \<^verbatim>\<open>Allocate\<close> counts with
  a \<^verbatim>\<open>uint16\<close>, whose increment wraps, so it is modelled with \<open>partial_function\<close>: \<open>None\<close> is a
  loop that does not end. \<^verbatim>\<open>allocated\<close> is a map to bool of which only \<open>true\<close> entries are ever
  stored, kept here as a Go map.
\<close>

section \<open>State and operations\<close>

record UserIDPool =
  pool_start :: u16
  pool_end :: u16
  pool_allocated :: "(u16, bool) gomap"

datatype pool_error =
    NoUserIDs
  | OutsideRange u16 u16 u16
  | AlreadyAllocated u16

definition NewUserIDPool :: "u16 \<Rightarrow> u16 \<Rightarrow> UserIDPool" where
  "NewUserIDPool startID endID = \<lparr>pool_start = startID, pool_end = endID, pool_allocated = []\<rparr>"

text \<open>Reading a missing key of a map to bool gives \<open>false\<close>.\<close>

definition IsAllocated :: "u16 \<Rightarrow> UserIDPool \<Rightarrow> bool" where
  "IsAllocated uid p \<longleftrightarrow> lookup (pool_allocated p) uid = Some True"

text \<open>\<^verbatim>\<open>for uid := p.start; uid <= p.end; uid++\<close>\<close>

partial_function (option) allocateFrom ::
    "UserIDPool \<Rightarrow> u16 \<Rightarrow> (UserIDPool \<times> (pool_error + u16)) option" where
  "allocateFrom p uid =
     (if uid \<le> pool_end p then
        if \<not> IsAllocated uid p
        then Some (p\<lparr>pool_allocated := put uid True (pool_allocated p)\<rparr>, Inr uid)
        else allocateFrom p (uid + 1)
      else Some (p, Inl NoUserIDs))"

definition Allocate :: "UserIDPool \<Rightarrow> (UserIDPool \<times> (pool_error + u16)) option" where
  "Allocate p = allocateFrom p (pool_start p)"

definition AllocateSpecific :: "u16 \<Rightarrow> UserIDPool \<Rightarrow> UserIDPool \<times> pool_error option" where
  "AllocateSpecific uid p =
     (if uid < pool_start p \<or> uid > pool_end p
      then (p, Some (OutsideRange uid (pool_start p) (pool_end p)))
      else if IsAllocated uid p then (p, Some (AlreadyAllocated uid))
      else (p\<lparr>pool_allocated := put uid True (pool_allocated p)\<rparr>, None))"

definition pool_Release :: "u16 \<Rightarrow> UserIDPool \<Rightarrow> UserIDPool" where
  "pool_Release uid p = p\<lparr>pool_allocated := del uid (pool_allocated p)\<rparr>"

text \<open>\<^verbatim>\<open>int(p.end - p.start + 1)\<close>: the arithmetic is on 16 bits, the conversion comes after.\<close>

definition Available :: "UserIDPool \<Rightarrow> int" where
  "Available p = int (unat (pool_end p - pool_start p + 1)) - int (length (pool_allocated p))"

section \<open>The contract of a pool of identifiers\<close>

locale id_pool =
  fixes alloc :: "'p \<Rightarrow> ('p \<times> ('e + 'i)) option"
    and specific :: "'i \<Rightarrow> 'p \<Rightarrow> 'p \<times> 'e option"
    and release :: "'i \<Rightarrow> 'p \<Rightarrow> 'p"
    and used :: "'p \<Rightarrow> 'i set"
    and inv :: "'p \<Rightarrow> bool"
  assumes alloc_law: "inv p \<Longrightarrow> alloc p = Some (p', Inr i) \<Longrightarrow>
      inv p' \<and> i \<notin> used p \<and> used p' = insert i (used p)"
    and alloc_error: "alloc p = Some (p', Inl e) \<Longrightarrow> p' = p"
    and specific_law: "inv p \<Longrightarrow> specific i p = (p', None) \<Longrightarrow>
      inv p' \<and> i \<notin> used p \<and> used p' = insert i (used p)"
    and specific_error: "specific i p = (p', Some e) \<Longrightarrow> p' = p"
    and release_law: "inv p \<Longrightarrow> inv (release i p) \<and> used (release i p) = used p - {i}"
begin

text \<open>
  A client of the pool that hands out what it allocates: the identifiers in its books stay
  distinct and are exactly the used ones.
\<close>

lemma alloc_books:
  assumes "inv p" "distinct ids" "set ids = used p" "alloc p = Some (p', Inr i)"
  shows "inv p' \<and> distinct (i # ids) \<and> set (i # ids) = used p'"
  using alloc_law [OF assms(1,4)] assms(2,3) by auto

lemma specific_books:
  assumes "inv p" "distinct ids" "set ids = used p" "specific i p = (p', None)"
  shows "inv p' \<and> distinct (i # ids) \<and> set (i # ids) = used p'"
  using specific_law [OF assms(1,4)] assms(2,3) by auto

lemma release_books:
  assumes "inv p" "distinct ids" "set ids = used p"
  shows "inv (release i p) \<and> distinct (removeAll i ids) \<and> set (removeAll i ids) = used (release i p)"
  using release_law [OF assms(1)] assms(2,3) by (auto simp: distinct_removeAll)

end

section \<open>The loop of Allocate\<close>

definition pool_inv :: "UserIDPool \<Rightarrow> bool" where
  "pool_inv p \<longleftrightarrow> keys_distinct (pool_allocated p) \<and> (\<forall>(k, b) \<in> set (pool_allocated p). b)"

definition used_ids :: "UserIDPool \<Rightarrow> u16 set" where
  "used_ids p = {uid. IsAllocated uid p}"

definition markAllocated :: "u16 \<Rightarrow> UserIDPool \<Rightarrow> UserIDPool" where
  "markAllocated uid p = p\<lparr>pool_allocated := put uid True (pool_allocated p)\<rparr>"

lemma pool_inv_mark: "pool_inv p \<Longrightarrow> pool_inv (markAllocated uid p)"
  by (fastforce simp: pool_inv_def markAllocated_def update_conv' in_set_lookup split: if_splits)

lemma used_mark [simp]: "used_ids (markAllocated uid p) = insert uid (used_ids p)"
  by (auto simp: used_ids_def markAllocated_def IsAllocated_def)

lemma allocateFrom_result:
  assumes "allocateFrom p uid = Some (p', r)"
  shows "(\<exists>i. r = Inr i \<and> i \<notin> used_ids p \<and> p' = markAllocated i p) \<or> (r = Inl NoUserIDs \<and> p' = p)"
proof -
  let ?P = "\<lambda>p uid x. (\<exists>i. snd x = Inr i \<and> i \<notin> used_ids p \<and> fst x = markAllocated i p) \<or>
      (snd x = Inl NoUserIDs \<and> fst x = p)"
  have "?P p uid (p', r)"
  proof (rule allocateFrom.raw_induct [where P = ?P, OF _ assms])
    fix f p uid x
    assume IH: "\<And>p uid x. f p uid = Some x \<Longrightarrow> ?P p uid x"
      and eq: "(if uid \<le> pool_end p then
          if \<not> IsAllocated uid p
          then Some (p\<lparr>pool_allocated := put uid True (pool_allocated p)\<rparr>, Inr uid)
          else f p (uid + 1)
        else Some (p, Inl NoUserIDs)) = Some x"
    then show "?P p uid x"
      by (auto simp: used_ids_def markAllocated_def split: if_splits)
  qed
  then show ?thesis by simp
qed

interpretation uids: id_pool Allocate AllocateSpecific pool_Release used_ids pool_inv
proof (unfold_locales, goal_cases)
  case (1 p p' i)
  then show ?case
    using allocateFrom_result [of p "pool_start p" p' "Inr i"] by (auto simp: Allocate_def pool_inv_mark)
next
  case (2 p p' e)
  then show ?case
    using allocateFrom_result [of p "pool_start p" p' "Inl e"] by (auto simp: Allocate_def)
next
  case (3 p i p')
  then have "p' = markAllocated i p" "i \<notin> used_ids p"
    by (auto simp: AllocateSpecific_def markAllocated_def used_ids_def split: if_splits)
  with 3(1) show ?case by (simp add: pool_inv_mark)
next
  case (4 i p p' e)
  then show ?case by (auto simp: AllocateSpecific_def split: if_splits)
next
  case (5 p i)
  have "set (del i (pool_allocated p)) \<subseteq> set (pool_allocated p)"
    by (auto simp: AList.delete_eq)
  with 5 show ?case
    by (auto simp: pool_inv_def pool_Release_def used_ids_def IsAllocated_def)
qed

text \<open>When the range ends below the largest identifier, the loop scans it upwards.\<close>

lemma allocateFrom_scan:
  assumes "pool_end p < 65535"
  shows "allocateFrom p uid =
    Some (case List.find (\<lambda>n. \<not> IsAllocated (of_nat n) p) [unat uid ..< Suc (unat (pool_end p))] of
            Some n \<Rightarrow> (markAllocated (of_nat n) p, Inr (of_nat n))
          | None \<Rightarrow> (p, Inl NoUserIDs))"
proof (induction "Suc (unat (pool_end p)) - unat uid" arbitrary: uid rule: less_induct)
  case less
  show ?case
  proof (cases "uid \<le> pool_end p")
    case True
    then have le: "unat uid \<le> unat (pool_end p)" by (simp add: word_le_nat_alt)
    have "unat (pool_end p) < 65535" using assms by (simp add: word_less_nat_alt)
    with le have Suc: "unat (uid + 1) = Suc (unat uid)" by (simp add: unat_word_ariths)
    have upt: "[unat uid ..< Suc (unat (pool_end p))]
        = unat uid # [Suc (unat uid) ..< Suc (unat (pool_end p))]"
      using le by (intro upt_conv_Cons) simp
    show ?thesis
    proof (cases "IsAllocated uid p")
      case False
      with True show ?thesis
        by (subst allocateFrom.simps) (simp add: upt markAllocated_def del: upt_Suc)
    next
      case alloc: True
      have "allocateFrom p uid = allocateFrom p (uid + 1)"
        using True alloc by (subst allocateFrom.simps) simp
      with less [of "uid + 1"] le Suc alloc show ?thesis by (simp add: upt del: upt_Suc)
    qed
  next
    case False
    then have "\<not> unat uid < Suc (unat (pool_end p))" by (simp add: word_le_nat_alt)
    with False show ?thesis by (subst allocateFrom.simps) simp
  qed
qed

text \<open>When the range ends at the largest identifier, the counter wraps to 0.\<close>

lemma allocateFrom_wrap:
  assumes "pool_end p = 65535" "\<forall>j \<ge> uid. IsAllocated j p"
  shows "allocateFrom p uid = allocateFrom p 0"
  using assms(2)
proof (induction "65536 - unat uid" arbitrary: uid rule: less_induct)
  case less
  have max: "uid \<le> pool_end p"
    using u16_bound [of uid] assms(1) by (simp add: word_le_nat_alt)
  with less.prems have step: "allocateFrom p uid = allocateFrom p (uid + 1)"
    by (subst allocateFrom.simps) simp
  show ?case
  proof (cases "uid = 65535")
    case True
    then have "uid + 1 = 0" by simp
    with step show ?thesis by simp
  next
    case False
    then have "unat uid \<noteq> 65535" using u16_max by blast
    then have "unat (uid + 1) = Suc (unat uid)"
      using u16_bound [of uid] by (simp add: unat_word_ariths)
    moreover from this have "\<forall>j \<ge> uid + 1. IsAllocated j p"
      using less.prems by (auto simp: word_le_nat_alt)
    ultimately show ?thesis
      using less.hyps [of "uid + 1"] u16_bound [of uid] step by simp
  qed
qed

lemma allocateFrom_full:
  assumes "pool_end p = 65535" "\<forall>j. IsAllocated j p"
  shows "allocateFrom p uid = None"
proof (rule ccontr)
  assume "allocateFrom p uid \<noteq> None"
  then obtain r where "allocateFrom p uid = Some r" by auto
  then have "pool_end p = 65535 \<longrightarrow> (\<forall>j. IsAllocated j p) \<longrightarrow> False"
  proof (rule allocateFrom.raw_induct [where P =
        "\<lambda>p uid x. pool_end p = 65535 \<longrightarrow> (\<forall>j. IsAllocated j p) \<longrightarrow> False", rotated], goal_cases)
    case (1 f p uid x)
    have "uid \<le> 65535" using u16_bound [of uid] by (simp add: word_le_nat_alt)
    with 1 show ?case by (cases x) (auto split: if_splits)
  qed
  with assms show False by simp
qed

text \<open>What the scan returns.\<close>

lemma Allocate_finds_least:
  assumes "pool_end p < 65535"
  shows "(\<exists>i. Allocate p = Some (markAllocated i p, Inr i) \<and>
            pool_start p \<le> i \<and> i \<le> pool_end p \<and> i \<notin> used_ids p \<and>
            {j. pool_start p \<le> j \<and> j < i} \<subseteq> used_ids p) \<or>
    (Allocate p = Some (p, Inl NoUserIDs) \<and>
     {j. pool_start p \<le> j \<and> j \<le> pool_end p} \<subseteq> used_ids p)"
proof -
  let ?xs = "[unat (pool_start p) ..< Suc (unat (pool_end p))]"
  let ?Q = "\<lambda>n. \<not> IsAllocated (of_nat n) p"
  have scan: "Allocate p = Some (case List.find ?Q ?xs of
      Some n \<Rightarrow> (markAllocated (of_nat n) p, Inr (of_nat n)) | None \<Rightarrow> (p, Inl NoUserIDs))"
    unfolding Allocate_def using assms by (rule allocateFrom_scan)
  have unat: "of_nat (unat j) = j" for j :: u16 by simp
  show ?thesis
  proof (cases "List.find ?Q ?xs")
    case None
    then have "\<forall>n \<in> set ?xs. IsAllocated (of_nat n) p" by (simp add: find_None_iff del: upt_Suc)
    moreover have "unat j \<in> set ?xs" if "pool_start p \<le> j" "j \<le> pool_end p" for j
      using that by (simp add: word_le_nat_alt less_Suc_eq_le del: upt_Suc)
    ultimately have "IsAllocated j p" if "pool_start p \<le> j" "j \<le> pool_end p" for j
      using that unat [of j] by metis
    with scan None show ?thesis by (auto simp: used_ids_def)
  next
    case (Some n)
    then obtain k where k: "k < length ?xs" "?Q (?xs ! k)" "n = ?xs ! k" "\<forall>j < k. \<not> ?Q (?xs ! j)"
      by (auto simp: find_Some_iff simp del: upt_Suc)
    then have n: "n = unat (pool_start p) + k" "n \<le> unat (pool_end p)" by (simp_all del: upt_Suc)
    from n(2) u16_bound [of "pool_end p"] have "n < 65536" by linarith
    then have un: "unat (of_nat n :: u16) = n" by (simp add: unat_of_nat)
    have "IsAllocated j p" if "pool_start p \<le> j" "j < of_nat n" for j
    proof -
      have "unat (pool_start p) \<le> unat j" "unat j < n"
        using that un by (simp_all add: word_le_nat_alt word_less_nat_alt)
      then have "unat j - unat (pool_start p) < k" "?xs ! (unat j - unat (pool_start p)) = unat j"
        using n by (simp_all del: upt_Suc)
      with k(4) show ?thesis by fastforce
    qed
    moreover have "pool_start p \<le> of_nat n" "of_nat n \<le> pool_end p"
      using n un by (simp_all add: word_le_nat_alt)
    ultimately show ?thesis
      using scan Some k(2,3) by (intro disjI1 exI [of _ "of_nat n"]) (auto simp: used_ids_def)
  qed
qed

section \<open>Properties\<close>

text \<open>C30. With a range that ends below 65535, \<^verbatim>\<open>Allocate\<close> always returns: the smallest
  identifier of the range that is free, marked as taken, or, when the range is exhausted, an
  error that leaves the pool as it was.\<close>
theorem Allocate_least_free:
  assumes "pool_end p < 65535"
  shows "(\<exists>i. Allocate p = Some (markAllocated i p, Inr i) \<and>
            pool_start p \<le> i \<and> i \<le> pool_end p \<and> i \<notin> used_ids p \<and>
            {j. pool_start p \<le> j \<and> j < i} \<subseteq> used_ids p) \<or>
    (Allocate p = Some (p, Inl NoUserIDs) \<and>
     {j. pool_start p \<le> j \<and> j \<le> pool_end p} \<subseteq> used_ids p)"
  using assms by (rule Allocate_finds_least)

theorem Allocate_least_free_witness:
  "pool_end (NewUserIDPool 100 101) < 65535 \<and>
   (\<exists>i r. Allocate (NewUserIDPool 100 101) = Some (r, Inr i))"
proof -
  have e: "pool_end (NewUserIDPool 100 101) < 65535" by (simp add: NewUserIDPool_def)
  have "100 \<notin> used_ids (NewUserIDPool 100 101)"
    by (simp add: used_ids_def IsAllocated_def NewUserIDPool_def)
  then show ?thesis
    using Allocate_least_free [OF e] e by (auto simp: NewUserIDPool_def)
qed

text \<open>With a range that ends at 65535 the bound of the loop is always met: once every
  identifier from the start of the range up is taken, \<^verbatim>\<open>Allocate\<close> does not report an exhausted
  pool but wraps around and hands out 0, which lies outside the range.\<close>
lemma Allocate_wraps_out_of_range:
  assumes "pool_end p = 65535" "{j. pool_start p \<le> j} \<subseteq> used_ids p" "0 \<notin> used_ids p"
  shows "Allocate p = Some (markAllocated 0 p, Inr 0) \<and> 0 < pool_start p"
proof -
  have "allocateFrom p (pool_start p) = allocateFrom p 0"
    using assms(2) by (intro allocateFrom_wrap [OF assms(1)]) (auto simp: used_ids_def)
  moreover have "allocateFrom p 0 = Some (markAllocated 0 p, Inr 0)"
    using assms(3) by (subst allocateFrom.simps) (simp add: used_ids_def markAllocated_def)
  moreover have "pool_start p \<noteq> 0" using assms(2,3) by auto
  ultimately show ?thesis by (simp add: Allocate_def word_gt_0)
qed

lemma Allocate_wraps_out_of_range_witness:
  "Allocate (markAllocated 65535 (NewUserIDPool 65535 65535))
    = Some (markAllocated 0 (markAllocated 65535 (NewUserIDPool 65535 65535)), Inr 0)"
proof -
  let ?p = "markAllocated 65535 (NewUserIDPool 65535 65535)"
  have "{j. (65535 :: u16) \<le> j} = {65535}"
    using u16_le_max by auto
  then have "{j. pool_start ?p \<le> j} \<subseteq> used_ids ?p"
    by (simp add: NewUserIDPool_def) (simp add: markAllocated_def)
  then show ?thesis
    by (intro Allocate_wraps_out_of_range [THEN conjunct1])
       (simp_all add: used_ids_def IsAllocated_def markAllocated_def NewUserIDPool_def)
qed

text \<open>With a range that ends at 65535 and every identifier taken, the loop of
  \<^verbatim>\<open>Allocate\<close> does not terminate, with the pool's mutex held.\<close>
lemma Allocate_diverges_when_full:
  assumes "pool_end p = 65535" "used_ids p = UNIV"
  shows "Allocate p = None"
  unfolding Allocate_def using assms by (intro allocateFrom_full) (auto simp: used_ids_def)

definition fullPool :: UserIDPool where
  "fullPool = \<lparr>pool_start = 1, pool_end = 65535,
     pool_allocated = map (\<lambda>k. (k, True)) (map of_nat [0 ..< 65536])\<rparr>"

lemma fullPool_used: "used_ids fullPool = UNIV"
proof -
  have "(j :: u16) \<in> of_nat ` {0 ..< 65536}" for j
    using u16_bound [of j] by (intro image_eqI [of _ _ "unat j"]) simp_all
  then have "set (map of_nat [0 ..< 65536]) = (UNIV :: u16 set)" by (auto simp del: upt_Suc)
  then have "IsAllocated j fullPool" for j
    by (simp only: IsAllocated_def fullPool_def UserIDPool.simps map_of_map_restrict) simp
  then show ?thesis by (auto simp: used_ids_def)
qed

lemma Allocate_diverges_when_full_witness: "Allocate fullPool = None"
  by (rule Allocate_diverges_when_full) (simp_all add: fullPool_used, simp add: fullPool_def)

text \<open>Uniqueness: \<^verbatim>\<open>Allocate\<close> (whenever it returns) and \<^verbatim>\<open>AllocateSpecific\<close> hand out an
  identifier that was not in use and mark exactly that one, \<^verbatim>\<open>Release\<close> frees exactly its
  argument, so that a caller who records what it is given holds distinct identifiers, the used
  ones.\<close>
lemma pool_hands_out_unused:
  assumes "pool_inv p" "distinct ids" "set ids = used_ids p"
    and "Allocate p = Some (p', Inr i) \<or> AllocateSpecific i p = (p', None)"
  shows "pool_inv p' \<and> distinct (i # ids) \<and> set (i # ids) = used_ids p' \<and>
    pool_inv (pool_Release j p') \<and> distinct (removeAll j (i # ids)) \<and>
    set (removeAll j (i # ids)) = used_ids (pool_Release j p')"
proof -
  have "pool_inv p' \<and> distinct (i # ids) \<and> set (i # ids) = used_ids p'"
    using assms(4) uids.alloc_books [OF assms(1-3)] uids.specific_books [OF assms(1-3)] by blast
  then show ?thesis using uids.release_books [of p' "i # ids" j] by blast
qed

lemma pool_hands_out_unused_witness:
  "distinct [105 :: u16] \<and> set [105] = used_ids (fst (AllocateSpecific 105 (NewUserIDPool 100 200)))"
proof -
  let ?p = "NewUserIDPool 100 200"
  have "pool_inv ?p" "distinct []" "set [] = used_ids ?p"
    "AllocateSpecific 105 ?p = (fst (AllocateSpecific 105 ?p), None)"
    by (simp_all add: pool_inv_def used_ids_def IsAllocated_def AllocateSpecific_def NewUserIDPool_def)
  then show ?thesis using pool_hands_out_unused [of ?p "[]"] by blast
qed

end
