(* ===== verification/Manager.thy ===== *)
theory Manager
  imports Virtual_Client User_ID_Pool "HOL-Library.Multiset"
begin

text \<open>
  The manager of virtual clients of \<^verbatim>\<open>virtual/manager.go\<close>. Clients live in a heap, the manager's
  map holds pointers to them, and every client has an identifier from the pool. Removing a client
  takes it out of the map first, then closes it without the lock, then gives its identifier back:
  these are separate steps, between which other calls run.
\<close>

section \<open>State\<close>

record Config =
  mc_UserIDRangeStart :: u16
  mc_UserIDRangeEnd :: u16
  mc_ReconnectDelay :: int
  mc_RequestTimeout :: int
  mc_EnableMetrics :: bool

definition DefaultConfig :: Config where
  "DefaultConfig =
     \<lparr>mc_UserIDRangeStart = 100, mc_UserIDRangeEnd = 1000, mc_ReconnectDelay = 5 * 1000000000,
      mc_RequestTimeout = 30 * 1000000000, mc_EnableMetrics = False\<rparr>"

record Manager =
  mg_serverAddr :: string
  mg_conferenceID :: u32
  mg_clients :: "(string, nat) gomap"
  mg_userIDPool :: UserIDPool
  mg_config :: Config
  mg_client_at :: "nat \<Rightarrow> VClient"
  mg_fresh :: nat

datatype m_error =
    EmptyID
  | ErrClientAlreadyExists
  | AllocationFailed pool_error
  | CreationFailed v_error
  | OutsideConfiguredRange u16 u16 u16
  | UserIDInUse u16
  | ClientNotFound string

definition withDefaults :: "Config \<Rightarrow> Config" where
  "withDefaults config =
     (let config = (if mc_UserIDRangeStart config = 0
                    then config\<lparr>mc_UserIDRangeStart := 100\<rparr> else config);
          config = (if mc_UserIDRangeEnd config = 0
                    then config\<lparr>mc_UserIDRangeEnd := 1000\<rparr> else config);
          config = (if mc_UserIDRangeStart config > mc_UserIDRangeEnd config
                    then config\<lparr>mc_UserIDRangeStart := 100, mc_UserIDRangeEnd := 1000\<rparr> else config)
      in if mc_RequestTimeout config = 0
         then config\<lparr>mc_RequestTimeout := 30 * 1000000000\<rparr> else config)"

definition NewManager :: "string \<Rightarrow> u32 \<Rightarrow> Config \<Rightarrow> (nat \<Rightarrow> VClient) \<Rightarrow> Manager" where
  "NewManager serverAddr conferenceID config heap =
     (let config = withDefaults config
      in \<lparr>mg_serverAddr = serverAddr, mg_conferenceID = conferenceID, mg_clients = [],
          mg_userIDPool = NewUserIDPool (mc_UserIDRangeStart config) (mc_UserIDRangeEnd config),
          mg_config = config, mg_client_at = heap, mg_fresh = 0\<rparr>)"

section \<open>Creating clients\<close>

text \<open>The end of both creating operations, with the identifier taken from the pool.\<close>

definition storeClient :: "string \<Rightarrow> u16 \<Rightarrow> Manager \<Rightarrow> Manager \<times> (m_error, nat) res" where
  "storeClient cid userID m =
     (case vc_New cid (mg_serverAddr m) (mg_conferenceID m) userID (mc_RequestTimeout (mg_config m)) of
        Ok client \<Rightarrow>
          let p = mg_fresh m
          in (m\<lparr>mg_fresh := Suc p, mg_client_at := (mg_client_at m)(p := client),
                mg_clients := put cid p (mg_clients m)\<rparr>, Ok p)
      | Fail err \<Rightarrow>
          (m\<lparr>mg_userIDPool := pool_Release userID (mg_userIDPool m)\<rparr>, Fail (CreationFailed err))
      | Panic \<Rightarrow> (m, Panic))"

text \<open>\<open>None\<close> is an \<^verbatim>\<open>Allocate\<close> that does not end, under the manager's lock.\<close>

definition CreateClient :: "string \<Rightarrow> Manager \<Rightarrow> (Manager \<times> (m_error, nat) res) option" where
  "CreateClient cid m =
     (if cid = [] then Some (m, Fail EmptyID)
      else if lookup (mg_clients m) cid \<noteq> None then Some (m, Fail ErrClientAlreadyExists)
      else
        case Allocate (mg_userIDPool m) of
          None \<Rightarrow> None
        | Some (pool, Inl err) \<Rightarrow> Some (m\<lparr>mg_userIDPool := pool\<rparr>, Fail (AllocationFailed err))
        | Some (pool, Inr userID) \<Rightarrow> Some (storeClient cid userID (m\<lparr>mg_userIDPool := pool\<rparr>)))"

definition CreateClientWithUserID ::
    "string \<Rightarrow> u16 \<Rightarrow> Manager \<Rightarrow> Manager \<times> (m_error, nat) res" where
  "CreateClientWithUserID cid userID m =
     (let lo = mc_UserIDRangeStart (mg_config m); hi = mc_UserIDRangeEnd (mg_config m) in
      if cid = [] then (m, Fail EmptyID)
      else if userID < lo \<or> userID > hi then (m, Fail (OutsideConfiguredRange userID lo hi))
      else if lookup (mg_clients m) cid \<noteq> None then (m, Fail ErrClientAlreadyExists)
      else
        case AllocateSpecific userID (mg_userIDPool m) of
          (pool, Some err) \<Rightarrow> (m\<lparr>mg_userIDPool := pool\<rparr>, Fail (UserIDInUse userID))
        | (pool, None) \<Rightarrow> storeClient cid userID (m\<lparr>mg_userIDPool := pool\<rparr>))"

definition GetClient :: "string \<Rightarrow> Manager \<Rightarrow> nat option" where
  "GetClient cid m = lookup (mg_clients m) cid"

section \<open>Removing clients\<close>

definition beginRemove :: "string \<Rightarrow> Manager \<Rightarrow> Manager \<times> (m_error, nat) res" where
  "beginRemove cid m =
     (case lookup (mg_clients m) cid of
        None \<Rightarrow> (m, Fail (ClientNotFound cid))
      | Some p \<Rightarrow> (m\<lparr>mg_clients := del cid (mg_clients m)\<rparr>, Ok p))"

text \<open>\<open>closing\<close> is \<^verbatim>\<open>Close\<close> of the virtual client; the identifier goes back whether it fails or not.\<close>

definition finishRemove :: "(VClient \<Rightarrow> VClient) \<Rightarrow> nat \<Rightarrow> Manager \<Rightarrow> Manager" where
  "finishRemove closing p m =
     (let client = closing (mg_client_at m p)
      in m\<lparr>mg_client_at := (mg_client_at m)(p := client),
           mg_userIDPool := pool_Release (vc_userID client) (mg_userIDPool m)\<rparr>)"

definition RemoveClient ::
    "(VClient \<Rightarrow> VClient) \<Rightarrow> string \<Rightarrow> Manager \<Rightarrow> Manager \<times> m_error option" where
  "RemoveClient closing cid m =
     (case beginRemove cid m of
        (m, Ok p) \<Rightarrow> (finishRemove closing p m, None)
      | (m, Fail err) \<Rightarrow> (m, Some err)
      | (m, Panic) \<Rightarrow> (m, None))"

text \<open>\<open>order\<close> is the order of the \<^verbatim>\<open>range\<close> over the map.\<close>

definition beginRemoveAll ::
    "((string, nat) gomap \<Rightarrow> (string, nat) gomap) \<Rightarrow> Manager \<Rightarrow> Manager \<times> nat list" where
  "beginRemoveAll order m = (m\<lparr>mg_clients := []\<rparr>, map snd (order (mg_clients m)))"

definition RemoveAll ::
    "((string, nat) gomap \<Rightarrow> (string, nat) gomap) \<Rightarrow> (VClient \<Rightarrow> VClient) \<Rightarrow> Manager \<Rightarrow> Manager" where
  "RemoveAll order closing m =
     (let (m, ps) = beginRemoveAll order m in fold (finishRemove closing) ps m)"

section \<open>Reading\<close>

record ClientInfo =
  ci_ID :: string
  ci_UserID :: u16
  ci_Connected :: bool
  ci_ActiveFloors :: "u16 list"

definition infoOf :: "((u16, u16) gomap \<Rightarrow> (u16, u16) gomap) \<Rightarrow> VClient \<Rightarrow> ClientInfo" where
  "infoOf order_floors client =
     (let status = GetStatus 0 order_floors (\<lambda>m. m) client
      in \<lparr>ci_ID = cs_ID status, ci_UserID = cs_UserID status, ci_Connected = cs_Connected status,
          ci_ActiveFloors = cs_ActiveFloors status\<rparr>)"

definition ListClients ::
    "((string, nat) gomap \<Rightarrow> (string, nat) gomap) \<Rightarrow> ((u16, u16) gomap \<Rightarrow> (u16, u16) gomap) \<Rightarrow>
     Manager \<Rightarrow> ClientInfo list" where
  "ListClients order order_floors m =
     map (\<lambda>e. infoOf order_floors (mg_client_at m (snd e))) (order (mg_clients m))"

definition mg_Count :: "Manager \<Rightarrow> nat" where
  "mg_Count m = length (mg_clients m)"

definition AvailableUserIDs :: "Manager \<Rightarrow> int" where
  "AvailableUserIDs m = Available (mg_userIDPool m)"

section \<open>Who has an identifier\<close>

text \<open>
  The clients in the map and those being removed, whose identifiers are still taken. \<open>books\<close> are
  their identifiers.
\<close>

definition live :: "Manager \<Rightarrow> nat list \<Rightarrow> nat list" where
  "live m removing = map snd (mg_clients m) @ removing"

definition books :: "Manager \<Rightarrow> nat list \<Rightarrow> u16 list" where
  "books m removing = map (\<lambda>p. vc_userID (mg_client_at m p)) (live m removing)"

definition mgr_ok :: "Manager \<Rightarrow> nat list \<Rightarrow> bool" where
  "mgr_ok m removing \<longleftrightarrow>
     pool_inv (mg_userIDPool m) \<and> keys_distinct (mg_clients m) \<and>
     (\<forall>p \<in> set (live m removing). p < mg_fresh m) \<and>
     distinct (books m removing) \<and> set (books m removing) = used_ids (mg_userIDPool m)"

text \<open>A manager in use: calls, the steps of removals in flight, and clients at work.\<close>

inductive managed :: "Manager \<Rightarrow> nat list \<Rightarrow> bool" where
  new: "managed (NewManager addr conf config heap) []"
| create: "managed m removing \<Longrightarrow> CreateClient cid m = Some (m', r) \<Longrightarrow> managed m' removing"
| createWith: "managed m removing \<Longrightarrow> CreateClientWithUserID cid uid m = (m', r) \<Longrightarrow> managed m' removing"
| removeBegun: "managed m removing \<Longrightarrow> beginRemove cid m = (m', Ok p) \<Longrightarrow> managed m' (p # removing)"
| removeAllBegun: "managed m removing \<Longrightarrow> mset (order (mg_clients m)) = mset (mg_clients m) \<Longrightarrow>
    beginRemoveAll order m = (m', ps) \<Longrightarrow> managed m' (ps @ removing)"
| removeFinished: "managed m removing \<Longrightarrow> p \<in> set removing \<Longrightarrow>
    (\<And>v. vc_userID (closing v) = vc_userID v) \<Longrightarrow> managed (finishRemove closing p m) (remove1 p removing)"
| client: "managed m removing \<Longrightarrow> vc_userID v' = vc_userID (mg_client_at m p) \<Longrightarrow>
    managed (m\<lparr>mg_client_at := (mg_client_at m)(p := v')\<rparr>) removing"

section \<open>Clients keep their identifier\<close>

lemma vc_userID_callback: "vc_userID (vc_callback ev v) = vc_userID v"
  by (cases ev) (simp_all add: vc_callback_def vc_emit_def dropRequest_def Let_def split: option.splits)

lemma vc_userID_callbacks [simp]: "vc_userID (fold vc_callback evs v) = vc_userID v"
  by (induction evs arbitrary: v) (simp_all add: vc_userID_callback)

lemma vc_userID_run [simp]: "vc_userID (fst (vc_run call c v)) = vc_userID v"
  by (simp add: vc_run_def split_beta Let_def)

lemma vc_userID_ReleaseAllFloors: "vc_userID (fst (ReleaseAllFloors order writes waits v)) = vc_userID v"
proof -
  have one: "vc_userID (fst (releaseOne writes waits k x)) = vc_userID (fst x)" for k x
    by (cases x) (simp add: releaseOne_def Let_def split_beta split: option.splits)
  have "vc_userID (fst (fold (releaseOne writes waits) ks x)) = vc_userID (fst x)" for ks x
    by (induction ks arbitrary: x) (simp_all add: one)
  then show ?thesis by (simp add: ReleaseAllFloors_def)
qed

lemma vc_userID_Close: "vc_userID (vc_Close order writes waits v) = vc_userID v"
  using vc_userID_ReleaseAllFloors [of order writes waits "v\<lparr>vc_closed := True\<rparr>"]
  by (simp add: vc_Close_def Let_def split: option.splits)

section \<open>The invariant of the manager\<close>

lemma books_client_at:
  assumes "\<And>p. p \<in> set (live m removing) \<Longrightarrow> vc_userID (h p) = vc_userID (mg_client_at m p)"
  shows "books (m\<lparr>mg_client_at := h\<rparr>) removing = books m removing"
  using assms by (simp add: books_def live_def)

lemma storeClient_ok:
  assumes "mgr_ok m removing" "lookup (mg_clients m) cid = None" "pool_inv pool"
    and "uid \<notin> used_ids (mg_userIDPool m)" "used_ids pool = insert uid (used_ids (mg_userIDPool m))"
    and "storeClient cid uid (m\<lparr>mg_userIDPool := pool\<rparr>) = (m', r)"
  shows "mgr_ok m' removing"
proof (cases "vc_New cid (mg_serverAddr m) (mg_conferenceID m) uid (mc_RequestTimeout (mg_config m))")
  case (Ok v)
  have uid: "vc_userID v = uid" using Ok by (auto simp: vc_New_def Let_def split: if_splits)
  let ?p = "mg_fresh m"
  have m': "m' = m\<lparr>mg_userIDPool := pool, mg_fresh := Suc ?p, mg_client_at := (mg_client_at m)(?p := v),
      mg_clients := mg_clients m @ [(cid, ?p)]\<rparr>"
    using assms(6) Ok put_new [OF assms(2)] by (auto simp: storeClient_def Let_def)
  have below: "p < ?p" if "p \<in> set (live m removing)" for p
    using assms(1) that by (auto simp: mgr_ok_def)
  then have new: "p \<noteq> ?p" if "p \<in> set (live m removing)" for p using that by blast
  let ?id = "\<lambda>p. vc_userID (mg_client_at m p)"
  have b: "books m' removing = map ?id (map snd (mg_clients m)) @ uid # map ?id removing"
    using new by (simp add: m' books_def live_def uid)
  have "keys_distinct (mg_clients m @ [(cid, ?p)])"
    using keys_distinct_put [of "mg_clients m" cid ?p] assms(1) put_new [OF assms(2)]
    by (simp add: mgr_ok_def)
  moreover have "\<forall>p \<in> set (live m' removing). p < Suc ?p"
    using below by (auto simp: m' live_def less_SucI)
  moreover have "distinct (books m' removing)" "set (books m' removing) = used_ids pool"
  proof -
    have b0: "books m removing = map ?id (map snd (mg_clients m)) @ map ?id removing"
      by (simp add: books_def live_def)
    have "distinct (books m removing)" "set (books m removing) = used_ids (mg_userIDPool m)"
      using assms(1) by (simp_all add: mgr_ok_def)
    with assms(4,5) show "distinct (books m' removing)" "set (books m' removing) = used_ids pool"
      unfolding b b0 by auto
  qed
  ultimately show ?thesis using assms(3) by (simp add: mgr_ok_def m')
next
  case (Fail err)
  then have m': "m' = m\<lparr>mg_userIDPool := pool_Release uid pool\<rparr>"
    using assms(6) by (simp add: storeClient_def)
  have "pool_inv (pool_Release uid pool)" "used_ids (pool_Release uid pool) = used_ids (mg_userIDPool m)"
    using uids.release_law [OF assms(3), of uid] assms(4,5) by auto
  with assms(1) show ?thesis by (simp add: m' mgr_ok_def books_def live_def)
next
  case Panic
  then show ?thesis by (simp add: vc_New_def Let_def split: if_splits)
qed

lemma mgr_ok_pool_same:
  "mgr_ok m removing \<Longrightarrow> m\<lparr>mg_userIDPool := mg_userIDPool m\<rparr> = m"
  by simp

lemma CreateClient_ok:
  assumes "mgr_ok m removing" "CreateClient cid m = Some (m', r)"
  shows "mgr_ok m' removing"
proof (cases "cid = [] \<or> lookup (mg_clients m) cid \<noteq> None")
  case True
  with assms show ?thesis by (auto simp: CreateClient_def split: if_splits)
next
  case False
  with assms(2) obtain pool x where a: "Allocate (mg_userIDPool m) = Some (pool, x)"
    by (auto simp: CreateClient_def split: option.splits)
  show ?thesis
  proof (cases x)
    case (Inl err)
    with a have "pool = mg_userIDPool m" using uids.alloc_error by auto
    with assms False a Inl show ?thesis by (simp add: CreateClient_def)
  next
    case (Inr uid)
    have inv: "pool_inv (mg_userIDPool m)" using assms(1) by (simp add: mgr_ok_def)
    note law = uids.alloc_law [OF inv a [unfolded Inr]]
    have "storeClient cid uid (m\<lparr>mg_userIDPool := pool\<rparr>) = (m', r)"
      using assms(2) False a Inr by (simp add: CreateClient_def)
    then show ?thesis using storeClient_ok [OF assms(1)] False law by blast
  qed
qed

lemma CreateClientWithUserID_ok:
  assumes "mgr_ok m removing" "CreateClientWithUserID cid uid m = (m', r)"
  shows "mgr_ok m' removing"
proof (cases "cid = [] \<or> uid < mc_UserIDRangeStart (mg_config m) \<or> uid > mc_UserIDRangeEnd (mg_config m) \<or>
    lookup (mg_clients m) cid \<noteq> None")
  case True
  with assms show ?thesis by (auto simp: CreateClientWithUserID_def Let_def split: if_splits)
next
  case False
  obtain pool x where a: "AllocateSpecific uid (mg_userIDPool m) = (pool, x)"
    by (cases "AllocateSpecific uid (mg_userIDPool m)")
  show ?thesis
  proof (cases x)
    case (Some err)
    with a have "pool = mg_userIDPool m" using uids.specific_error by auto
    with assms False a Some show ?thesis by (auto simp: CreateClientWithUserID_def Let_def)
  next
    case None
    have inv: "pool_inv (mg_userIDPool m)" using assms(1) by (simp add: mgr_ok_def)
    note law = uids.specific_law [OF inv a [unfolded None]]
    have "storeClient cid uid (m\<lparr>mg_userIDPool := pool\<rparr>) = (m', r)"
      using assms(2) False a None by (auto simp: CreateClientWithUserID_def Let_def)
    then show ?thesis using storeClient_ok [OF assms(1)] False law by blast
  qed
qed

text \<open>Taking a client out of the map moves it among those being removed.\<close>

lemma books_mset: "mset (books m removing)
    = image_mset (\<lambda>p. vc_userID (mg_client_at m p)) (mset (live m removing))"
  by (simp add: books_def)

lemma mgr_ok_live:
  assumes "mgr_ok m removing" "mset (live m' removing') = mset (live m removing)"
    and "mg_client_at m' = mg_client_at m" "mg_userIDPool m' = mg_userIDPool m"
    and "mg_fresh m' = mg_fresh m" "keys_distinct (mg_clients m')"
  shows "mgr_ok m' removing'"
proof -
  have "mset (books m' removing') = mset (books m removing)"
    using assms(2,3) by (simp add: books_mset)
  from mset_eq_imp_distinct_iff [OF this] mset_eq_setD [OF this]
  have "distinct (books m' removing')" "set (books m' removing') = set (books m removing)"
    using assms(1) by (simp_all add: mgr_ok_def)
  moreover have "set (live m' removing') = set (live m removing)"
    using assms(2) by (rule mset_eq_setD)
  ultimately show ?thesis using assms by (simp add: mgr_ok_def)
qed

lemma mset_del:
  "keys_distinct m \<Longrightarrow> lookup m k = Some x \<Longrightarrow> mset (map snd m) = add_mset x (mset (map snd (del k m)))"
proof (induction m)
  case (Cons e m)
  obtain k' y where e: "e = (k', y)" by (cases e)
  show ?case
  proof (cases "k' = k")
    case True
    with Cons.prems have "k \<notin> fst ` set m" "y = x" by (auto simp: keys_distinct_def e)
    moreover from this(1) have "del k m = m"
      unfolding AList.delete_eq by (intro filter_True) force
    ultimately show ?thesis using True by (simp add: e)
  next
    case False
    with Cons show ?thesis by (simp add: e keys_distinct_def)
  qed
qed simp

lemma managed_ok: "managed m removing \<Longrightarrow> mgr_ok m removing"
proof (induction rule: managed.induct)
  case (new addr conf config heap)
  then show ?case
    by (simp add: NewManager_def Let_def mgr_ok_def books_def live_def NewUserIDPool_def pool_inv_def
        used_ids_def IsAllocated_def)
next
  case (create m removing cid m' r)
  then show ?case by (blast intro: CreateClient_ok)
next
  case (createWith m removing cid uid m' r)
  then show ?case by (blast intro: CreateClientWithUserID_ok)
next
  case (removeBegun m removing cid m' p)
  then have l: "lookup (mg_clients m) cid = Some p" "m' = m\<lparr>mg_clients := del cid (mg_clients m)\<rparr>"
    by (auto simp: beginRemove_def split: option.splits)
  have kd: "keys_distinct (mg_clients m)" using removeBegun.IH by (simp add: mgr_ok_def)
  show ?case
    by (rule mgr_ok_live [OF removeBegun.IH])
       (use mset_del [OF kd l(1)] kd in \<open>simp_all add: l(2) live_def\<close>)
next
  case (removeAllBegun m removing order m' ps)
  have "mset (map snd (order (mg_clients m))) = mset (map snd (mg_clients m))"
    using removeAllBegun.hyps by (metis mset_map)
  with removeAllBegun.hyps have "m' = m\<lparr>mg_clients := []\<rparr>" "mset ps = mset (map snd (mg_clients m))"
    by (auto simp: beginRemoveAll_def)
  then show ?case
    by (intro mgr_ok_live [OF removeAllBegun.IH]) (simp_all add: live_def)
next
  case (removeFinished m removing p closing)
  let ?id = "\<lambda>p. vc_userID (mg_client_at m p)" and ?m' = "finishRemove closing p m"
  have "mset removing = add_mset p (mset (remove1 p removing))"
    using removeFinished.hyps by simp
  then have "mset (books m removing) = add_mset (?id p) (mset (books m (remove1 p removing)))"
    by (simp only: books_mset live_def mset_append image_mset_union image_mset_add_mset
        union_mset_add_mset_right)
  moreover have b: "books ?m' (remove1 p removing) = books m (remove1 p removing)"
    using books_client_at [of m "remove1 p removing" "(mg_client_at m)(p := closing (mg_client_at m p))"]
      removeFinished.hyps(3)
    by (simp add: finishRemove_def Let_def books_def live_def)
  ultimately have "mset (books m removing) = mset (?id p # books ?m' (remove1 p removing))" by simp
  from mset_eq_imp_distinct_iff [OF this] mset_eq_setD [OF this]
  have d: "distinct (?id p # books ?m' (remove1 p removing))"
    "set (books m removing) = insert (?id p) (set (books ?m' (remove1 p removing)))"
    using removeFinished.IH by (simp_all add: mgr_ok_def)
  have inv: "pool_inv (mg_userIDPool m)" using removeFinished.IH by (simp add: mgr_ok_def)
  have "used_ids (pool_Release (?id p) (mg_userIDPool m)) = set (books ?m' (remove1 p removing))"
    using uids.release_law [OF inv, of "?id p"] removeFinished.IH d by (auto simp: mgr_ok_def)
  moreover have "set (live ?m' (remove1 p removing)) \<subseteq> set (live m removing)"
    using set_remove1_subset [of p removing] by (auto simp: live_def finishRemove_def Let_def)
  ultimately show ?case
    using removeFinished.IH removeFinished.hyps(3) d(1) uids.release_law [OF inv, of "?id p"]
    by (auto simp: mgr_ok_def finishRemove_def Let_def)
next
  case (client m removing v' p)
  then have "books (m\<lparr>mg_client_at := (mg_client_at m)(p := v')\<rparr>) removing = books m removing"
    by (intro books_client_at) simp
  with client.IH show ?case by (simp add: mgr_ok_def live_def)
qed

section \<open>The range of the identifiers\<close>

definition in_range :: "UserIDPool \<Rightarrow> bool" where
  "in_range pool \<longleftrightarrow> pool_end pool < 65535 \<longrightarrow>
     used_ids pool \<subseteq> {i. pool_start pool \<le> i \<and> i \<le> pool_end pool}"

lemma pool_range_release: "in_range pool \<Longrightarrow> in_range (pool_Release uid pool)"
  by (auto simp: in_range_def pool_Release_def used_ids_def IsAllocated_def split: if_splits)

lemma in_range_Allocate:
  assumes "in_range pool" "Allocate pool = Some (pool', x)"
  shows "in_range pool'"
proof (cases "pool_end pool < 65535")
  case True
  from Allocate_finds_least [OF True] assms show ?thesis
    by (auto simp: in_range_def markAllocated_def used_ids_def IsAllocated_def split: if_splits)
next
  case False
  with assms(2) allocateFrom_result [of pool "pool_start pool" pool' x] show ?thesis
    by (auto simp: in_range_def Allocate_def markAllocated_def)
qed

lemma in_range_AllocateSpecific:
  assumes "in_range pool" "AllocateSpecific uid pool = (pool', x)"
  shows "in_range pool'"
  using assms
  by (auto simp: AllocateSpecific_def in_range_def used_ids_def IsAllocated_def not_less split: if_splits)

lemma in_range_storeClient:
  "in_range pool \<Longrightarrow> storeClient cid uid (m\<lparr>mg_userIDPool := pool\<rparr>) = (m', r) \<Longrightarrow> in_range (mg_userIDPool m')"
  by (auto simp: storeClient_def Let_def pool_range_release split: res.splits)

lemma managed_range: "managed m removing \<Longrightarrow> in_range (mg_userIDPool m)"
proof (induction rule: managed.induct)
  case (new addr conf config heap)
  then show ?case
    by (simp add: NewManager_def Let_def NewUserIDPool_def in_range_def used_ids_def IsAllocated_def)
next
  case (create m removing cid m' r)
  then show ?case
    by (auto simp: CreateClient_def split: if_splits option.splits sum.splits prod.splits
        dest: in_range_Allocate intro: in_range_storeClient)
next
  case (createWith m removing cid uid m' r)
  then show ?case
    by (auto simp: CreateClientWithUserID_def Let_def split: if_splits option.splits prod.splits
        dest: in_range_AllocateSpecific intro: in_range_storeClient)
next
  case (removeBegun m removing cid m' p)
  then show ?case by (auto simp: beginRemove_def split: option.splits)
next
  case (removeAllBegun m removing order m' ps)
  then show ?case by (auto simp: beginRemoveAll_def)
next
  case (removeFinished m removing p closing)
  then show ?case by (simp add: finishRemove_def Let_def pool_range_release)
qed simp

section \<open>Properties\<close>

definition some_heap :: "nat \<Rightarrow> VClient" where
  "some_heap = (\<lambda>_. \<lparr>vc_id = [], vc_userID = 0, vc_conferenceID = 0, vc_serverAddr = [], vc_client = None,
     vc_activeRequests = [], vc_heldFloors = [], vc_requestTimeout = 0, vc_closed = True,
     vc_connected = False, vc_log = [], vc_panicked = False\<rparr>)"

definition conference :: Manager where
  "conference = NewManager ''10.0.0.9:5070'' 1 DefaultConfig some_heap"

definition conference1 :: Manager where
  "conference1 = fst (the (CreateClient ''webrtc-1'' conference))"

lemma conference1_facts:
  "CreateClient ''webrtc-1'' conference = Some (conference1, Ok 0)"
  "mg_clients conference1 = [(''webrtc-1'', 0)]" "mg_fresh conference1 = 1"
  "vc_userID (mg_client_at conference1 0) = 100" "mg_serverAddr conference1 = ''10.0.0.9:5070''"
  "mg_userIDPool conference1 = \<lparr>pool_start = 100, pool_end = 1000, pool_allocated = [(100, True)]\<rparr>"
  "mc_UserIDRangeStart (mg_config conference1) = 100" "mc_UserIDRangeEnd (mg_config conference1) = 1000"
proof -
  have c: "CreateClient ''webrtc-1'' conference = Some (conference\<lparr>mg_userIDPool :=
      \<lparr>pool_start = 100, pool_end = 1000, pool_allocated = [(100, True)]\<rparr>, mg_fresh := 1,
      mg_client_at := some_heap(0 := \<lparr>vc_id = ''webrtc-1'', vc_userID = 100, vc_conferenceID = 1,
        vc_serverAddr = ''10.0.0.9:5070'', vc_client = None, vc_activeRequests = [],
        vc_heldFloors = [], vc_requestTimeout = 30 * 1000000000, vc_closed = False,
        vc_connected = False, vc_log = [], vc_panicked = False\<rparr>),
      mg_clients := [(''webrtc-1'', 0)]\<rparr>, Ok 0)"
    by (simp add: CreateClient_def conference_def NewManager_def withDefaults_def DefaultConfig_def
        NewUserIDPool_def Allocate_def allocateFrom.simps IsAllocated_def storeClient_def vc_New_def
        Let_def)
  show "CreateClient ''webrtc-1'' conference = Some (conference1, Ok 0)"
    "mg_clients conference1 = [(''webrtc-1'', 0)]" "mg_fresh conference1 = 1"
    "vc_userID (mg_client_at conference1 0) = 100" "mg_serverAddr conference1 = ''10.0.0.9:5070''"
    "mg_userIDPool conference1 = \<lparr>pool_start = 100, pool_end = 1000, pool_allocated = [(100, True)]\<rparr>"
    "mc_UserIDRangeStart (mg_config conference1) = 100" "mc_UserIDRangeEnd (mg_config conference1) = 1000"
    unfolding conference1_def c
    by (simp_all add: conference_def NewManager_def withDefaults_def DefaultConfig_def Let_def)
qed

lemma conference1_managed: "managed conference1 []"
  by (rule managed.create [OF _ conference1_facts(1)]) (simp only: conference_def managed.new)



text \<open>A removed client's identifier can be used again, and not before: while the client is there a
  second client with its identifier is refused, and after \<^verbatim>\<open>RemoveClient\<close> it is created.\<close>
lemma identifier_freed_by_removal:
  assumes "managed m removing" "lookup (mg_clients m) cid = Some p"
    and "vc_userID (mg_client_at m p) = uid" "\<And>v. vc_userID (closing v) = vc_userID v"
    and "cid' \<noteq> []" "lookup (mg_clients m) cid' = None" "mg_serverAddr m \<noteq> []"
    and "mc_UserIDRangeStart (mg_config m) \<le> uid" "uid \<le> mc_UserIDRangeEnd (mg_config m)"
    and "pool_start (mg_userIDPool m) \<le> uid" "uid \<le> pool_end (mg_userIDPool m)"
  shows "snd (CreateClientWithUserID cid' uid m) = Fail (UserIDInUse uid) \<and>
    (\<exists>q. snd (CreateClientWithUserID cid' uid (fst (RemoveClient closing cid m))) = Ok q)"
proof -
  note ok = managed_ok [OF assms(1)]
  have "p \<in> set (live m removing)"
    using lookup_in_set [OF assms(2)] by (force simp: live_def)
  then have "uid \<in> used_ids (mg_userIDPool m)"
    using ok assms(3) by (auto simp: mgr_ok_def books_def)
  then have used: "IsAllocated uid (mg_userIDPool m)" by (simp add: used_ids_def)
  have "snd (CreateClientWithUserID cid' uid m) = Fail (UserIDInUse uid)"
    using used assms(5,6,8-11)
    by (simp add: CreateClientWithUserID_def AllocateSpecific_def Let_def not_less)
  moreover
  let ?m' = "fst (RemoveClient closing cid m)"
  have m': "?m' = m\<lparr>mg_clients := del cid (mg_clients m),
      mg_client_at := (mg_client_at m)(p := closing (mg_client_at m p)),
      mg_userIDPool := pool_Release uid (mg_userIDPool m)\<rparr>"
    using assms(2-4) by (simp add: RemoveClient_def beginRemove_def finishRemove_def Let_def)
  have "\<not> IsAllocated uid (pool_Release uid (mg_userIDPool m))"
    by (simp add: pool_Release_def IsAllocated_def)
  then have "\<exists>q. snd (CreateClientWithUserID cid' uid ?m') = Ok q"
    using assms(5-11)
    by (simp add: m' CreateClientWithUserID_def AllocateSpecific_def storeClient_def vc_New_def Let_def
        not_less pool_Release_def)
  ultimately show ?thesis by blast
qed

lemma identifier_freed_by_removal_witness:
  "CreateClient ''webrtc-1'' conference = Some (conference1, Ok 0) \<and>
   snd (CreateClientWithUserID ''webrtc-2'' 100 conference1) = Fail (UserIDInUse 100) \<and>
   (\<exists>q. snd (CreateClientWithUserID ''webrtc-2'' 100
      (fst (RemoveClient (vc_Close (\<lambda>m. m) (\<lambda>_. True) (\<lambda>_. ([], True))) ''webrtc-1'' conference1))) = Ok q)"
  using identifier_freed_by_removal [OF conference1_managed, of "''webrtc-1''" 0 100
      "vc_Close (\<lambda>m. m) (\<lambda>_. True) (\<lambda>_. ([], True))" "''webrtc-2''"]
  by (simp add: conference1_facts vc_userID_Close)

end
