(* ===== verification/Request_Queue.thy ===== *)
theory Request_Queue
  imports Floor
begin

text \<open>
  The floor request queue of \<^verbatim>\<open>state.go\<close>: a list kept in order by one bubble pass per
  insertion. The order is a linear order on the pair of priority and timestamp, so that the
  library's \<open>sorted\<close> speaks about it.
\<close>

section \<open>Requests and their order\<close>

record FloorRequest =
  fr_FloorID :: u16
  fr_FloorRequestID :: u16
  fr_UserID :: u16
  fr_BeneficiaryID :: u16
  fr_Priority :: Priority
  fr_Timestamp :: time

datatype qkey = QKey (qprio: Priority) (qtime: time)

instantiation qkey :: linorder
begin

definition less_eq_qkey :: "qkey \<Rightarrow> qkey \<Rightarrow> bool" where
  "less_eq_qkey a b \<longleftrightarrow> qprio b < qprio a \<or> (qprio a = qprio b \<and> qtime a \<le> qtime b)"

definition less_qkey :: "qkey \<Rightarrow> qkey \<Rightarrow> bool" where
  "less_qkey a b \<longleftrightarrow> qprio b < qprio a \<or> (qprio a = qprio b \<and> qtime a < qtime b)"

instance
  by standard (auto simp: less_eq_qkey_def less_qkey_def qkey.expand)

end

definition qkey :: "FloorRequest \<Rightarrow> qkey" where
  "qkey req = QKey (fr_Priority req) (fr_Timestamp req)"

section \<open>Operations\<close>

definition NewFloorRequestQueue :: "FloorRequest list" where
  "NewFloorRequestQueue = []"

text \<open>The loop of \<^verbatim>\<open>Add\<close>: \<open>i\<close> runs from the last index down to 1.\<close>

definition swapStep :: "nat \<Rightarrow> FloorRequest list \<Rightarrow> FloorRequest list" where
  "swapStep i requests =
     (let a = requests ! i; b = requests ! (i - 1) in
      if fr_Priority a > fr_Priority b then requests[i := b, i - 1 := a]
      else if fr_Priority a = fr_Priority b \<and> fr_Timestamp a < fr_Timestamp b
      then requests[i := b, i - 1 := a]
      else requests)"

fun bubble :: "nat \<Rightarrow> FloorRequest list \<Rightarrow> FloorRequest list" where
  "bubble 0 requests = requests"
| "bubble (Suc i) requests = bubble i (swapStep (Suc i) requests)"

definition Add :: "time \<Rightarrow> FloorRequest \<Rightarrow> FloorRequest list \<Rightarrow> FloorRequest list" where
  "Add now req requests =
     (let requests = requests @ [req\<lparr>fr_Timestamp := now\<rparr>]
      in bubble (length requests - 1) requests)"

fun Remove :: "u16 \<Rightarrow> FloorRequest list \<Rightarrow> FloorRequest list \<times> bool" where
  "Remove floorRequestID [] = ([], False)"
| "Remove floorRequestID (req # requests) =
     (if fr_FloorRequestID req = floorRequestID then (requests, True)
      else let (rest, found) = Remove floorRequestID requests in (req # rest, found))"

definition GetNext :: "FloorRequest list \<Rightarrow> FloorRequest option" where
  "GetNext requests = (case requests of [] \<Rightarrow> None | req # _ \<Rightarrow> Some req)"

definition PopNext :: "FloorRequest list \<Rightarrow> (FloorRequest \<times> FloorRequest list) option" where
  "PopNext requests = (case requests of [] \<Rightarrow> None | req # rest \<Rightarrow> Some (req, rest))"

definition Size :: "FloorRequest list \<Rightarrow> nat" where
  "Size requests = length requests"

fun positionFrom :: "nat \<Rightarrow> u16 \<Rightarrow> FloorRequest list \<Rightarrow> nat" where
  "positionFrom i floorRequestID [] = 0"
| "positionFrom i floorRequestID (req # requests) =
     (if fr_FloorRequestID req = floorRequestID then i + 1
      else positionFrom (i + 1) floorRequestID requests)"

definition GetPosition :: "u16 \<Rightarrow> FloorRequest list \<Rightarrow> nat" where
  "GetPosition = positionFrom 0"

section \<open>The bubble pass inserts\<close>

definition queue_inv :: "FloorRequest list \<Rightarrow> bool" where
  "queue_inv q \<longleftrightarrow> sorted (map qkey q)"

definition insertRequest :: "FloorRequest \<Rightarrow> FloorRequest list \<Rightarrow> FloorRequest list" where
  "insertRequest req q =
     takeWhile (\<lambda>r. qkey r \<le> qkey req) q @ req # dropWhile (\<lambda>r. qkey r \<le> qkey req) q"

lemma swapStep_key:
  "swapStep i q = (if qkey (q ! i) < qkey (q ! (i - 1)) then q[i := q ! (i - 1), i - 1 := q ! i] else q)"
  by (auto simp: swapStep_def qkey_def less_qkey_def Let_def)

lemma swapStep_append:
  "swapStep (Suc (length xs)) (xs @ s # r # ys)
     = (if qkey r < qkey s then xs @ r # s # ys else xs @ s # r # ys)"
  by (simp add: swapStep_key nth_append list_update_append)

lemma bubble_sorted_prefix:
  "sorted (map qkey (xs @ [r])) \<Longrightarrow> bubble (length xs) (xs @ r # ys) = xs @ r # ys"
proof (induction xs arbitrary: r ys rule: rev_induct)
  case (snoc s xs)
  then have "\<not> qkey r < qkey s" "sorted (map qkey (xs @ [s]))"
    by (auto simp: sorted_append)
  with snoc.IH [of s "r # ys"] show ?case by (simp add: swapStep_append)
qed simp

lemma bubble_insert:
  "sorted (map qkey xs) \<Longrightarrow> bubble (length xs) (xs @ r # ys) = insertRequest r xs @ ys"
proof (induction xs arbitrary: ys rule: rev_induct)
  case Nil
  then show ?case by (simp add: insertRequest_def)
next
  case (snoc s xs)
  then have sorted: "sorted (map qkey xs)" "\<forall>x \<in> set xs. qkey x \<le> qkey s"
    by (auto simp: sorted_append)
  show ?case
  proof (cases "qkey r < qkey s")
    case True
    then have "insertRequest r (xs @ [s]) = insertRequest r xs @ [s]"
      by (simp add: insertRequest_def takeWhile_tail dropWhile_append3 not_le)
    with True snoc.IH [OF sorted(1), of "s # ys"] show ?thesis by (simp add: swapStep_append)
  next
    case False
    with sorted have "\<forall>x \<in> set (xs @ [s]). qkey x \<le> qkey r" by fastforce
    then have "insertRequest r (xs @ [s]) = xs @ [s, r]"
      by (simp add: insertRequest_def takeWhile_eq_all_conv [THEN iffD2]
          dropWhile_eq_Nil_conv [THEN iffD2])
    with False snoc.prems bubble_sorted_prefix [of xs s "r # ys"] show ?thesis
      by (simp add: swapStep_append)
  qed
qed

lemma Add_insert: "queue_inv q \<Longrightarrow> Add now req q = insertRequest (req\<lparr>fr_Timestamp := now\<rparr>) q"
  using bubble_insert [of q "req\<lparr>fr_Timestamp := now\<rparr>" "[]"]
  by (simp add: Add_def queue_inv_def)

lemma mset_insertRequest: "mset (insertRequest r q) = add_mset r (mset q)"
  unfolding insertRequest_def
  by (metis mset.simps(2) mset_append takeWhile_dropWhile_id union_mset_add_mset_right)

lemma queue_inv_insertRequest:
  assumes "queue_inv q"
  shows "queue_inv (insertRequest r q)"
  using assms
proof (induction q)
  case Nil
  then show ?case by (simp add: queue_inv_def insertRequest_def)
next
  case (Cons s q)
  then show ?case
    by (cases "qkey s \<le> qkey r")
       (auto simp: queue_inv_def insertRequest_def dest: set_takeWhileD set_dropWhileD)
qed

section \<open>The contract of a priority queue\<close>

text \<open>
  A queue of keyed entries: what is added is kept, and what comes out next has the least key
  of what is inside.
\<close>

locale priority_queue =
  fixes add :: "'r \<Rightarrow> 'q \<Rightarrow> 'q"
    and peek :: "'q \<Rightarrow> 'r option"
    and pop :: "'q \<Rightarrow> ('r \<times> 'q) option"
    and contents :: "'q \<Rightarrow> 'r multiset"
    and key :: "'r \<Rightarrow> 'k::linorder"
    and inv :: "'q \<Rightarrow> bool"
  assumes inv_add: "inv q \<Longrightarrow> inv (add r q)"
    and contents_add: "inv q \<Longrightarrow> contents (add r q) = add_mset r (contents q)"
    and pop_None: "pop q = None \<longleftrightarrow> contents q = {#}"
    and pop_Some: "inv q \<Longrightarrow> pop q = Some (r, q') \<Longrightarrow>
      inv q' \<and> contents q = add_mset r (contents q') \<and> (\<forall>s \<in># contents q'. key r \<le> key s)"
    and peek_pop: "peek q = map_option fst (pop q)"
begin

lemma pop_after_add:
  assumes "inv q"
  obtains s q' where "pop (add r q) = Some (s, q')" "inv q'"
    "add_mset r (contents q) = add_mset s (contents q')"
    "\<forall>x \<in># add_mset r (contents q). key s \<le> key x"
proof -
  from assms have "contents (add r q) = add_mset r (contents q)" by (rule contents_add)
  then have "pop (add r q) \<noteq> None" by (simp add: pop_None)
  then obtain s q' where p: "pop (add r q) = Some (s, q')" by auto
  from pop_Some [OF inv_add [OF assms] p] contents_add [OF assms, of r] p that
  show ?thesis by auto
qed

lemma peek_least:
  assumes "inv q" "peek q = Some r"
  shows "r \<in># contents q" "\<forall>x \<in># contents q. key r \<le> key x"
proof -
  obtain q' where "pop q = Some (r, q')" using assms(2) by (auto simp: peek_pop)
  from pop_Some [OF assms(1) this]
  show "r \<in># contents q" "\<forall>x \<in># contents q. key r \<le> key x" by auto
qed

lemma pop_order:
  assumes "inv q" "pop q = Some (r, q')" "pop q' = Some (s, q'')"
  shows "key r \<le> key s"
proof -
  from pop_Some [OF assms(1,2)] have "inv q'" "\<forall>x \<in># contents q'. key r \<le> key x" by auto
  moreover from pop_Some [OF this(1) assms(3)] have "s \<in># contents q'" by auto
  ultimately show ?thesis by blast
qed

end

interpretation frq: priority_queue "\<lambda>r. Add (fr_Timestamp r) r" GetNext PopNext mset qkey queue_inv
proof (unfold_locales, goal_cases)
  case (1 q r)
  then show ?case by (simp add: Add_insert queue_inv_insertRequest)
next
  case (2 q r)
  then show ?case by (simp add: Add_insert mset_insertRequest)
next
  case (3 q)
  show ?case by (simp add: PopNext_def split: list.splits)
next
  case (4 q r q')
  then show ?case by (auto simp: PopNext_def queue_inv_def split: list.splits)
next
  case (5 q)
  show ?case by (simp add: PopNext_def GetNext_def split: list.splits)
qed

section \<open>Draining and positions\<close>

fun addAll :: "(time \<times> FloorRequest) list \<Rightarrow> FloorRequest list \<Rightarrow> FloorRequest list" where
  "addAll [] q = q"
| "addAll ((now, req) # rs) q = addAll rs (Add now req q)"

lemma Add_stamp: "Add now req q = Add (fr_Timestamp (req\<lparr>fr_Timestamp := now\<rparr>)) (req\<lparr>fr_Timestamp := now\<rparr>) q"
  by (simp add: Add_def)

lemma queue_inv_Add: "queue_inv q \<Longrightarrow> queue_inv (Add now req q)"
  using frq.inv_add [of q "req\<lparr>fr_Timestamp := now\<rparr>"] by (subst Add_stamp)

lemma mset_Add: "queue_inv q \<Longrightarrow> mset (Add now req q) = add_mset (req\<lparr>fr_Timestamp := now\<rparr>) (mset q)"
  by (simp add: Add_insert mset_insertRequest)

lemma addAll_inv:
  "queue_inv q \<Longrightarrow> queue_inv (addAll rs q) \<and>
   mset (addAll rs q) = mset q + mset (map (\<lambda>(now, req). req\<lparr>fr_Timestamp := now\<rparr>) rs)"
  by (induction rs q rule: addAll.induct) (simp_all add: queue_inv_Add mset_Add)

lemma positionFrom_shift:
  "positionFrom i k q = (if k \<in> fr_FloorRequestID ` set q then i + positionFrom 0 k q else 0)"
proof (induction q arbitrary: i)
  case (Cons r q)
  show ?case
    using Cons.IH [of "i + 1"] Cons.IH [of 1] by auto
qed simp

lemma GetPosition_zero_iff: "GetPosition k q = 0 \<longleftrightarrow> k \<notin> fr_FloorRequestID ` set q"
proof (induction q)
  case (Cons r q)
  show ?case
    using positionFrom_shift [of 1 k q] by (auto simp: GetPosition_def)
qed (simp add: GetPosition_def)

lemma GetPosition_Cons:
  "GetPosition k (r # q) =
     (if fr_FloorRequestID r = k then 1
      else if GetPosition k q = 0 then 0 else GetPosition k q + 1)"
  using positionFrom_shift [of 1 k q] GetPosition_zero_iff [of k q]
  by (auto simp: GetPosition_def)

lemma Remove_GetPosition:
  "Remove k q = (if GetPosition k q = 0 then (q, False)
     else (take (GetPosition k q - 1) q @ drop (GetPosition k q) q, True))"
proof (induction q)
  case Nil
  then show ?case by (simp add: GetPosition_def)
next
  case (Cons r q)
  then show ?case
    by (cases "GetPosition k q") (auto simp: GetPosition_Cons split: prod.splits)
qed

lemma sorted_takeWhile_filter:
  "sorted (map f q) \<Longrightarrow> takeWhile (\<lambda>r. f r \<le> x) q = filter (\<lambda>r. f r \<le> x) q \<and>
     dropWhile (\<lambda>r. f r \<le> x) q = filter (\<lambda>r. \<not> f r \<le> x) q" for f :: "'a \<Rightarrow> 'b::linorder"
proof (induction q)
  case (Cons r q)
  show ?case
  proof (cases "f r \<le> x")
    case True
    with Cons show ?thesis by simp
  next
    case False
    with Cons.prems have "\<forall>s \<in> set q. \<not> f s \<le> x" by fastforce
    with False show ?thesis by (simp add: filter_empty_conv)
  qed
qed simp

section \<open>Properties\<close>

text \<open>C38. Whatever requests are added and whatever the clock reads, the queue stays sorted
  by descending priority and then ascending timestamp, and holds exactly the old requests and
  the new ones, stamped with the time of their insertion.\<close>
theorem queue_sorted_permutation:
  assumes "queue_inv q"
  shows "queue_inv (addAll rs q) \<and>
    mset (addAll rs q) = mset q + mset (map (\<lambda>(now, req). req\<lparr>fr_Timestamp := now\<rparr>) rs)"
  using assms by (rule addAll_inv)

definition sampleRequest :: "u16 \<Rightarrow> Priority \<Rightarrow> FloorRequest" where
  "sampleRequest k p = \<lparr>fr_FloorID = 1, fr_FloorRequestID = k, fr_UserID = 4,
     fr_BeneficiaryID = 0, fr_Priority = p, fr_Timestamp = 0\<rparr>"

theorem queue_sorted_permutation_witness:
  "queue_inv (addAll [(5, sampleRequest 1 512), (6, sampleRequest 2 768)] NewFloorRequestQueue)"
  using queue_sorted_permutation [of NewFloorRequestQueue
      "[(5, sampleRequest 1 512), (6, sampleRequest 2 768)]"]
  by (simp add: NewFloorRequestQueue_def queue_inv_def del: addAll.simps)

text \<open>First come, first served within a priority: when the clock has not gone back,
  \<^verbatim>\<open>Add\<close> puts the request after every request of equal or higher priority and before every
  request of lower priority, and does not reorder the others.\<close>
lemma Add_fifo_within_priority:
  assumes "queue_inv q" "\<forall>r \<in> set q. fr_Timestamp r \<le> now"
  shows "Add now req q =
    filter (\<lambda>r. fr_Priority req \<le> fr_Priority r) q @ [req\<lparr>fr_Timestamp := now\<rparr>] @
    filter (\<lambda>r. fr_Priority r < fr_Priority req) q"
proof -
  let ?req = "req\<lparr>fr_Timestamp := now\<rparr>"
  have "qkey r \<le> qkey ?req \<longleftrightarrow> fr_Priority req \<le> fr_Priority r" if "r \<in> set q" for r
    using that assms(2) by (auto simp: qkey_def less_eq_qkey_def)
  then have "filter (\<lambda>r. qkey r \<le> qkey ?req) q = filter (\<lambda>r. fr_Priority req \<le> fr_Priority r) q"
    "filter (\<lambda>r. \<not> qkey r \<le> qkey ?req) q = filter (\<lambda>r. fr_Priority r < fr_Priority req) q"
    by (auto intro!: filter_cong)
  then show ?thesis
    using sorted_takeWhile_filter [of qkey q "qkey ?req"] assms(1)
    by (simp add: Add_insert insertRequest_def queue_inv_def)
qed

lemma Add_fifo_within_priority_witness:
  "Add 9 (sampleRequest 3 512) [sampleRequest 2 768, sampleRequest 1 512, sampleRequest 4 0]
    = [sampleRequest 2 768, sampleRequest 1 512,
       (sampleRequest 3 512)\<lparr>fr_Timestamp := 9\<rparr>, sampleRequest 4 0]"
  using Add_fifo_within_priority [of
      "[sampleRequest 2 768, sampleRequest 1 512, sampleRequest 4 0]" 9 "sampleRequest 3 512"]
  by (simp add: queue_inv_def qkey_def less_eq_qkey_def sampleRequest_def)

text \<open>\<^verbatim>\<open>PopNext\<close> and \<^verbatim>\<open>GetNext\<close> agree, and the request they return has the highest
  priority in the queue and, among those, the earliest timestamp; the rest stays queued in
  order.\<close>
lemma PopNext_highest_priority:
  assumes "queue_inv q" "PopNext q = Some (r, q')"
  shows "GetNext q = Some r \<and> queue_inv q' \<and> mset q = add_mset r (mset q') \<and>
    (\<forall>s \<in> set q'. fr_Priority s < fr_Priority r \<or>
       (fr_Priority s = fr_Priority r \<and> fr_Timestamp r \<le> fr_Timestamp s))"
proof -
  have "GetNext q = Some r" using assms(2) by (simp add: frq.peek_pop)
  moreover have "qkey r \<le> qkey s \<Longrightarrow> fr_Priority s < fr_Priority r \<or>
      (fr_Priority s = fr_Priority r \<and> fr_Timestamp r \<le> fr_Timestamp s)" for s
    by (auto simp: qkey_def less_eq_qkey_def)
  ultimately show ?thesis using frq.pop_Some [OF assms] by auto
qed

lemma PopNext_highest_priority_witness:
  "GetNext [sampleRequest 2 768, sampleRequest 1 512] = Some (sampleRequest 2 768)"
  using PopNext_highest_priority [of "[sampleRequest 2 768, sampleRequest 1 512]"
      "sampleRequest 2 768" "[sampleRequest 1 512]"]
  by (simp add: queue_inv_def qkey_def less_eq_qkey_def sampleRequest_def PopNext_def)

text \<open>\<^verbatim>\<open>Remove\<close> finds a request exactly when \<^verbatim>\<open>GetPosition\<close> does, takes out the entry
  at that one-based position and nothing else, and keeps the queue ordered.\<close>
lemma Remove_at_position:
  "Remove k q = (if GetPosition k q = 0 then (q, False)
     else (take (GetPosition k q - 1) q @ drop (GetPosition k q) q, True)) \<and>
   (GetPosition k q = 0) = (k \<notin> fr_FloorRequestID ` set q)"
  using Remove_GetPosition GetPosition_zero_iff by blast

end
