(* ===== verification/Spec2Isabelle.thy ===== *)
theory Spec2Isabelle
  imports End_To_End TCP_End_To_End Races Wire_Types Listening Keepalives Manager Request_Queue
begin

text \<open>
  Floor control over BFCP (RFC 4582, RFC 8855) in Go: a wire format, a state machine per floor, a
  server over UDP and TCP, a client role that shares the server's UDP socket, a client over TCP,
  and virtual clients that wrap it. This library models these parts and proves what they keep.
\<close>

section \<open>The program and its model\<close>

text \<open>
  \<^verbatim>\<open>types.go\<close> names the constants of the protocol and \<^verbatim>\<open>message.go\<close>, \<^verbatim>\<open>grouped.go\<close> write and
  read messages. \<^verbatim>\<open>transport.go\<close> cuts a TCP stream into messages and dispatches datagrams.
  \<^verbatim>\<open>state.go\<close> holds the state machines of floors and sessions. \<^verbatim>\<open>server.go\<close> keeps sessions and
  floors and answers requests; it talks to whoever is on the other side of a transport.
  \<^verbatim>\<open>udpclient.go\<close> is a client role of the same socket, so that one endpoint can be a floor
  control server and a participant. \<^verbatim>\<open>client.go\<close> is a client of its own over TCP;
  \<^verbatim>\<open>virtual/client.go\<close> wraps one for a synthetic participant and \<^verbatim>\<open>virtual/manager.go\<close> keeps
  many of these, with identifiers from a pool.

  \<^item> \<^verbatim>\<open>Prelude\<close>: Go's integers as words, outcomes (a value, an error, a panic), slices with their
    bounds checks, big-endian conversions, decimal printing, association lists as Go maps.
  \<^item> \<^verbatim>\<open>Types\<close>: the enumerations of \<^verbatim>\<open>types.go\<close>, open as Go's are: a type synonym of a word and
    one definition per constant, with the printing functions.
  \<^item> \<^verbatim>\<open>Message\<close>, \<^verbatim>\<open>Codec\<close>, \<^verbatim>\<open>Grouped\<close>: the message and its attributes, \<^verbatim>\<open>Encode\<close> and
    \<^verbatim>\<open>Decode\<close> octet by octet, the builders and accessors, FLOOR-REQUEST-INFORMATION.
  \<^item> \<^verbatim>\<open>Transport\<close>: the state of a TCP transport, a UDP transport and a UDP listener, sending and
    closing, and the TCP read loop over a stream that is a list of bytes and pauses.
  \<^item> \<^verbatim>\<open>Floor\<close>, \<^verbatim>\<open>Session\<close>, \<^verbatim>\<open>Request_Queue\<close>: the state machines of \<^verbatim>\<open>state.go\<close> and its queue.
  \<^item> \<^verbatim>\<open>Server_State\<close>, \<^verbatim>\<open>Server\<close>, \<^verbatim>\<open>UDP_Client\<close>: the state of the server and one definition per
    function of \<^verbatim>\<open>server.go\<close>; the data and the message handling of a client role, which live in
    the same state since they share the socket.
  \<^item> \<^verbatim>\<open>Server_Invariant\<close>, \<^verbatim>\<open>Server_Spec\<close>, \<^verbatim>\<open>Server_Refinement\<close>, \<^verbatim>\<open>Server_Runs\<close>: invariants,
    specification, refinement and reachable states of the server.
  \<^item> \<^verbatim>\<open>Server_Responses\<close>, \<^verbatim>\<open>Server_Answers\<close>: what the server sends, and that it is right.
  \<^item> \<^verbatim>\<open>Server_TCP\<close>, \<^verbatim>\<open>TCP_Refinement\<close>, \<^verbatim>\<open>TCP_Runs\<close>, \<^verbatim>\<open>TCP_Grants\<close>: the server over TCP as a
    transition system of connections, read loops and handlers that sleep; its invariant, refinement,
    reachable states, and what it tells the client of a request.
  \<^item> \<^verbatim>\<open>Interleaving\<close>, \<^verbatim>\<open>Races\<close>: the same TCP handlers as chains of atomic steps, one per critical
    section or write, and every interleaving of any number of them; two races.
  \<^item> \<^verbatim>\<open>Handler_Effects\<close>: what every handler of both transports is made of, as a locale;
    \<^verbatim>\<open>Wire_Types\<close>, \<^verbatim>\<open>Connections\<close> use it for the types of what is written and for the isolation
    of connections.
  \<^item> \<^verbatim>\<open>Listening\<close>, \<^verbatim>\<open>Keepalives\<close>: dialling, binding addresses and port ranges, the accept loop, the
    UDP read loop and the keepalive loop.
  \<^item> \<^verbatim>\<open>UDP_Transactions\<close>, \<^verbatim>\<open>End_To_End\<close>: the transactions of a client role, and such a role
    together with the server it talks to.
  \<^item> \<^verbatim>\<open>TCP_Client\<close>, \<^verbatim>\<open>Virtual_Client\<close>, \<^verbatim>\<open>User_ID_Pool\<close>, \<^verbatim>\<open>Manager\<close>: \<^verbatim>\<open>client.go\<close> and the files
    of \<^verbatim>\<open>virtual/\<close>.
  \<^item> \<^verbatim>\<open>TCP_End_To_End\<close>: a virtual client, the TCP client it wraps, the connection and the server.
\<close>

section \<open>How state and effects are modelled\<close>

text \<open>
  Objects that Go shares by pointer (sessions, floors, transports, client roles, clients of the
  manager) live in heaps: functions from addresses, with a counter of fresh addresses. The maps
  of the code map keys to addresses, so aliasing is kept: two keys may name one object. A heap
  is total; the invariants say which addresses are in use. What a run does to the outside (bytes
  to a connection, a callback) is appended to a log of events, in the order of the code.

  The outside comes in as an argument: \<^verbatim>\<open>Env\<close> has the order in which a Go map is ranged over, the
  failures of writes and the clock; \<open>resolve\<close> is \<^verbatim>\<open>net.ResolveUDPAddr\<close>; the dial of a client is
  its result; \<open>bind\<close> says which addresses can be bound; what \<^verbatim>\<open>Accept\<close>, a read of the UDP socket or a
  ticker yields is a list of events. Callbacks that decide something (\<^verbatim>\<open>OnFloorRequest\<close>) are functions of the
  configuration; callbacks that only observe are events. Hypotheses on these are named where they
  are used: the order is a permutation of the map, a resolved address is stable.

  A function that holds a lock from its first to its last line is one step. Where the code waits,
  the model is split there and other steps may come between: a handler of the TCP
  server that sleeps, a transaction that waits for its response, a call of the TCP client, the
  removal of a virtual client from the manager. What happens meanwhile is a list of steps, over
  which the theorems quantify. The TCP handlers are also split wherever they give up a lock: there a
  schedule says which handler goes on, and run without interruption the steps are the handler.
\<close>

section \<open>What is shown\<close>

text \<open>
  Wire format: \<^verbatim>\<open>Decode\<close> never panics and accepts only what encodes to the same message again;
  \<^verbatim>\<open>Encode\<close> is total and inverted by \<^verbatim>\<open>Decode\<close> on messages whose attributes fit their length octet; the
  read loop hands on what the peer wrote. Two classes of messages do not survive: values of 254
  octets and more, and grouped sub-attributes.

  Floors: a floor refines an abstract floor that is free, asked for, held or closed; held floors
  stay held until their holder releases them; a denied floor stays closed, which the code
  does not intend. The server refines a specification over maps from identifiers to abstract floors:
  every datagram is one step of it, in every reachable state no handler panics, each request is
  answered once with the decision, and a held floor survives what others send. Everything it writes,
  over either transport, is a message that \<^verbatim>\<open>Decode\<close> accepts. A connection over TCP is left alone by
  all others. The server listens on the first port that can be bound, and its loops hand on
  what arrives until the first failure. However the critical sections of concurrent TCP handlers
  interleave, the invariant holds and floors move only by operations that some message asks for, so
  a held floor is safe from all who may not release it. Answers are not: a late denial falls on
  another request, and a Goodbye may release a floor granted after it looked.

  Clients: a transaction returns the response to its own request or an error, after at most
  \<^verbatim>\<open>MaxRetries\<close> attempts; with the peer it gets the floor if one request and its answer arrive. A
  call of the TCP client gets its own response too. The floors a virtual client counts as held are
  those its callbacks reported; over TCP it gets a free floor that the policy grants, whatever the
  server does for others while the handler of the request sleeps. Each of these parts has ways to
  fail that the code allows: a lost
  answer, a late response, a connection lost early, a grant in the answer. Each is shown.

  Identifiers: the pool hands out the least free one, unless its range ends at the largest; the
  manager never gives two clients the same one.
\<close>

section \<open>Interfaces, bounds and partiality\<close>

text \<open>
  Five contracts are locales: \<^verbatim>\<open>floor_control\<close> (what a server may rely on about the operations of
  a floor), \<^verbatim>\<open>priority_queue\<close> and \<^verbatim>\<open>id_pool\<close> are interpreted on the code's own operations in the
  theory that defines them. \<^verbatim>\<open>handler_effects\<close> is the contract of a predicate on server states with the
  elementary effects of the handlers; it is interpreted for the types of the wire, for the isolation
  of connections and for the growth of the log. \<^verbatim>\<open>interleaving\<close> is what a predicate has to survive
  to hold in every interleaving; it is interpreted for the invariant and the moves of the floors. The
  properties rest on these facts.

  Loops over data are structural or have a measure. The loop of \<^verbatim>\<open>Allocate\<close> counts in 16 bits and
  may never end: it is a partial function into options, and \<^term>\<open>None\<close> means that it
  does not end. The loop of a transaction counts down \<^verbatim>\<open>MaxRetries\<close>. \<^verbatim>\<open>RequestFloor\<close> of
  a virtual client may wait for itself: \<^term>\<open>None\<close> is that deadlock. Integers keep their width
  wherever the code computes with them: identifiers and lengths are words, and the doubling of a
  timer wraps at 64 bits.
\<close>

section \<open>Not modelled\<close>

text \<open>
  The TLS handshake and what the operating system does below \<^verbatim>\<open>bind\<close>, \<^verbatim>\<open>Accept\<close>, reads and writes
  are not modelled: their results are parameters. Starting a goroutine is no step of its own: the
  loops are there once their transport or listener is open, and \<^verbatim>\<open>ListenAndServe\<close>, which starts them
  and then blocks for ever, has no definition. Real time enters
  only as clock values and as timers that fire in any order. Callbacks are not re-entrant in the
  server: an application function that calls the server back is a step of its own.
  \<^verbatim>\<open>logger.go\<close> and the programs under \<^verbatim>\<open>examples/\<close> have no effect on the protocol. Data races
  on a memory cell are not modelled: each step is atomic. The interleavings are of TCP handlers; the
  fields of a session, which only its own goroutine writes, are set in one step. The UDP server
  handles its datagrams in one goroutine.
\<close>

end
